theory Spec2Isabelle
  imports Main "HOL-Library.Sublist"
begin

section \<open>Mesh-file readers of \<^verbatim>\<open>source/grid/grid_in.cc\<close>\<close>

text \<open>
  The readers of \<^verbatim>\<open>GridIn\<close> consume a \<^verbatim>\<open>std::istream\<close>, fill the three containers
  \<^verbatim>\<open>vertices\<close>, \<^verbatim>\<open>cells\<close>, \<^verbatim>\<open>subcelldata\<close>, clean them up and hand them to the attached
  triangulation. The embedding keeps this shape: the stream is a state that every
  extraction threads through, a failed \<^verbatim>\<open>AssertThrow\<close> is an error value, the
  triangulation is a state of its own that only the final calls touch.
\<close>

subsection \<open>Numbers, points, cells\<close>

text \<open>
  An \<^verbatim>\<open>unsigned int\<close> is an integer from \<open>0\<close> to \<open>2^32 - 1\<close>; where the code can
  leave this range the wrap-around is written out. The largest value serves as the
  "invalid" marker.
\<close>

type_synonym uint = int

definition uint_max :: uint where
  "uint_max = 4294967295"

text \<open>
  A \<^verbatim>\<open>double\<close> is carried as the decimal text it was read from, or as the integer it
  was converted from; no claim below depends on floating-point arithmetic.
\<close>

datatype double = Dbl string | DblInt int

type_synonym point = "double list"

definition invalid_unsigned_int :: uint where
  "invalid_unsigned_int = uint_max"

text \<open>
  Modelled from the spec: the identifier types and their sentinels are declared in
  \<^verbatim>\<open>base/types.h\<close>, which is not part of the sources at hand. The spec calls them
  fixed-width unsigned integers whose largest value is reserved ("flat" for manifolds,
  "internal face" for boundaries, "invalid" for materials).
\<close>

definition flat_manifold_id :: uint where
  "flat_manifold_id = uint_max"

definition internal_face_boundary_id :: uint where
  "internal_face_boundary_id = uint_max"

definition invalid_material_id :: uint where
  "invalid_material_id = uint_max"

text \<open>
  Modelled from the spec: \<^verbatim>\<open>CellData\<close> and \<^verbatim>\<open>SubCellData\<close> are declared in
  \<^verbatim>\<open>grid/tria.h\<close>. A cell carries its vertex indices, a material id, a boundary id
  and a manifold id that defaults to "flat".
\<close>

record CellData =
  cd_vertices :: "uint list"
  material_id :: uint
  boundary_id :: uint
  manifold_id :: uint

definition new_CellData :: "nat \<Rightarrow> CellData" where
  "new_CellData n =
     \<lparr>cd_vertices = replicate n invalid_unsigned_int, material_id = 0,
      boundary_id = 0, manifold_id = flat_manifold_id\<rparr>"

record SubCellData =
  boundary_lines :: "CellData list"
  boundary_quads :: "CellData list"

definition new_SubCellData :: SubCellData where
  "new_SubCellData = \<lparr>boundary_lines = [], boundary_quads = []\<rparr>"

definition vertices_per_cell :: "nat \<Rightarrow> nat" where
  "vertices_per_cell dim = 2 ^ dim"

datatype error =
    ExcIO
  | ExcMessage string
  | ExcNotImplemented
  | ExcInternalError
  | ExcInvalidVertexIndex nat uint
  | ExcUnknownIdentifier string
  | ExcInvalidGMSHInput string
  | ExcGmshNoCellInformation
  | ExcGmshUnsupportedGeometry int
  | ExcInvalidVertexIndexGmsh nat uint uint
  | ExcIndexRange
  | ExcDimensionMismatch
  | ExcVTKCellCount uint nat nat nat
  | ExcNeedsAssimp
  | ExcImpossibleInDim nat
  | StdOutOfRange
  | OutOfBounds

subsection \<open>The input stream\<close>

text \<open>
  The stream is the text not yet consumed together with the two state bits the readers
  test. \<^verbatim>\<open>AssertThrow(in, ...)\<close> and \<^verbatim>\<open>while (in >> x)\<close> test \<open>ok\<close>; an extraction starts
  only on a \<open>good\<close> stream. When an extraction cannot start (the stream is not good, or
  only white space is left) C++ sets \<open>failbit\<close> and leaves the target as it was, which
  is why every extraction below takes the target's old value. A local declared without
  initialiser has no old value in C++; the readers pass \<open>0\<close> for it.
\<close>

record istream =
  buf :: string
  eofbit :: bool
  failbit :: bool

definition istream_of :: "string \<Rightarrow> istream" where
  "istream_of s = \<lparr>buf = s, eofbit = False, failbit = False\<rparr>"

definition good :: "istream \<Rightarrow> bool" where
  "good s = (\<not> eofbit s \<and> \<not> failbit s)"

definition ok :: "istream \<Rightarrow> bool" where
  "ok s = (\<not> failbit s)"

definition newline :: char where
  "newline = CHR 0x0A"

definition isspace :: "char \<Rightarrow> bool" where
  "isspace c = (c = CHR '' '' \<or> c = CHR 0x09 \<or> c = CHR 0x0A \<or> c = CHR 0x0B
                \<or> c = CHR 0x0C \<or> c = CHR 0x0D)"

definition isdigit :: "char \<Rightarrow> bool" where
  "isdigit c = (48 \<le> (of_char c :: int) \<and> (of_char c :: int) \<le> 57)"

definition digit_val :: "char \<Rightarrow> int" where
  "digit_val c = of_char c - 48"

definition digits_val :: "string \<Rightarrow> int" where
  "digits_val ds = foldl (\<lambda>a c. 10 * a + digit_val c) 0 ds"

text \<open>The prologue of every formatted extraction: skip white space, fail at the end.\<close>

definition sentry :: "istream \<Rightarrow> bool \<times> istream" where
  "sentry s =
     (if \<not> good s then (False, s\<lparr>failbit := True\<rparr>)
      else (let b = dropWhile isspace (buf s) in
        if b = [] then (False, s\<lparr>buf := [], eofbit := True, failbit := True\<rparr>)
        else (True, s\<lparr>buf := b\<rparr>)))"

text \<open>\<^verbatim>\<open>in >> str\<close> for a \<^verbatim>\<open>std::string\<close>: the next run of non-blank characters.\<close>

definition get_string :: "string \<Rightarrow> istream \<Rightarrow> string \<times> istream" where
  "get_string old s =
     (case sentry s of
        (False, s1) \<Rightarrow> (old, s1)
      | (True, s1) \<Rightarrow>
          (let w = takeWhile (\<lambda>c. \<not> isspace c) (buf s1);
               r = dropWhile (\<lambda>c. \<not> isspace c) (buf s1)
           in (w, s1\<lparr>buf := r, eofbit := (r = [])\<rparr>)))"

text \<open>
  The characters an integer extraction accepts: an optional sign and decimal digits.
  The result is the sign, the digits and the rest of the text.
\<close>

definition split_integer :: "string \<Rightarrow> bool \<times> string \<times> string" where
  "split_integer b =
     (let neg = (b \<noteq> [] \<and> hd b = CHR ''-'');
          b1 = (if b \<noteq> [] \<and> (hd b = CHR ''-'' \<or> hd b = CHR ''+'') then tl b else b)
      in (neg, takeWhile isdigit b1, dropWhile isdigit b1))"

text \<open>
  \<^verbatim>\<open>in >> n\<close> for an unsigned type with largest value \<open>m\<close>. Without a digit the target
  becomes 0 and the stream fails; a value beyond the type's range stores the largest
  value and fails; a minus sign negates modulo \<open>m + 1\<close>.
\<close>

definition get_unsigned :: "int \<Rightarrow> int \<Rightarrow> istream \<Rightarrow> int \<times> istream" where
  "get_unsigned m old s =
     (case sentry s of
        (False, s1) \<Rightarrow> (old, s1)
      | (True, s1) \<Rightarrow>
          (case split_integer (buf s1) of (neg, ds, r) \<Rightarrow>
            (let s2 = s1\<lparr>buf := r, eofbit := (r = [])\<rparr> in
             if ds = [] then (0, s2\<lparr>failbit := True\<rparr>)
             else if digits_val ds > m then (m, s2\<lparr>failbit := True\<rparr>)
             else if neg then ((- digits_val ds) mod (m + 1), s2)
             else (digits_val ds, s2))))"

definition get_uint :: "uint \<Rightarrow> istream \<Rightarrow> uint \<times> istream" where
  "get_uint = get_unsigned uint_max"

definition ulong_max :: int where
  "ulong_max = 18446744073709551615"

definition get_ulong :: "int \<Rightarrow> istream \<Rightarrow> int \<times> istream" where
  "get_ulong = get_unsigned ulong_max"

text \<open>\<^verbatim>\<open>in >> n\<close> for an \<^verbatim>\<open>int\<close>; out-of-range values are clamped and fail.\<close>

definition get_int :: "int \<Rightarrow> istream \<Rightarrow> int \<times> istream" where
  "get_int old s =
     (case sentry s of
        (False, s1) \<Rightarrow> (old, s1)
      | (True, s1) \<Rightarrow>
          (case split_integer (buf s1) of (neg, ds, r) \<Rightarrow>
            (let s2 = s1\<lparr>buf := r, eofbit := (r = [])\<rparr>;
                 v = (if neg then - digits_val ds else digits_val ds) in
             if ds = [] then (0, s2\<lparr>failbit := True\<rparr>)
             else if v > 2147483647 then (2147483647, s2\<lparr>failbit := True\<rparr>)
             else if v < - 2147483648 then (- 2147483648, s2\<lparr>failbit := True\<rparr>)
             else (v, s2))))"

text \<open>
  \<^verbatim>\<open>in >> x\<close> for a \<^verbatim>\<open>double\<close>: sign, digits, fraction and exponent are consumed and
  kept as text. Without a digit in the mantissa, or with an exponent mark and no digit
  after it (the mark and a sign are consumed), the text is empty and the stream fails.
\<close>

definition split_exponent :: "string \<Rightarrow> string \<times> string \<times> bool" where
  "split_exponent b =
     (if b \<noteq> [] \<and> (hd b = CHR ''e'' \<or> hd b = CHR ''E'') then
        (case split_integer (tl b) of (neg, ds, r) \<Rightarrow>
           (hd b # (if neg then ''-'' else []) @ ds, r, ds \<noteq> []))
      else ([], b, True))"

definition split_double :: "string \<Rightarrow> string \<times> string" where
  "split_double b =
     (case split_integer b of (neg, ds, r) \<Rightarrow>
       (let (fr, r1) = (if r \<noteq> [] \<and> hd r = CHR ''.''
                        then (takeWhile isdigit (tl r), dropWhile isdigit (tl r))
                        else ([], r)) in
        if ds = [] \<and> fr = [] then ([], r1)
        else (case split_exponent r1 of (ex, r2, valid) \<Rightarrow>
          (if valid
           then (if neg then ''-'' else []) @ ds @ (if fr = [] then [] else CHR ''.'' # fr) @ ex
           else [],
           r2))))"

definition get_double :: "double \<Rightarrow> istream \<Rightarrow> double \<times> istream" where
  "get_double old s =
     (case sentry s of
        (False, s1) \<Rightarrow> (old, s1)
      | (True, s1) \<Rightarrow>
          (case split_double (buf s1) of (lexeme, r) \<Rightarrow>
            (let s2 = s1\<lparr>buf := r, eofbit := (r = [])\<rparr> in
             if lexeme = [] then (DblInt 0, s2\<lparr>failbit := True\<rparr>) else (Dbl lexeme, s2))))"

text \<open>
  \<^verbatim>\<open>std::getline(in, line)\<close>: the text up to the next newline, which is consumed. On a
  stream that is not good the line keeps its old value.
\<close>

definition getline :: "string \<Rightarrow> istream \<Rightarrow> string \<times> istream" where
  "getline old s =
     (if \<not> good s then (old, s\<lparr>failbit := True\<rparr>)
      else (let l = takeWhile (\<lambda>c. c \<noteq> newline) (buf s);
                r = dropWhile (\<lambda>c. c \<noteq> newline) (buf s) in
        case r of
          [] \<Rightarrow> (l, s\<lparr>buf := [], eofbit := True, failbit := (l = [])\<rparr>)
        | _ # r1 \<Rightarrow> (l, s\<lparr>buf := r1\<rparr>)))"

fun getlines :: "nat \<Rightarrow> string \<Rightarrow> istream \<Rightarrow> string \<times> istream" where
  "getlines 0 line s = (line, s)"
| "getlines (Suc n) line s = (case getline line s of (l, s1) \<Rightarrow> getlines n l s1)"

text \<open>
  \<^verbatim>\<open>in.ignore(n, delim)\<close>: discard characters up to and including the next \<open>delim\<close>, at
  most \<open>n\<close> of them.
\<close>

definition ignore :: "nat \<Rightarrow> char \<Rightarrow> istream \<Rightarrow> istream" where
  "ignore n delim s =
     (if \<not> good s then s\<lparr>failbit := True\<rparr>
      else (let b = buf s; k = length (takeWhile (\<lambda>c. c \<noteq> delim) (take n b)) in
        if k < min n (length b) then s\<lparr>buf := drop (Suc k) b\<rparr>
        else if length b < n then s\<lparr>buf := [], eofbit := True\<rparr>
        else s\<lparr>buf := drop n b\<rparr>))"

text \<open>Filling an array of \<^verbatim>\<open>unsigned int\<close> or \<^verbatim>\<open>double\<close> from the stream, slot by slot.\<close>

fun get_uints :: "uint list \<Rightarrow> istream \<Rightarrow> uint list \<times> istream" where
  "get_uints [] s = ([], s)"
| "get_uints (old # olds) s =
     (case get_uint old s of (v, s1) \<Rightarrow>
        (case get_uints olds s1 of (vs, s2) \<Rightarrow> (v # vs, s2)))"

fun get_doubles :: "double list \<Rightarrow> istream \<Rightarrow> double list \<times> istream" where
  "get_doubles [] s = ([], s)"
| "get_doubles (old # olds) s =
     (case get_double old s of (v, s1) \<Rightarrow>
        (case get_doubles olds s1 of (vs, s2) \<Rightarrow> (v # vs, s2)))"

subsection \<open>Conversions and \<^verbatim>\<open>std::map\<close>\<close>

text \<open>The implicit conversions between \<^verbatim>\<open>int\<close> and \<^verbatim>\<open>unsigned int\<close>.\<close>

definition uint_of_int :: "int \<Rightarrow> uint" where
  "uint_of_int i = i mod 4294967296"

definition int_of_uint :: "uint \<Rightarrow> int" where
  "int_of_uint u = (if u \<ge> 2147483648 then u - 4294967296 else u)"

text \<open>
  A \<^verbatim>\<open>std::map\<close> is a list of key-value pairs with distinct keys. \<^verbatim>\<open>m.find(k)\<close> is
  \<open>map_find\<close>, the assignment \<^verbatim>\<open>m[k] = v\<close> is \<open>map_set\<close>, and reading \<^verbatim>\<open>m[k]\<close> is
  \<open>map_index\<close>: it inserts the default value 0 for a missing key.
\<close>

definition map_find :: "('k \<times> 'v) list \<Rightarrow> 'k \<Rightarrow> 'v option" where
  "map_find m k = map_of m k"

definition map_set :: "'k \<Rightarrow> 'v \<Rightarrow> ('k \<times> 'v) list \<Rightarrow> ('k \<times> 'v) list" where
  "map_set k v m = (k, v) # filter (\<lambda>p. fst p \<noteq> k) m"

definition map_index :: "('k \<times> int) list \<Rightarrow> 'k \<Rightarrow> int \<times> ('k \<times> int) list" where
  "map_index m k = (case map_find m k of Some v \<Rightarrow> (v, m) | None \<Rightarrow> (0, map_set k 0 m))"

subsection \<open>The collaborators outside the file\<close>

text \<open>
  \<^verbatim>\<open>GridReordering\<close> and \<^verbatim>\<open>Triangulation\<close> are not part of the sources at hand. The
  readers take them as parameters: the two clean-up steps on cells, which may throw,
  and the operations of the triangulation \<open>'t\<close> that the readers call. A triangulation
  operation returns the new triangulation and the exception it raised, if any.
\<close>

record 't collaborators =
  invert_all_cells_of_negative_grid :: "point list \<Rightarrow> CellData list \<Rightarrow> error + CellData list"
  reorder_cells :: "CellData list \<Rightarrow> error + CellData list"
  create_triangulation_compatibility ::
    "point list \<Rightarrow> CellData list \<Rightarrow> SubCellData \<Rightarrow> 't \<Rightarrow> error option \<times> 't"
  create_triangulation ::
    "point list \<Rightarrow> CellData list \<Rightarrow> SubCellData \<Rightarrow> 't \<Rightarrow> error option \<times> 't"
  n_active_cells :: "'t \<Rightarrow> nat"
  vertex_index :: "'t \<Rightarrow> nat \<Rightarrow> nat \<Rightarrow> uint"
  at_boundary :: "'t \<Rightarrow> nat \<Rightarrow> nat \<Rightarrow> bool"
  set_boundary_id :: "nat \<Rightarrow> nat \<Rightarrow> uint \<Rightarrow> 't \<Rightarrow> 't"

text \<open>
  Modelled from the spec: \<^verbatim>\<open>GridTools::delete_unused_vertices\<close> is defined in
  \<^verbatim>\<open>grid/grid_tools.cc\<close>, which is not part of the sources at hand. The spec: "delete
  vertices that no cell or sub-entity references; renumber remaining vertices densely,
  rewriting every cell/sub-entity vertex index to match."
\<close>

definition used_indices :: "CellData list \<Rightarrow> SubCellData \<Rightarrow> uint list" where
  "used_indices cells subcelldata =
     concat (map cd_vertices (cells @ boundary_lines subcelldata @ boundary_quads subcelldata))"

definition vertex_used :: "CellData list \<Rightarrow> SubCellData \<Rightarrow> nat \<Rightarrow> bool" where
  "vertex_used cells subcelldata i = (int i \<in> set (used_indices cells subcelldata))"

definition new_vertex_number :: "CellData list \<Rightarrow> SubCellData \<Rightarrow> uint \<Rightarrow> uint" where
  "new_vertex_number cells subcelldata v =
     int (length (filter (vertex_used cells subcelldata) [0 ..< nat v]))"

definition renumber_cell :: "(uint \<Rightarrow> uint) \<Rightarrow> CellData \<Rightarrow> CellData" where
  "renumber_cell f c = c\<lparr>cd_vertices := map f (cd_vertices c)\<rparr>"

definition delete_unused_vertices ::
  "point list \<Rightarrow> CellData list \<Rightarrow> SubCellData \<Rightarrow> point list \<times> CellData list \<times> SubCellData" where
  "delete_unused_vertices vertices cells subcelldata =
     (map (\<lambda>i. vertices ! i) (filter (vertex_used cells subcelldata) [0 ..< length vertices]),
      map (renumber_cell (new_vertex_number cells subcelldata)) cells,
      \<lparr>boundary_lines =
         map (renumber_cell (new_vertex_number cells subcelldata)) (boundary_lines subcelldata),
       boundary_quads =
         map (renumber_cell (new_vertex_number cells subcelldata)) (boundary_quads subcelldata)\<rparr>)"

text \<open>
  Modelled from the spec: \<^verbatim>\<open>SubCellData::check_consistency\<close> (\<^verbatim>\<open>grid/tria.h\<close>). The spec:
  "Sub-entity lists are homogeneous in topological dimension (lines in 2D meshes, quads
  in 3D meshes)"; a 1D mesh has neither.
\<close>

definition check_consistency :: "nat \<Rightarrow> SubCellData \<Rightarrow> bool" where
  "check_consistency dim subcelldata =
     (if dim = 1 then boundary_lines subcelldata = [] \<and> boundary_quads subcelldata = []
      else if dim = 2 then boundary_quads subcelldata = []
      else True)"

text \<open>
  The clean-up every reader ends with: unused vertices, cell orientation (only when the
  mesh fills its space), vertex order. Then the triangulation is built.
\<close>

definition cleanup ::
  "'t collaborators \<Rightarrow> bool \<Rightarrow> point list \<Rightarrow> CellData list \<Rightarrow> SubCellData
     \<Rightarrow> error + (point list \<times> CellData list \<times> SubCellData)" where
  "cleanup col invert vertices cells subcelldata =
     (case delete_unused_vertices vertices cells subcelldata of (v1, c1, sub1) \<Rightarrow>
      case (if invert then invert_all_cells_of_negative_grid col v1 c1 else Inr c1) of
        Inl e \<Rightarrow> Inl e
      | Inr c2 \<Rightarrow>
          (case reorder_cells col c2 of
             Inl e \<Rightarrow> Inl e
           | Inr c3 \<Rightarrow> Inr (v1, c3, sub1)))"

definition cleanup_and_create ::
  "'t collaborators \<Rightarrow> bool \<Rightarrow> point list \<Rightarrow> CellData list \<Rightarrow> SubCellData \<Rightarrow> 't
     \<Rightarrow> error option \<times> 't" where
  "cleanup_and_create col invert vertices cells subcelldata tria =
     (case cleanup col invert vertices cells subcelldata of
        Inl e \<Rightarrow> (Some e, tria)
      | Inr (v, c, sub) \<Rightarrow> create_triangulation_compatibility col v c sub tria)"

subsection \<open>\<^verbatim>\<open>GridIn<3>::read_xda\<close>\<close>

definition xda_to_dealII_map :: "nat list" where
  "xda_to_dealII_map = [0, 1, 5, 4, 3, 2, 6, 7]"

text \<open>One pass of the cell loop after its stream check: eight numbers, then the remap.\<close>

definition xda_read_cell :: "istream \<Rightarrow> CellData \<times> istream" where
  "xda_read_cell s =
     (case get_uints (replicate 8 0) s of (xda_ordered_nodes, s1) \<Rightarrow>
        ((new_CellData 8)\<lparr>cd_vertices := map (\<lambda>i. xda_ordered_nodes ! i) xda_to_dealII_map\<rparr>,
         s1))"

fun xda_cells_loop :: "nat \<Rightarrow> istream \<Rightarrow> error + (CellData list \<times> istream)" where
  "xda_cells_loop 0 s = Inr ([], s)"
| "xda_cells_loop (Suc n) s =
     (if \<not> ok s then Inl ExcIO
      else (case xda_read_cell s of (c, s1) \<Rightarrow>
        (case xda_cells_loop n s1 of
           Inl e \<Rightarrow> Inl e
         | Inr (cs, s2) \<Rightarrow> Inr (c # cs, s2))))"

subsection \<open>\<^verbatim>\<open>GridIn::read_vtk\<close>\<close>

text \<open>The four header lines; the second one is free text.\<close>

definition vtk_header_text :: "string list" where
  "vtk_header_text =
     [''# vtk DataFile Version 3.0'', ''****'', ''ASCII'', ''DATASET UNSTRUCTURED_GRID'']"

fun vtk_header :: "nat \<Rightarrow> string list \<Rightarrow> string \<Rightarrow> istream \<Rightarrow> error + (string \<times> istream)" where
  "vtk_header i [] line s = Inr (line, s)"
| "vtk_header i (t # ts) line s =
     (case getline line s of (l, s1) \<Rightarrow>
        if i \<noteq> 1 \<and> l \<noteq> t
        then Inl (ExcMessage (''While reading VTK file, failed to find a header line with text <''
                              @ t @ ''>''))
        else vtk_header (Suc i) ts l s1)"

text \<open>The \<^verbatim>\<open>POINTS\<close> loop: three coordinates per vertex, cut to the space dimension.\<close>

fun vtk_points_loop :: "nat \<Rightarrow> nat \<Rightarrow> point list \<Rightarrow> istream \<Rightarrow> point list \<times> istream" where
  "vtk_points_loop spacedim 0 vertices s = (vertices, s)"
| "vtk_points_loop spacedim (Suc k) vertices s =
     (case get_doubles [DblInt 0, DblInt 0, DblInt 0] s of (x, s1) \<Rightarrow>
        vtk_points_loop spacedim k (vertices @ [take spacedim x]) s1)"

text \<open>
  One geometric object of the \<^verbatim>\<open>CELLS\<close> section. The three functions are the bodies
  of the loops for \<^verbatim>\<open>dim == 3\<close>, \<^verbatim>\<open>dim == 2\<close> and \<^verbatim>\<open>dim == 1\<close>. A new entry is appended
  to its container and its first \<^verbatim>\<open>type\<close> vertex slots are read.
\<close>

definition vtk_new_object :: "nat \<Rightarrow> istream \<Rightarrow> CellData \<times> istream" where
  "vtk_new_object n s =
     (case get_uints (cd_vertices (new_CellData n)) s of (vs, s1) \<Rightarrow>
        ((new_CellData n)\<lparr>cd_vertices := vs, material_id := 0\<rparr>, s1))"

definition vtk_object_3d ::
  "CellData list \<Rightarrow> SubCellData \<Rightarrow> istream \<Rightarrow> error + (CellData list \<times> SubCellData \<times> istream)" where
  "vtk_object_3d cells subcelldata s =
     (case get_uint 0 s of (type, s1) \<Rightarrow>
        if type = 8 then
          (if \<not> (length (boundary_quads subcelldata) = 0 \<and> length (boundary_lines subcelldata) = 0)
           then Inl ExcNotImplemented
           else (case vtk_new_object 8 s1 of (c, s2) \<Rightarrow> Inr (cells @ [c], subcelldata, s2)))
        else if type = 4 then
          (if \<not> (length (boundary_lines subcelldata) = 0)
           then Inl ExcNotImplemented
           else (case vtk_new_object 4 s1 of (c, s2) \<Rightarrow>
             Inr (cells, subcelldata\<lparr>boundary_quads := boundary_quads subcelldata @ [c]\<rparr>, s2)))
        else if type = 2 then
          (case vtk_new_object 2 s1 of (c, s2) \<Rightarrow>
             Inr (cells, subcelldata\<lparr>boundary_lines := boundary_lines subcelldata @ [c]\<rparr>, s2))
        else Inl (ExcMessage ''While reading VTK file, unknown file type encountered''))"

definition vtk_object_2d ::
  "CellData list \<Rightarrow> SubCellData \<Rightarrow> istream \<Rightarrow> error + (CellData list \<times> SubCellData \<times> istream)" where
  "vtk_object_2d cells subcelldata s =
     (case get_uint 0 s of (type, s1) \<Rightarrow>
        if type = 4 then
          (if \<not> (length (boundary_lines subcelldata) = 0)
           then Inl ExcNotImplemented
           else (case vtk_new_object 4 s1 of (c, s2) \<Rightarrow> Inr (cells @ [c], subcelldata, s2)))
        else if type = 2 then
          (case vtk_new_object 2 s1 of (c, s2) \<Rightarrow>
             Inr (cells, subcelldata\<lparr>boundary_lines := boundary_lines subcelldata @ [c]\<rparr>, s2))
        else Inl (ExcMessage ''While reading VTK file, unknown cell type encountered''))"

definition vtk_object_1d ::
  "CellData list \<Rightarrow> SubCellData \<Rightarrow> istream \<Rightarrow> error + (CellData list \<times> SubCellData \<times> istream)" where
  "vtk_object_1d cells subcelldata s =
     (case get_uint 0 s of (type, s1) \<Rightarrow>
        if type \<noteq> 2 then Inl (ExcMessage ''While reading VTK file, unknown cell type encountered'')
        else (case vtk_new_object 2 s1 of (c, s2) \<Rightarrow> Inr (cells @ [c], subcelldata, s2)))"

definition vtk_object ::
  "nat \<Rightarrow> CellData list \<Rightarrow> SubCellData \<Rightarrow> istream
     \<Rightarrow> error + (CellData list \<times> SubCellData \<times> istream)" where
  "vtk_object dim =
     (if dim = 3 then vtk_object_3d else if dim = 2 then vtk_object_2d else vtk_object_1d)"

text \<open>The loop \<^verbatim>\<open>for (count = 0; count < n_geometric_objects; count++)\<close>.\<close>

fun vtk_cells_loop ::
  "nat \<Rightarrow> nat \<Rightarrow> CellData list \<Rightarrow> SubCellData \<Rightarrow> istream
     \<Rightarrow> error + (CellData list \<times> SubCellData \<times> istream)" where
  "vtk_cells_loop dim 0 cells subcelldata s = Inr (cells, subcelldata, s)"
| "vtk_cells_loop dim (Suc k) cells subcelldata s =
     (case vtk_object dim cells subcelldata s of
        Inl e \<Rightarrow> Inl e
      | Inr (cells1, subcelldata1, s1) \<Rightarrow> vtk_cells_loop dim k cells1 subcelldata1 s1)"

text \<open>
  The \<^verbatim>\<open>CELLS\<close> section from its two header numbers on. The result carries the declared
  number of objects along with the containers.
\<close>

definition vtk_cells_section ::
  "nat \<Rightarrow> istream \<Rightarrow> error + (uint \<times> CellData list \<times> SubCellData \<times> istream)" where
  "vtk_cells_section dim s =
     (case get_uint 0 s of (n_geometric_objects, s1) \<Rightarrow>
      case get_uint 0 s1 of (n_ints, s2) \<Rightarrow>
        if dim = 3 \<or> dim = 2 \<or> dim = 1 then
          (case vtk_cells_loop dim (nat n_geometric_objects) [] new_SubCellData s2 of
             Inl e \<Rightarrow> Inl e
           | Inr (cells, subcelldata, s3) \<Rightarrow> Inr (n_geometric_objects, cells, subcelldata, s3))
        else Inl (ExcMessage ''While reading VTK file, failed to find CELLS section''))"

subsection \<open>\<^verbatim>\<open>GridIn::read_msh\<close>: the element section\<close>

text \<open>
  The state of the element loops: the containers, the boundary ids of 1D vertices, the
  vertex map (reading \<^verbatim>\<open>vertex_indices[k]\<close> can insert into it), the two variables that
  live across the elements of one entity block, the running element count and the
  stream. \<open>me_points\<close> is bookkeeping for the proofs: it counts the elements of type 15
  and no branch reads it.
\<close>

record msh_elements =
  me_cells :: "CellData list"
  me_subcelldata :: SubCellData
  me_boundary_ids_1d :: "(uint \<times> uint) list"
  me_vertex_indices :: "(int \<times> int) list"
  me_material_id :: uint
  me_cell_type :: int
  me_global_cell :: nat
  me_points :: nat
  me_in :: istream

text \<open>
  The translation of vertex numbers to consecutive indices; \<open>missing\<close> says what a
  number without entry in the map becomes.
\<close>

fun renumber_vertices ::
  "(int \<times> int) list \<Rightarrow> (uint \<Rightarrow> error + uint) \<Rightarrow> uint list \<Rightarrow> error + uint list" where
  "renumber_vertices vertex_indices missing [] = Inr []"
| "renumber_vertices vertex_indices missing (v # vs) =
     (case (case map_find vertex_indices (int_of_uint v) of
              Some d \<Rightarrow> Inr (uint_of_int d)
            | None \<Rightarrow> missing v) of
        Inl e \<Rightarrow> Inl e
      | Inr d \<Rightarrow>
          (case renumber_vertices vertex_indices missing vs of
             Inl e \<Rightarrow> Inl e
           | Inr ds \<Rightarrow> Inr (d # ds)))"

text \<open>Reading the same variable \<open>n\<close> times.\<close>

fun get_uint_times :: "nat \<Rightarrow> uint \<Rightarrow> istream \<Rightarrow> uint \<times> istream" where
  "get_uint_times 0 old s = (old, s)"
| "get_uint_times (Suc n) old s = (case get_uint old s of (v, s1) \<Rightarrow> get_uint_times n v s1)"

text \<open>
  The head of one element line: element number and type (formats 1 and 2), then the
  material id and the number of nodes, by format.
\<close>

definition msh_element_head ::
  "nat \<Rightarrow> nat \<Rightarrow> msh_elements \<Rightarrow> uint \<times> int \<times> uint \<times> uint \<times> istream" where
  "msh_element_head dim gmsh_file_format st =
     (case (if gmsh_file_format < 40
            then (case get_uint 0 (me_in st) of (elm_number, sa) \<Rightarrow>
                  case get_int (me_cell_type st) sa of (cell_type, sb) \<Rightarrow>
                    (elm_number, cell_type, sb))
            else (0, me_cell_type st, me_in st)) of
        (elm_number, cell_type, s1) \<Rightarrow>
          if gmsh_file_format < 20 then
            (case get_uint (me_material_id st) s1 of (mat_id, sa) \<Rightarrow>
             case get_uint 0 sa of (dummy, sb) \<Rightarrow>
             case get_uint 0 sb of (nod_num, sc) \<Rightarrow>
               (elm_number, cell_type, mat_id, nod_num, sc))
          else if gmsh_file_format < 40 then
            (case get_uint 0 s1 of (n_tags, sa) \<Rightarrow>
             case (if n_tags > 0 then get_uint (me_material_id st) sa else (0, sa)) of
               (mat_id, sb) \<Rightarrow>
             case get_uint_times (nat n_tags - 1) 0 sb of (dummy, sc) \<Rightarrow>
               (elm_number, cell_type, mat_id, int (vertices_per_cell dim), sc))
          else
            (case get_int 0 s1 of (tag, sa) \<Rightarrow>
               (elm_number, cell_type, me_material_id st, int (vertices_per_cell dim), sa)))"

text \<open>
  One element; \<open>mat_id\<close> is the local variable \<^verbatim>\<open>material_id\<close>. \<open>debug\<close> says whether the library was built with its \<^verbatim>\<open>Assert\<close> checks;
  \<^verbatim>\<open>AssertThrow\<close> checks are always there.
\<close>

definition msh_element :: "bool \<Rightarrow> nat \<Rightarrow> nat \<Rightarrow> nat \<Rightarrow> msh_elements \<Rightarrow> error + msh_elements" where
  "msh_element debug dim gmsh_file_format cell_per_entity st =
     (if \<not> ok (me_in st) then Inl ExcIO
      else (case msh_element_head dim gmsh_file_format st of
        (elm_number, cell_type, mat_id, nod_num, s2) \<Rightarrow>
          if (cell_type = 1 \<and> dim = 1) \<or> (cell_type = 3 \<and> dim = 2) \<or> (cell_type = 5 \<and> dim = 3)
          then
            (if nod_num \<noteq> int (vertices_per_cell dim)
             then Inl (ExcMessage (''Number of nodes does not coincide with the ''
                                   @ ''number required for this object''))
             else (case get_uints (cd_vertices (new_CellData (vertices_per_cell dim))) s2 of
               (vs, s3) \<Rightarrow>
                 if debug \<and> \<not> mat_id < invalid_material_id then Inl ExcIndexRange
                 else (case renumber_vertices (me_vertex_indices st)
                              (\<lambda>v. Inl (ExcInvalidVertexIndexGmsh cell_per_entity elm_number v)) vs of
                     Inl e \<Rightarrow> Inl e
                   | Inr ds \<Rightarrow>
                       Inr (st\<lparr>me_cells := me_cells st @
                                  [(new_CellData (vertices_per_cell dim))
                                     \<lparr>cd_vertices := ds, material_id := mat_id\<rparr>],
                               me_material_id := mat_id, me_cell_type := cell_type,
                               me_global_cell := Suc (me_global_cell st), me_in := s3\<rparr>))))
          else if cell_type = 1 \<and> (dim = 2 \<or> dim = 3) then
            (case get_uints (cd_vertices (new_CellData 2)) s2 of (vs, s3) \<Rightarrow>
               if debug \<and> \<not> mat_id < internal_face_boundary_id then Inl ExcIndexRange
               else (case renumber_vertices (me_vertex_indices st)
                            (\<lambda>v. Inl (ExcInvalidVertexIndex cell_per_entity v)) vs of
                   Inl e \<Rightarrow> Inl e
                 | Inr ds \<Rightarrow>
                     Inr (st\<lparr>me_subcelldata := (me_subcelldata st)
                                \<lparr>boundary_lines := boundary_lines (me_subcelldata st) @
                                   [(new_CellData 2)\<lparr>cd_vertices := ds, boundary_id := mat_id\<rparr>]\<rparr>,
                             me_material_id := mat_id, me_cell_type := cell_type,
                             me_global_cell := Suc (me_global_cell st), me_in := s3\<rparr>)))
          else if cell_type = 3 \<and> dim = 3 then
            (case get_uints (cd_vertices (new_CellData 4)) s2 of (vs, s3) \<Rightarrow>
               if debug \<and> \<not> mat_id < internal_face_boundary_id then Inl ExcIndexRange
               else (case renumber_vertices (me_vertex_indices st)
                            (\<lambda>v. if debug then Inl (ExcInvalidVertexIndex cell_per_entity v)
                                 else Inr invalid_unsigned_int) vs of
                   Inl e \<Rightarrow> Inl e
                 | Inr ds \<Rightarrow>
                     Inr (st\<lparr>me_subcelldata := (me_subcelldata st)
                                \<lparr>boundary_quads := boundary_quads (me_subcelldata st) @
                                   [(new_CellData 4)\<lparr>cd_vertices := ds, boundary_id := mat_id\<rparr>]\<rparr>,
                             me_material_id := mat_id, me_cell_type := cell_type,
                             me_global_cell := Suc (me_global_cell st), me_in := s3\<rparr>)))
          else if cell_type = 15 then
            (case (if gmsh_file_format < 20 then get_uint_times (nat nod_num) 0 s2
                   else get_uint 0 s2) of
               (node_index, s3) \<Rightarrow>
                 (case map_index (me_vertex_indices st) (int_of_uint node_index) of
                    (d, vertex_indices1) \<Rightarrow>
                      Inr (st\<lparr>me_boundary_ids_1d :=
                                 (if dim = 1
                                  then map_set (uint_of_int d) mat_id (me_boundary_ids_1d st)
                                  else me_boundary_ids_1d st),
                              me_vertex_indices :=
                                 (if dim = 1 then vertex_indices1 else me_vertex_indices st),
                              me_material_id := mat_id, me_cell_type := cell_type,
                              me_global_cell := Suc (me_global_cell st),
                              me_points := Suc (me_points st), me_in := s3\<rparr>)))
          else if cell_type = 2 then
            Inl (ExcMessage (''Found triangles while reading a file ''
                             @ ''in gmsh format. deal.II does not '' @ ''support triangles''))
          else if cell_type = 11 then
            Inl (ExcMessage (''Found tetrahedra while reading a file ''
                             @ ''in gmsh format. deal.II does not '' @ ''support tetrahedra''))
          else Inl (ExcGmshUnsupportedGeometry cell_type)))"

text \<open>The loop over the elements of one entity block.\<close>

fun msh_elements_loop ::
  "bool \<Rightarrow> nat \<Rightarrow> nat \<Rightarrow> nat \<Rightarrow> nat \<Rightarrow> msh_elements \<Rightarrow> error + msh_elements" where
  "msh_elements_loop debug dim gmsh_file_format 0 cell_per_entity st = Inr st"
| "msh_elements_loop debug dim gmsh_file_format (Suc k) cell_per_entity st =
     (case msh_element debug dim gmsh_file_format cell_per_entity st of
        Inl e \<Rightarrow> Inl e
      | Inr st1 \<Rightarrow> msh_elements_loop debug dim gmsh_file_format k (Suc cell_per_entity) st1)"

text \<open>
  \<^verbatim>\<open>tag_maps[dimEntity][tagEntity]\<close>, converted to \<^verbatim>\<open>unsigned int\<close>. The array has four
  maps; an index outside is undefined in C++ and reads as 0 here.
\<close>

definition tag_lookup :: "(int \<times> int) list list \<Rightarrow> int \<Rightarrow> int \<Rightarrow> uint" where
  "tag_lookup tag_maps dimEntity tagEntity =
     (if 0 \<le> dimEntity \<and> dimEntity < 4 \<and> nat dimEntity < length tag_maps
      then uint_of_int (fst (map_index (tag_maps ! nat dimEntity) tagEntity))
      else 0)"

text \<open>One entity block: its header (format 4 only), then its elements.\<close>

definition msh_entity_block ::
  "bool \<Rightarrow> nat \<Rightarrow> nat \<Rightarrow> (int \<times> int) list list \<Rightarrow> uint \<Rightarrow> msh_elements
     \<Rightarrow> error + msh_elements" where
  "msh_entity_block debug dim gmsh_file_format tag_maps n_cells st =
     (if gmsh_file_format < 40 then
        msh_elements_loop debug dim gmsh_file_format (nat n_cells) 0
          (st\<lparr>me_material_id := 0, me_cell_type := 0\<rparr>)
      else
        (case get_int 0 (me_in st) of (first, sa) \<Rightarrow>
         case get_int 0 sa of (second, sb) \<Rightarrow>
         case get_int 0 sb of (cell_type, sc) \<Rightarrow>
         case get_ulong 0 sc of (numElements, sd) \<Rightarrow>
           msh_elements_loop debug dim gmsh_file_format (nat numElements) 0
             (st\<lparr>me_material_id :=
                    (if gmsh_file_format = 40 then tag_lookup tag_maps second first
                     else tag_lookup tag_maps first second),
                 me_cell_type := cell_type, me_in := sd\<rparr>)))"

fun msh_blocks_loop ::
  "bool \<Rightarrow> nat \<Rightarrow> nat \<Rightarrow> (int \<times> int) list list \<Rightarrow> uint \<Rightarrow> nat \<Rightarrow> msh_elements
     \<Rightarrow> error + msh_elements" where
  "msh_blocks_loop debug dim gmsh_file_format tag_maps n_cells 0 st = Inr st"
| "msh_blocks_loop debug dim gmsh_file_format tag_maps n_cells (Suc k) st =
     (case msh_entity_block debug dim gmsh_file_format tag_maps n_cells st of
        Inl e \<Rightarrow> Inl e
      | Inr st1 \<Rightarrow> msh_blocks_loop debug dim gmsh_file_format tag_maps n_cells k st1)"

text \<open>
  The element section after its opening marker: the counts, the blocks, and (with
  \<^verbatim>\<open>Assert\<close> checks) the comparison of the elements read with the declared number. The
  result carries the declared number along.
\<close>

definition msh_elements_section ::
  "bool \<Rightarrow> nat \<Rightarrow> nat \<Rightarrow> (int \<times> int) list list \<Rightarrow> (int \<times> int) list \<Rightarrow> int \<Rightarrow> istream
     \<Rightarrow> error + (uint \<times> msh_elements)" where
  "msh_elements_section debug dim gmsh_file_format tag_maps vertex_indices n_entity_blocks0 s =
     (case (if gmsh_file_format > 40 then
              (case get_int n_entity_blocks0 s of (n_entity_blocks, sa) \<Rightarrow>
               case get_uint 0 sa of (n_cells, sb) \<Rightarrow>
               case get_int 0 sb of (min_node_tag, sc) \<Rightarrow>
               case get_int 0 sc of (max_node_tag, sd) \<Rightarrow> (n_entity_blocks, n_cells, sd))
            else if gmsh_file_format = 40 then
              (case get_int n_entity_blocks0 s of (n_entity_blocks, sa) \<Rightarrow>
               case get_uint 0 sa of (n_cells, sb) \<Rightarrow> (n_entity_blocks, n_cells, sb))
            else
              (case get_uint 0 s of (n_cells, sa) \<Rightarrow> (1, n_cells, sa))) of
        (n_entity_blocks, n_cells, s1) \<Rightarrow>
          (case msh_blocks_loop debug dim gmsh_file_format tag_maps n_cells (nat n_entity_blocks)
                  \<lparr>me_cells = [], me_subcelldata = new_SubCellData, me_boundary_ids_1d = [],
                   me_vertex_indices = vertex_indices, me_material_id = 0, me_cell_type = 0,
                   me_global_cell = 0, me_points = 0, me_in = s1\<rparr> of
             Inl e \<Rightarrow> Inl e
           | Inr st \<Rightarrow>
               if debug \<and> int (me_global_cell st) \<noteq> n_cells then Inl ExcDimensionMismatch
               else Inr (n_cells, st)))"

text \<open>
  \<^verbatim>\<open>assign_1d_boundary_ids\<close>: after the triangulation has been built, the boundary ids
  read for single vertices are set on the faces of the 1D cells. A vertex that is not on
  the boundary raises an exception.
\<close>

fun assign_faces ::
  "'t collaborators \<Rightarrow> (uint \<times> uint) list \<Rightarrow> (nat \<times> nat) list \<Rightarrow> 't \<Rightarrow> error option \<times> 't" where
  "assign_faces col boundary_ids [] tria = (None, tria)"
| "assign_faces col boundary_ids ((cell, f) # rest) tria =
     (case map_find boundary_ids (vertex_index col tria cell f) of
        None \<Rightarrow> assign_faces col boundary_ids rest tria
      | Some b \<Rightarrow>
          if \<not> at_boundary col tria cell f
          then (Some (ExcMessage (''You are trying to prescribe boundary ids on the face ''
                  @ ''of a 1d cell (i.e., on a vertex), but this face is not actually at ''
                  @ ''the boundary of the mesh. This is not allowed.'')), tria)
          else assign_faces col boundary_ids rest (set_boundary_id col cell f b tria))"

definition assign_1d_boundary_ids ::
  "'t collaborators \<Rightarrow> (uint \<times> uint) list \<Rightarrow> 't \<Rightarrow> error option \<times> 't" where
  "assign_1d_boundary_ids col boundary_ids tria =
     (if length boundary_ids > 0
      then assign_faces col boundary_ids
             (concat (map (\<lambda>cell. [(cell, 0), (cell, 1)]) [0 ..< n_active_cells col tria])) tria
      else (None, tria))"

text \<open>
  \<^verbatim>\<open>read_msh\<close> from the element section on. \<open>line\<close> holds the opening marker of the
  section, \<open>vertices\<close> and \<open>vertex_indices\<close> come from the node section.
\<close>

definition msh_end_elements_marker :: "nat \<Rightarrow> string" where
  "msh_end_elements_marker gmsh_file_format =
     (if gmsh_file_format = 10 then ''$ENDELM'' else ''$EndElements'')"

definition read_msh_elements ::
  "'t collaborators \<Rightarrow> bool \<Rightarrow> nat \<Rightarrow> nat \<Rightarrow> nat \<Rightarrow> (int \<times> int) list list \<Rightarrow> point list
     \<Rightarrow> (int \<times> int) list \<Rightarrow> int \<Rightarrow> string \<Rightarrow> istream \<Rightarrow> 't \<Rightarrow> error option \<times> 't" where
  "read_msh_elements col debug dim spacedim gmsh_file_format tag_maps vertices vertex_indices
       n_entity_blocks0 line0 s tria =
     (case msh_elements_section debug dim gmsh_file_format tag_maps vertex_indices
             n_entity_blocks0 s of
        Inl e \<Rightarrow> (Some e, tria)
      | Inr (n_cells, st) \<Rightarrow>
          (case get_string line0 (me_in st) of (line, s1) \<Rightarrow>
             if line \<noteq> msh_end_elements_marker gmsh_file_format
             then (Some (ExcInvalidGMSHInput line), tria)
             else if debug \<and> \<not> check_consistency dim (me_subcelldata st)
             then (Some ExcInternalError, tria)
             else if \<not> ok s1 then (Some ExcIO, tria)
             else if \<not> length (me_cells st) > 0 then (Some ExcGmshNoCellInformation, tria)
             else (case cleanup_and_create col (dim = spacedim) vertices (me_cells st)
                          (me_subcelldata st) tria of
                 (Some e, tria1) \<Rightarrow> (Some e, tria1)
               | (None, tria1) \<Rightarrow>
                   if dim = 1 then assign_1d_boundary_ids col (me_boundary_ids_1d st) tria1
                   else (None, tria1))))"

subsection \<open>\<^verbatim>\<open>GridIn::read_ucd\<close>\<close>

text \<open>The vertex loop fills the vector allocated beforehand and the map of vertex numbers.\<close>

fun ucd_vertices_loop ::
  "nat \<Rightarrow> nat \<Rightarrow> nat \<Rightarrow> point list \<Rightarrow> (int \<times> int) list \<Rightarrow> istream
     \<Rightarrow> error + (point list \<times> (int \<times> int) list \<times> istream)" where
  "ucd_vertices_loop spacedim 0 vertex vertices vertex_indices s = Inr (vertices, vertex_indices, s)"
| "ucd_vertices_loop spacedim (Suc k) vertex vertices vertex_indices s =
     (if \<not> ok s then Inl ExcIO
      else (case get_int 0 s of (vertex_number, s1) \<Rightarrow>
            case get_doubles [DblInt 0, DblInt 0, DblInt 0] s1 of (x, s2) \<Rightarrow>
              ucd_vertices_loop spacedim k (Suc vertex) (vertices[vertex := take spacedim x])
                (map_set vertex_number (int vertex) vertex_indices) s2))"

text \<open>
  One entry of the cell list; \<open>mat_id\<close> is the local variable \<^verbatim>\<open>material_id\<close>, the tag
  read from the file, and \<open>cell\<close> the loop counter.
\<close>

definition ucd_cell ::
  "bool \<Rightarrow> nat \<Rightarrow> bool \<Rightarrow> (int \<times> int) list \<Rightarrow> nat \<Rightarrow> CellData list \<Rightarrow> SubCellData \<Rightarrow> istream
     \<Rightarrow> error + (CellData list \<times> SubCellData \<times> istream)" where
  "ucd_cell debug dim apply_all_indicators_to_manifolds vertex_indices cell cells subcelldata s =
     (if \<not> ok s then Inl ExcIO
      else (case get_int 0 s of (dummy, s1) \<Rightarrow>
            case get_uint 0 s1 of (mat_id, s2) \<Rightarrow>
            case get_string [] s2 of (cell_type, s3) \<Rightarrow>
        if (cell_type = ''line'' \<and> dim = 1) \<or> (cell_type = ''quad'' \<and> dim = 2)
           \<or> (cell_type = ''hex'' \<and> dim = 3)
        then
          (case get_uints (cd_vertices (new_CellData (vertices_per_cell dim))) s3 of (vs, s4) \<Rightarrow>
             if debug \<and> \<not> mat_id < invalid_material_id then Inl ExcIndexRange
             else (case renumber_vertices vertex_indices
                          (\<lambda>v. Inl (ExcInvalidVertexIndex cell v)) vs of
                 Inl e \<Rightarrow> Inl e
               | Inr ds \<Rightarrow>
                   Inr (cells @
                          [(if apply_all_indicators_to_manifolds
                            then (new_CellData (vertices_per_cell dim))\<lparr>manifold_id := mat_id\<rparr>
                            else new_CellData (vertices_per_cell dim))
                             \<lparr>cd_vertices := ds, material_id := mat_id\<rparr>],
                        subcelldata, s4)))
        else if cell_type = ''line'' \<and> (dim = 2 \<or> dim = 3) then
          (case get_uints (cd_vertices (new_CellData 2)) s3 of (vs, s4) \<Rightarrow>
             if debug \<and> \<not> mat_id < internal_face_boundary_id then Inl ExcIndexRange
             else (case renumber_vertices vertex_indices
                          (\<lambda>v. Inl (ExcInvalidVertexIndex cell v)) vs of
                 Inl e \<Rightarrow> Inl e
               | Inr ds \<Rightarrow>
                   Inr (cells,
                        subcelldata\<lparr>boundary_lines := boundary_lines subcelldata @
                          [(if apply_all_indicators_to_manifolds
                            then (new_CellData 2)\<lparr>boundary_id := internal_face_boundary_id,
                                                   manifold_id := mat_id\<rparr>
                            else (new_CellData 2)\<lparr>boundary_id := mat_id,
                                                   manifold_id := flat_manifold_id\<rparr>)
                             \<lparr>cd_vertices := ds\<rparr>]\<rparr>,
                        s4)))
        else if cell_type = ''quad'' \<and> dim = 3 then
          (case get_uints (cd_vertices (new_CellData 4)) s3 of (vs, s4) \<Rightarrow>
             if debug \<and> \<not> mat_id < internal_face_boundary_id then Inl ExcIndexRange
             else (case renumber_vertices vertex_indices
                          (\<lambda>v. if debug then Inl (ExcInvalidVertexIndex cell v)
                               else Inr invalid_unsigned_int) vs of
                 Inl e \<Rightarrow> Inl e
               | Inr ds \<Rightarrow>
                   Inr (cells,
                        subcelldata\<lparr>boundary_quads := boundary_quads subcelldata @
                          [(if apply_all_indicators_to_manifolds
                            then (new_CellData 4)\<lparr>boundary_id := internal_face_boundary_id,
                                                   manifold_id := mat_id\<rparr>
                            else (new_CellData 4)\<lparr>boundary_id := mat_id,
                                                   manifold_id := flat_manifold_id\<rparr>)
                             \<lparr>cd_vertices := ds\<rparr>]\<rparr>,
                        s4)))
        else Inl (ExcUnknownIdentifier cell_type)))"

fun ucd_cells_loop ::
  "bool \<Rightarrow> nat \<Rightarrow> bool \<Rightarrow> (int \<times> int) list \<Rightarrow> nat \<Rightarrow> nat \<Rightarrow> CellData list \<Rightarrow> SubCellData
     \<Rightarrow> istream \<Rightarrow> error + (CellData list \<times> SubCellData \<times> istream)" where
  "ucd_cells_loop debug dim apply vertex_indices 0 cell cells subcelldata s =
     Inr (cells, subcelldata, s)"
| "ucd_cells_loop debug dim apply vertex_indices (Suc k) cell cells subcelldata s =
     (case ucd_cell debug dim apply vertex_indices cell cells subcelldata s of
        Inl e \<Rightarrow> Inl e
      | Inr (cells1, subcelldata1, s1) \<Rightarrow>
          ucd_cells_loop debug dim apply vertex_indices k (Suc cell) cells1 subcelldata1 s1)"

text \<open>
  The file from the header line on: the two counts, three numbers that are not used,
  the vertices, the cells. The result carries the declared number of cells along.
\<close>

definition ucd_body ::
  "bool \<Rightarrow> nat \<Rightarrow> nat \<Rightarrow> bool \<Rightarrow> istream
     \<Rightarrow> error + (uint \<times> point list \<times> CellData list \<times> SubCellData)" where
  "ucd_body debug dim spacedim apply_all_indicators_to_manifolds s =
     (case get_uint 0 s of (n_vertices, s1) \<Rightarrow>
      case get_uint 0 s1 of (n_cells, s2) \<Rightarrow>
      case get_int 0 s2 of (dummy, s3) \<Rightarrow>
      case get_int dummy s3 of (dummy1, s4) \<Rightarrow>
      case get_int dummy1 s4 of (dummy2, s5) \<Rightarrow>
        if \<not> ok s5 then Inl ExcIO
        else (case ucd_vertices_loop spacedim (nat n_vertices) 0
                     (replicate (nat n_vertices) (replicate spacedim (DblInt 0))) [] s5 of
            Inl e \<Rightarrow> Inl e
          | Inr (vertices, vertex_indices, s6) \<Rightarrow>
              (case ucd_cells_loop debug dim apply_all_indicators_to_manifolds vertex_indices
                      (nat n_cells) 0 [] new_SubCellData s6 of
                 Inl e \<Rightarrow> Inl e
               | Inr (cells, subcelldata, s7) \<Rightarrow>
                   if debug \<and> \<not> check_consistency dim subcelldata then Inl ExcInternalError
                   else if \<not> ok s7 then Inl ExcIO
                   else Inr (n_cells, vertices, cells, subcelldata))))"

text \<open>
  \<^verbatim>\<open>read_ucd\<close> from the header line on: a parse that fails leaves the triangulation as
  it is; otherwise the mesh is cleaned up and the triangulation is built.
\<close>

definition read_ucd_body ::
  "'t collaborators \<Rightarrow> bool \<Rightarrow> nat \<Rightarrow> nat \<Rightarrow> bool \<Rightarrow> istream \<Rightarrow> 't \<Rightarrow> error option \<times> 't" where
  "read_ucd_body col debug dim spacedim apply_all_indicators_to_manifolds s tria =
     (case ucd_body debug dim spacedim apply_all_indicators_to_manifolds s of
        Inl e \<Rightarrow> (Some e, tria)
      | Inr (n_cells, vertices, cells, subcelldata) \<Rightarrow>
          cleanup_and_create col (dim = spacedim) vertices cells subcelldata tria)"

text \<open>
  The tag and the keyword of the entry at the head of the stream (an entry is a number,
  the tag, the keyword and the vertex numbers), and what \<^verbatim>\<open>read_ucd\<close> makes of the tag
  on a boundary line or quad, by the flag.
\<close>

definition ucd_tag :: "istream \<Rightarrow> uint" where
  "ucd_tag s = fst (get_uint 0 (snd (get_int 0 s)))"

definition ucd_keyword :: "istream \<Rightarrow> string" where
  "ucd_keyword s = fst (get_string [] (snd (get_uint 0 (snd (get_int 0 s)))))"

definition ucd_indicators :: "bool \<Rightarrow> uint \<Rightarrow> CellData \<Rightarrow> bool" where
  "ucd_indicators apply_all_indicators_to_manifolds tag e =
     (if apply_all_indicators_to_manifolds
      then boundary_id e = internal_face_boundary_id \<and> manifold_id e = tag
      else boundary_id e = tag \<and> manifold_id e = flat_manifold_id)"

subsection \<open>Strings\<close>

text \<open>
  \<^verbatim>\<open>std::string::npos\<close> and the arithmetic of \<^verbatim>\<open>std::size_t\<close>, which wraps around at
  \<open>2^64\<close>: the bridge adds to the result of \<^verbatim>\<open>find\<close> without testing it.
\<close>

definition npos :: int where
  "npos = 18446744073709551615"

definition size_t :: "int \<Rightarrow> int" where
  "size_t i = i mod 18446744073709551616"

fun str_find_aux :: "string \<Rightarrow> string \<Rightarrow> int \<Rightarrow> int" where
  "str_find_aux pat [] i = (if pat = [] then i else npos)"
| "str_find_aux pat (c # cs) i =
     (if take (length pat) (c # cs) = pat then i else str_find_aux pat cs (i + 1))"

text \<open>\<^verbatim>\<open>s.find(pat, pos)\<close> and \<^verbatim>\<open>s.substr(pos, count)\<close>, which throws beyond the end.\<close>

definition str_find :: "string \<Rightarrow> string \<Rightarrow> int \<Rightarrow> int" where
  "str_find s pat pos =
     (if pos > int (length s) then npos else str_find_aux pat (drop (nat pos) s) pos)"

definition str_substr :: "string \<Rightarrow> int \<Rightarrow> int \<Rightarrow> error + string" where
  "str_substr s pos count =
     (if pos > int (length s) then Inl StdOutOfRange
      else Inr (take (nat (min count (int (length s) - pos))) (drop (nat pos) s)))"

definition toupper :: "char \<Rightarrow> char" where
  "toupper c =
     (if 97 \<le> (of_char c :: int) \<and> (of_char c :: int) \<le> 122
      then char_of ((of_char c :: int) - 32) else c)"

text \<open>\<^verbatim>\<open>iss >> c\<close> for a \<^verbatim>\<open>char\<close>: the next character that is not white space.\<close>

definition get_nonspace :: "char \<Rightarrow> istream \<Rightarrow> char \<times> istream" where
  "get_nonspace old s =
     (case sentry s of
        (False, s1) \<Rightarrow> (old, s1)
      | (True, s1) \<Rightarrow> (hd (buf s1), s1\<lparr>buf := tl (buf s1)\<rparr>))"

text \<open>
  \<^verbatim>\<open>Utilities::int_to_string\<close> writes a number in decimal digits. It is declared in
  \<^verbatim>\<open>base/utilities.h\<close>, which is not part of the sources at hand, for an
  \<^verbatim>\<open>unsigned int\<close>, which has at most ten digits.
\<close>

primrec decimal_digits :: "nat \<Rightarrow> int \<Rightarrow> string" where
  "decimal_digits 0 v = []"
| "decimal_digits (Suc k) v =
     (if v < 10 then [char_of (48 + v)]
      else decimal_digits k (v div 10) @ [char_of (48 + v mod 10)])"

definition int_to_string :: "int \<Rightarrow> string" where
  "int_to_string v = decimal_digits 10 (uint_of_int v)"

text \<open>\<^verbatim>\<open>from_string(t, s, std::dec)\<close> for an \<^verbatim>\<open>int\<close> \<open>t\<close>, and \<^verbatim>\<open>extract_int\<close>.\<close>

definition from_string :: "int \<Rightarrow> string \<Rightarrow> int" where
  "from_string t s = fst (get_int t (istream_of s))"

definition extract_int :: "string \<Rightarrow> int" where
  "extract_int s = from_string 0 (filter isdigit s)"

subsection \<open>\<^verbatim>\<open>Abaqus_to_UCD::read_in_abaqus\<close>\<close>

text \<open>
  The bridge reads its input line by line. The stream is the list of the lines not yet
  read, and whether the last line ends with a newline: \<^verbatim>\<open>std::getline\<close> empties its
  target when it finds nothing more to read, and leaves the target as it is when the
  end had been reached before.
\<close>

record lstream =
  ls_rest :: "string list"
  ls_final_newline :: bool
  ls_eof :: bool
  ls_fail :: bool

definition lstream_of :: "string list \<Rightarrow> lstream" where
  "lstream_of ls = \<lparr>ls_rest = ls, ls_final_newline = True, ls_eof = False, ls_fail = False\<rparr>"

definition getline_l :: "string \<Rightarrow> lstream \<Rightarrow> string \<times> lstream" where
  "getline_l old s =
     (if ls_fail s \<or> ls_eof s then (old, s\<lparr>ls_fail := True\<rparr>)
      else (case ls_rest s of
              [] \<Rightarrow> ([], s\<lparr>ls_eof := True, ls_fail := True\<rparr>)
            | l # r \<Rightarrow> (l, s\<lparr>ls_rest := r, ls_eof := (r = [] \<and> \<not> ls_final_newline s)\<rparr>)))"

definition lsize :: "lstream \<Rightarrow> nat" where
  "lsize s = 2 * length (ls_rest s) + (if ls_fail s then 0 else 1)"

definition is_star :: "string \<Rightarrow> bool" where
  "is_star line = (line \<noteq> [] \<and> hd line = CHR ''*'')"

text \<open>
  The loop \<^verbatim>\<open>while (std::getline(input_stream, line)) { if (line[0] == '*') ...; ... }\<close>
  of the sections: the data lines up to the next line with a star, that line (or what
  \<open>line\<close> holds at the end of the input), the stream, and whether a star line was found.
\<close>

function read_until_star :: "string \<Rightarrow> lstream \<Rightarrow> string list \<times> string \<times> lstream \<times> bool" where
  "read_until_star line s =
     (case getline_l line s of (l, s1) \<Rightarrow>
        if ls_fail s1 then ([], l, s1, False)
        else if is_star l then ([], l, s1, True)
        else (case read_until_star l s1 of (ds, l2, s2, star) \<Rightarrow> (l # ds, l2, s2, star)))"
  by pat_completeness auto
termination
proof (relation "measure (\<lambda>(line, s). lsize s)")
  show "wf (measure (\<lambda>(line, s). lsize s))" by simp
next
  fix line :: string and s l s1
  assume "(l, s1) = getline_l line s" and "\<not> ls_fail s1"
  then have "lsize s1 < lsize s"
    by (auto simp: getline_l_def lsize_def split: if_splits list.splits)
  then show "((l, s1), line, s) \<in> measure (\<lambda>(line, s). lsize s)"
    by simp
qed

text \<open>
  The intermediate model of the bridge: nodes, cells (material id first), faces
  (boundary indicator first) and the named element sets.
\<close>

record abaqus =
  node_list :: "double list list"
  cell_list :: "double list list"
  face_list :: "double list list"
  elsets_list :: "(string \<times> int list) list"

definition new_abaqus :: abaqus where
  "new_abaqus = \<lparr>node_list = [], cell_list = [], face_list = [], elsets_list = []\<rparr>"

text \<open>\<^verbatim>\<open>for (i < n) iss >> v[i] >> comma\<close> on a vector of zeros.\<close>

fun get_doubles_commas :: "double list \<Rightarrow> istream \<Rightarrow> double list" where
  "get_doubles_commas [] s = []"
| "get_doubles_commas (old # olds) s =
     (case get_double old s of (v, s1) \<Rightarrow>
      case get_nonspace (CHR 0x00) s1 of (comma, s2) \<Rightarrow> v # get_doubles_commas olds s2)"

definition abaqus_node :: "nat \<Rightarrow> string \<Rightarrow> double list" where
  "abaqus_node spacedim line =
     get_doubles_commas (replicate (spacedim + 1) (DblInt 0)) (istream_of line)"

definition abaqus_element :: "nat \<Rightarrow> int \<Rightarrow> string \<Rightarrow> double list" where
  "abaqus_element dim material line =
     (get_doubles_commas (replicate (1 + vertices_per_cell dim) (DblInt 0)) (istream_of line))
       [0 := DblInt material]"

text \<open>
  \<^verbatim>\<open>cell_list[i][k]\<close>. An index outside a vector is undefined in C++; the model stops
  with \<open>OutOfBounds\<close>.
\<close>

definition cell_entry :: "double list list \<Rightarrow> int \<Rightarrow> nat \<Rightarrow> error + double" where
  "cell_entry cl i k =
     (if 0 \<le> i \<and> nat i < length cl \<and> k < length (cl ! nat i) then Inr (cl ! nat i ! k)
      else Inl OutOfBounds)"

fun cell_entries :: "double list list \<Rightarrow> int \<Rightarrow> nat list \<Rightarrow> error + double list" where
  "cell_entries cl i [] = Inr []"
| "cell_entries cl i (k # ks) =
     (case cell_entry cl i k of
        Inl e \<Rightarrow> Inl e
      | Inr v \<Rightarrow> (case cell_entries cl i ks of Inl e \<Rightarrow> Inl e | Inr vs \<Rightarrow> Inr (v # vs)))"

definition get_global_node_numbers ::
  "nat \<Rightarrow> double list list \<Rightarrow> int \<Rightarrow> int \<Rightarrow> error + double list" where
  "get_global_node_numbers dim cl face_cell_no face_cell_face_no =
     (if dim = 2 then
        (if face_cell_face_no = 1 then cell_entries cl (face_cell_no - 1) [1, 2]
         else if face_cell_face_no = 2 then cell_entries cl (face_cell_no - 1) [2, 3]
         else if face_cell_face_no = 3 then cell_entries cl (face_cell_no - 1) [3, 4]
         else if face_cell_face_no = 4 then cell_entries cl (face_cell_no - 1) [4, 1]
         else if \<not> face_cell_face_no \<le> 4 then Inl (ExcMessage ''Invalid face number in 2d'')
         else Inr (replicate 2 (DblInt 0)))
      else if dim = 3 then
        (if face_cell_face_no = 1 then cell_entries cl (face_cell_no - 1) [1, 4, 3, 2]
         else if face_cell_face_no = 2 then cell_entries cl (face_cell_no - 1) [5, 8, 7, 6]
         else if face_cell_face_no = 3 then cell_entries cl (face_cell_no - 1) [1, 2, 6, 5]
         else if face_cell_face_no = 4 then cell_entries cl (face_cell_no - 1) [2, 3, 7, 6]
         else if face_cell_face_no = 5 then cell_entries cl (face_cell_no - 1) [3, 4, 8, 7]
         else if face_cell_face_no = 6 then cell_entries cl (face_cell_no - 1) [1, 5, 8, 4]
         else if \<not> face_cell_no \<le> 6 then Inl (ExcMessage ''Invalid face number in 3d'')
         else Inr (replicate 4 (DblInt 0)))
      else Inl ExcNotImplemented)"

text \<open>One data line of a \<^verbatim>\<open>*SURFACE\<close> section.\<close>

fun surface_faces ::
  "nat \<Rightarrow> double list list \<Rightarrow> int \<Rightarrow> int \<Rightarrow> int list \<Rightarrow> error + double list list" where
  "surface_faces dim cl b_indicator face_number [] = Inr []"
| "surface_faces dim cl b_indicator face_number (cell # cells) =
     (case get_global_node_numbers dim cl cell face_number of
        Inl e \<Rightarrow> Inl e
      | Inr quad_node_list \<Rightarrow>
          (case surface_faces dim cl b_indicator face_number cells of
             Inl e \<Rightarrow> Inl e
           | Inr fs \<Rightarrow> Inr ((DblInt b_indicator # quad_node_list) # fs)))"

definition abaqus_surface_line :: "nat \<Rightarrow> int \<Rightarrow> abaqus \<Rightarrow> string \<Rightarrow> error + abaqus" where
  "abaqus_surface_line dim b_indicator st line0 =
     (let line = map toupper line0 in
      case str_substr line 0 (str_find line '','' 0) of
        Inl e \<Rightarrow> Inl e
      | Inr elset_name \<Rightarrow>
          (case map_find (elsets_list st) elset_name of
             Some cells \<Rightarrow>
               (case get_string [] (istream_of line) of (stmp, s1) \<Rightarrow>
                case get_nonspace (CHR 0x00) s1 of (temp, s2) \<Rightarrow>
                case get_int 0 s2 of (face_number, s3) \<Rightarrow>
                  (case surface_faces dim (cell_list st) b_indicator face_number cells of
                     Inl e \<Rightarrow> Inl e
                   | Inr fs \<Rightarrow> Inr (st\<lparr>face_list := face_list st @ fs\<rparr>)))
           | None \<Rightarrow>
               (case get_int 0 (istream_of line) of (el_idx, s1) \<Rightarrow>
                case get_nonspace (CHR 0x00) s1 of (comma, s2) \<Rightarrow>
                case get_nonspace (CHR 0x00) s2 of (temp, s3) \<Rightarrow>
                case get_int 0 s3 of (face_number, s4) \<Rightarrow>
                  (case surface_faces dim (cell_list st) b_indicator face_number [el_idx] of
                     Inl e \<Rightarrow> Inl e
                   | Inr fs \<Rightarrow> Inr (st\<lparr>face_list := face_list st @ fs\<rparr>)))))"

fun abaqus_surface_lines :: "nat \<Rightarrow> int \<Rightarrow> abaqus \<Rightarrow> string list \<Rightarrow> error + abaqus" where
  "abaqus_surface_lines dim b_indicator st [] = Inr st"
| "abaqus_surface_lines dim b_indicator st (l # ls) =
     (case abaqus_surface_line dim b_indicator st l of
        Inl e \<Rightarrow> Inl e
      | Inr st1 \<Rightarrow> abaqus_surface_lines dim b_indicator st1 ls)"

definition surface_indicator :: "string \<Rightarrow> error + int" where
  "surface_indicator line =
     (let name_idx_start = size_t (str_find line ''NAME='' 0 + 5);
          found = str_find line '','' name_idx_start;
          name_idx_end = (if found = npos then int (length line) else found)
      in case str_substr line name_idx_start (size_t (name_idx_end - name_idx_start)) of
           Inl e \<Rightarrow> Inl e
         | Inr name \<Rightarrow> Inr (extract_int name))"

text \<open>The name in the header of an \<^verbatim>\<open>*ELSET\<close> section.\<close>

definition elset_header_name :: "string \<Rightarrow> error + string" where
  "elset_header_name line =
     (let idx = str_find line ''*ELSET, ELSET='' 0 in
      if idx \<noteq> npos then
        (let first_comma = str_find line '','' 0;
             second_comma = str_find line '','' (size_t (first_comma + 1));
             elset_name_start = size_t (str_find line ''*ELSET, ELSET='' 0 + 14)
         in str_substr line elset_name_start (size_t (second_comma - elset_name_start)))
      else Inr [])"

definition comma_error :: "char \<Rightarrow> string \<Rightarrow> error" where
  "comma_error comma line =
     ExcMessage (''While reading an ABAQUS file, the reader '' @ ''expected a comma but found a <''
                 @ [comma] @ ''> in the line <'' @ line @ ''>.'')"

text \<open>
  \<^verbatim>\<open>for (int i = elid_start; i <= elid_end; i += elis_step) elements.push_back(i)\<close>. With
  a step that is not positive the loop does not end: \<open>None\<close>.
\<close>

function generate_loop :: "int \<Rightarrow> int \<Rightarrow> int \<Rightarrow> int list option" where
  "generate_loop i elid_end elis_step =
     (if elis_step \<le> 0 then (if i \<le> elid_end then None else Some [])
      else if i \<le> elid_end
      then (case generate_loop (i + elis_step) elid_end elis_step of
              None \<Rightarrow> None
            | Some es \<Rightarrow> Some (i # es))
      else Some [])"
  by pat_completeness auto
termination
  by (relation "measure (\<lambda>(i, elid_end, elis_step). nat (elid_end + 1 - i))") auto

text \<open>The data line of an \<^verbatim>\<open>*ELSET\<close> section with \<^verbatim>\<open>GENERATE\<close>.\<close>

definition elset_generate :: "string \<Rightarrow> (error + int list) option" where
  "elset_generate line =
     (case get_int 0 (istream_of line) of (elid_start, s1) \<Rightarrow>
      case get_nonspace (CHR 0x00) s1 of (comma, s2) \<Rightarrow>
      case get_int 0 s2 of (elid_end, s3) \<Rightarrow>
        if comma \<noteq> CHR '','' then Some (Inl (comma_error comma line))
        else if \<not> elid_start \<le> elid_end
        then Some (Inl (ExcMessage (''While reading an ABAQUS file, the reader encountered ''
                 @ ''a GENERATE statement in which the upper bound <''
                 @ int_to_string elid_end
                 @ ''> for the element numbers is not larger or equal ''
                 @ ''than the lower bound <'' @ int_to_string elid_start @ ''>.'')))
        else (case (if length (buf s3) \<noteq> 0
                    then (case get_nonspace comma s3 of (comma1, s4) \<Rightarrow>
                          case get_int 1 s4 of (elis_step, s5) \<Rightarrow> (comma1, elis_step))
                    else (comma, 1)) of
            (comma1, elis_step) \<Rightarrow>
              if comma1 \<noteq> CHR '','' then Some (Inl (comma_error comma1 line))
              else (case generate_loop elid_start elid_end elis_step of
                      None \<Rightarrow> None
                    | Some es \<Rightarrow> Some (Inr es))))"

text \<open>
  A data line of an \<^verbatim>\<open>*ELSET\<close> section without \<^verbatim>\<open>GENERATE\<close>: the loop
  \<^verbatim>\<open>while (!iss.eof()) { iss >> elid >> comma; ... }\<close>. When the line stream fails before
  its end the loop does not end: \<open>None\<close>. \<open>elid\<close> and \<open>comma\<close> are declared once per line,
  \<open>elements\<close> once per section.
\<close>

partial_function (option) elset_ids ::
  "int \<Rightarrow> char \<Rightarrow> string \<Rightarrow> istream \<Rightarrow> int list \<Rightarrow> (error + int list) option" where
  "elset_ids elid comma line s elements =
     (if eofbit s then Some (Inr elements)
      else (case get_int elid s of (elid1, s1) \<Rightarrow>
            case get_nonspace comma s1 of (comma1, s2) \<Rightarrow>
              if comma1 \<noteq> CHR '','' then Some (Inl (comma_error comma1 line))
              else elset_ids elid1 comma1 line s2 (elements @ [elid1])))"

declare elset_ids.simps [code]

fun elset_lines :: "string list \<Rightarrow> int list \<Rightarrow> (error + int list) option" where
  "elset_lines [] elements = Some (Inr elements)"
| "elset_lines (l # ls) elements =
     (case elset_ids 0 (CHR 0x00) l (istream_of l) elements of
        None \<Rightarrow> None
      | Some (Inl e) \<Rightarrow> Some (Inl e)
      | Some (Inr elements1) \<Rightarrow> elset_lines ls elements1)"

text \<open>
  The \<^verbatim>\<open>*SOLID SECTION\<close> card: the name of the element set, the material id taken from
  the text after the first hyphen that follows \<^verbatim>\<open>MATERIAL=\<close>, and the assignment to the
  cells of the set.
\<close>

definition solid_section_elset :: "string \<Rightarrow> error + string" where
  "solid_section_elset line =
     (let elset_start = size_t (str_find line ''ELSET='' 0 + 6);
          elset_end = str_find line '','' (size_t (elset_start + 1))
      in str_substr line elset_start (size_t (elset_end - elset_start)))"

definition solid_section_material :: "string \<Rightarrow> error + int" where
  "solid_section_material line =
     (let last_equal = size_t (str_find line ''MATERIAL='' 0 + 9);
          material_id_start = str_find line ''-'' last_equal
      in case str_substr line (size_t (material_id_start + 1)) npos of
           Inl e \<Rightarrow> Inl e
         | Inr text \<Rightarrow> Inr (from_string 0 text))"

fun assign_material :: "int \<Rightarrow> int list \<Rightarrow> double list list \<Rightarrow> error + double list list" where
  "assign_material mat_id [] cl = Inr cl"
| "assign_material mat_id (elset_cell # rest) cl =
     (if 0 \<le> elset_cell - 1 \<and> nat (elset_cell - 1) < length cl \<and> cl ! nat (elset_cell - 1) \<noteq> []
      then assign_material mat_id rest
             (cl[nat (elset_cell - 1) := (cl ! nat (elset_cell - 1))[0 := DblInt mat_id]])
      else Inl OutOfBounds)"

definition abaqus_solid_section :: "abaqus \<Rightarrow> string \<Rightarrow> error + abaqus" where
  "abaqus_solid_section st line =
     (case solid_section_elset line of
        Inl e \<Rightarrow> Inl e
      | Inr elset_name \<Rightarrow>
          (case solid_section_material line of
             Inl e \<Rightarrow> Inl e
           | Inr mat_id \<Rightarrow>
               (case map_find (elsets_list st) elset_name of
                  None \<Rightarrow> Inr (st\<lparr>elsets_list := map_set elset_name [] (elsets_list st)\<rparr>)
                | Some elset_cells \<Rightarrow>
                    (case assign_material mat_id elset_cells (cell_list st) of
                       Inl e \<Rightarrow> Inl e
                     | Inr cl \<Rightarrow> Inr (st\<lparr>cell_list := cl\<rparr>)))))"

text \<open>
  The loop over the keyword lines. \<open>abaqus_section\<close> handles the section that \<open>line\<close>
  opens; its result says whether the source jumps back with the line that ended the
  section (\<^verbatim>\<open>goto cont\<close>) or reads the next line of the input. \<open>abaqus_cont\<close> is the code
  from the label \<^verbatim>\<open>cont\<close> on. Both are \<open>None\<close> when the loops of the source do not end.
\<close>

definition material_of_element_header :: "string \<Rightarrow> error + int" where
  "material_of_element_header line =
     (let idx = str_find line ''ELSET=EB'' 0 in
      if idx \<noteq> npos
      then (case str_substr line (size_t (idx + 8)) npos of
              Inl e \<Rightarrow> Inl e
            | Inr text \<Rightarrow> Inr (from_string 0 text))
      else Inr 0)"

definition abaqus_section ::
  "nat \<Rightarrow> nat \<Rightarrow> abaqus \<Rightarrow> string \<Rightarrow> lstream
     \<Rightarrow> (error + (abaqus \<times> string \<times> lstream \<times> bool)) option" where
  "abaqus_section dim spacedim st line0 s =
     (let line = map toupper line0 in
      if line = ''*HEADING'' \<or> take 2 line = ''**'' \<or> take 5 line = ''*PART'' then
        (case read_until_star line s of (ds, l, s1, star) \<Rightarrow> Some (Inr (st, l, s1, star)))
      else if take 5 line = ''*NODE'' then
        (case read_until_star line s of (ds, l, s1, star) \<Rightarrow>
           Some (Inr (st\<lparr>node_list := node_list st @ map (abaqus_node spacedim) ds\<rparr>,
                      l, s1, star)))
      else if take 8 line = ''*ELEMENT'' then
        (case material_of_element_header line of
           Inl e \<Rightarrow> Some (Inl e)
         | Inr material \<Rightarrow>
             (case read_until_star line s of (ds, l, s1, star) \<Rightarrow>
                Some (Inr (st\<lparr>cell_list := cell_list st @ map (abaqus_element dim material) ds\<rparr>,
                           l, s1, star))))
      else if take 8 line = ''*SURFACE'' then
        (case surface_indicator line of
           Inl e \<Rightarrow> Some (Inl e)
         | Inr b_indicator \<Rightarrow>
             (case read_until_star line s of (ds, l, s1, star) \<Rightarrow>
                (case abaqus_surface_lines dim b_indicator st ds of
                   Inl e \<Rightarrow> Some (Inl e)
                 | Inr st1 \<Rightarrow> Some (Inr (st1, l, s1, star)))))
      else if take 6 line = ''*ELSET'' then
        (case elset_header_name line of
           Inl e \<Rightarrow> Some (Inl e)
         | Inr elset_name \<Rightarrow>
             if str_find line ''GENERATE'' 0 \<noteq> npos then
               (case getline_l line s of (l, s1) \<Rightarrow>
                  (case elset_generate l of
                     None \<Rightarrow> None
                   | Some (Inl e) \<Rightarrow> Some (Inl e)
                   | Some (Inr elements) \<Rightarrow>
                       (case getline_l l s1 of (l2, s2) \<Rightarrow>
                          Some (Inr (st\<lparr>elsets_list :=
                                          map_set elset_name elements (elsets_list st)\<rparr>,
                                     l2, s2, True)))))
             else
               (case read_until_star line s of (ds, l, s1, star) \<Rightarrow>
                  (case elset_lines ds [] of
                     None \<Rightarrow> None
                   | Some (Inl e) \<Rightarrow> Some (Inl e)
                   | Some (Inr elements) \<Rightarrow>
                       Some (Inr (st\<lparr>elsets_list :=
                                       map_set elset_name elements (elsets_list st)\<rparr>,
                                  l, s1, True)))))
      else if take 5 line = ''*NSET'' then
        (case read_until_star line s of (ds, l, s1, star) \<Rightarrow> Some (Inr (st, l, s1, star)))
      else if take 14 line = ''*SOLID SECTION'' then
        (case abaqus_solid_section st line of
           Inl e \<Rightarrow> Some (Inl e)
         | Inr st1 \<Rightarrow> Some (Inr (st1, line, s, False)))
      else Some (Inr (st, line, s, False)))"

partial_function (option) abaqus_cont ::
  "nat \<Rightarrow> nat \<Rightarrow> abaqus \<Rightarrow> string \<Rightarrow> lstream \<Rightarrow> (error + abaqus) option" where
  "abaqus_cont dim spacedim st line s =
     (case abaqus_section dim spacedim st line s of
        None \<Rightarrow> None
      | Some (Inl e) \<Rightarrow> Some (Inl e)
      | Some (Inr (st1, l, s1, again)) \<Rightarrow>
          if again then abaqus_cont dim spacedim st1 l s1
          else (case getline_l l s1 of (l2, s2) \<Rightarrow>
            if ls_fail s2 then Some (Inr st1) else abaqus_cont dim spacedim st1 l2 s2))"

declare abaqus_cont.simps [code]

definition read_in_abaqus :: "nat \<Rightarrow> nat \<Rightarrow> lstream \<Rightarrow> (error + abaqus) option" where
  "read_in_abaqus dim spacedim s =
     (if ls_fail s then Some (Inl ExcIO)
      else (case getline_l [] s of (l, s1) \<Rightarrow>
        if ls_fail s1 then Some (Inr new_abaqus) else abaqus_cont dim spacedim new_abaqus l s1))"

subsection \<open>Merging duplicate vertices: \<^verbatim>\<open>GridIn::read_assimp\<close>\<close>

text \<open>
  Modelled from the spec: \<^verbatim>\<open>GridTools::delete_duplicated_vertices\<close> is defined in
  \<^verbatim>\<open>grid/grid_tools.cc\<close>, which is not part of the sources at hand. The spec: "for each
  pass, collapse vertices closer than \<open>tolerance\<close> into one representative, rewrite all
  references, and repeat until vertex count stabilizes (handles chains of >2 coincident
  points)." One pass goes through the vertices to consider in their order; a vertex that
  has not been collapsed into an earlier one becomes the representative of the first
  later vertex that is close to it. So a pass collapses at most one vertex into each
  representative, which is why the readers repeat it. Then every reference is
  rewritten and the vertices without a reference are deleted. The readers pass the
  vertices to consider (none means all of them); \<open>close\<close> is the comparison of two
  points with the tolerance. An index beyond the vertices is left as it is.
\<close>

fun merge_numbers ::
  "(point \<Rightarrow> point \<Rightarrow> bool) \<Rightarrow> point list \<Rightarrow> nat list \<Rightarrow> nat list \<Rightarrow> nat list" where
  "merge_numbers close vertices [] new_vertex_numbers = new_vertex_numbers"
| "merge_numbers close vertices (ci # rest) new_vertex_numbers =
     merge_numbers close vertices rest
       (if new_vertex_numbers ! ci \<noteq> ci then new_vertex_numbers
        else (case find (\<lambda>cj. close (vertices ! cj) (vertices ! ci)) rest of
                None \<Rightarrow> new_vertex_numbers
              | Some cj \<Rightarrow> new_vertex_numbers[cj := ci]))"

definition renumber_with :: "nat list \<Rightarrow> uint \<Rightarrow> uint" where
  "renumber_with new_vertex_numbers v =
     (if 0 \<le> v \<and> nat v < length new_vertex_numbers then int (new_vertex_numbers ! nat v) else v)"

definition delete_duplicated_vertices ::
  "(point \<Rightarrow> point \<Rightarrow> bool) \<Rightarrow> point list \<Rightarrow> CellData list \<Rightarrow> SubCellData \<Rightarrow> nat list
     \<Rightarrow> point list \<times> CellData list \<times> SubCellData" where
  "delete_duplicated_vertices close vertices cells subcelldata considered_vertices =
     (let identity = [0 ..< length vertices];
          considered = (if considered_vertices = [] then identity else considered_vertices);
          new_vertex_numbers = merge_numbers close vertices considered identity
      in delete_unused_vertices vertices
           (map (renumber_cell (renumber_with new_vertex_numbers)) cells)
           \<lparr>boundary_lines =
              map (renumber_cell (renumber_with new_vertex_numbers)) (boundary_lines subcelldata),
            boundary_quads =
              map (renumber_cell (renumber_with new_vertex_numbers)) (boundary_quads subcelldata)\<rparr>)"

text \<open>
  The loop of \<^verbatim>\<open>read_assimp\<close>:
  \<^verbatim>\<open>while (n_verts != vertices.size()) { n_verts = vertices.size(); delete_duplicated_vertices(...); }\<close>
  with \<^verbatim>\<open>n_verts = 0\<close> at the start. A pass never adds a vertex, so the loop ends.
\<close>

function merge_loop ::
  "(point \<Rightarrow> point \<Rightarrow> bool) \<Rightarrow> nat \<Rightarrow> point list \<Rightarrow> CellData list \<Rightarrow> SubCellData
     \<Rightarrow> point list \<times> CellData list \<times> SubCellData" where
  "merge_loop close n_verts vertices cells subcelldata =
     (if n_verts \<noteq> length vertices
      then (case delete_duplicated_vertices close vertices cells subcelldata [] of
              (v1, c1, s1) \<Rightarrow> merge_loop close (length vertices) v1 c1 s1)
      else (vertices, cells, subcelldata))"
  by pat_completeness auto
termination
proof -
  have le: "length (fst (delete_duplicated_vertices close vertices cells subcelldata []))
              \<le> length vertices"
    for close vertices cells subcelldata
  proof -
    have "length (filter P [0 ..< length vertices]) \<le> length vertices" for P
      using length_filter_le [of P "[0 ..< length vertices]"] by simp
    then show ?thesis
      by (simp add: delete_duplicated_vertices_def delete_unused_vertices_def Let_def)
  qed
  show ?thesis
    apply (relation "measure (\<lambda>(close, n_verts, vertices, cells, subcelldata).
         2 * length vertices + (if n_verts \<noteq> length vertices then 1 else 0))")
     apply simp
    subgoal for close n_verts vertices cells subcelldata
      using le [of close vertices cells subcelldata]
      by (cases "delete_duplicated_vertices close vertices cells subcelldata []") auto
    done
qed

text \<open>One pass on a mesh, and the meshes after \<open>k\<close> passes.\<close>

definition merge_pass ::
  "(point \<Rightarrow> point \<Rightarrow> bool) \<Rightarrow> point list \<times> CellData list \<times> SubCellData
     \<Rightarrow> point list \<times> CellData list \<times> SubCellData" where
  "merge_pass close m =
     (case m of (vertices, cells, subcelldata) \<Rightarrow>
        delete_duplicated_vertices close vertices cells subcelldata [])"

definition n_vertices_after ::
  "(point \<Rightarrow> point \<Rightarrow> bool) \<Rightarrow> nat \<Rightarrow> point list \<times> CellData list \<times> SubCellData \<Rightarrow> nat" where
  "n_vertices_after close k m = length (fst ((merge_pass close ^^ k) m))"

text \<open>
  \<^verbatim>\<open>read_assimp\<close> from the point where the meshes of the scene have been copied into
  \<open>vertices\<close> and \<open>cells\<close>. Without a cell the reader returns and the triangulation has
  not been called.
\<close>

definition assimp_finish ::
  "'t collaborators \<Rightarrow> nat \<Rightarrow> nat \<Rightarrow> bool \<Rightarrow> (point \<Rightarrow> point \<Rightarrow> bool) \<Rightarrow> point list
     \<Rightarrow> CellData list \<Rightarrow> 't \<Rightarrow> error option \<times> 't" where
  "assimp_finish col dim spacedim remove_duplicates close vertices cells tria =
     (if length cells = 0 then (None, tria)
      else (case (if remove_duplicates then merge_loop close 0 vertices cells new_SubCellData
                  else (vertices, cells, new_SubCellData)) of
              (v, c, sub) \<Rightarrow>
                (case cleanup col (dim = spacedim) v c sub of
                   Inl e \<Rightarrow> (Some e, tria)
                 | Inr (v1, c1, sub1) \<Rightarrow>
                     if dim = 2 then create_triangulation_compatibility col v1 c1 sub1 tria
                     else create_triangulation col v1 c1 sub1 tria)))"

text \<open>A mesh is valid when every vertex index of a cell or sub-entity names a vertex.\<close>

definition mesh_valid :: "nat \<Rightarrow> CellData list \<Rightarrow> SubCellData \<Rightarrow> bool" where
  "mesh_valid n cells subcelldata =
     list_all (\<lambda>v. 0 \<le> v \<and> v < int n) (used_indices cells subcelldata)"

text \<open>Two points with integer coordinates are close when they differ by less than \<open>tol\<close>.\<close>

definition close_int :: "int \<Rightarrow> point \<Rightarrow> point \<Rightarrow> bool" where
  "close_int tol p q =
     list_all2 (\<lambda>a b. case (a, b) of (DblInt x, DblInt y) \<Rightarrow> \<bar>x - y\<bar> < tol | _ \<Rightarrow> False) p q"

subsection \<open>\<^verbatim>\<open>GridIn<2>::read_tecplot\<close>: the cells\<close>








subsection \<open>A plain triangulation\<close>

text \<open>
  A stand-in for the collaborators, on which the readers can be run: the triangulation
  stores what it is given, the two clean-up steps on cells leave them as they are, a
  face of a 1D cell is a vertex, and it lies on the boundary when exactly one cell has
  it. The general statements below hold for every choice of collaborators; this one
  serves the concrete files.
\<close>

record tria =
  tr_vertices :: "point list"
  tr_cells :: "CellData list"
  tr_subcelldata :: SubCellData
  tr_vertex_boundary_ids :: "(uint \<times> uint) list"

definition empty_tria :: tria where
  "empty_tria = \<lparr>tr_vertices = [], tr_cells = [], tr_subcelldata = new_SubCellData,
                  tr_vertex_boundary_ids = []\<rparr>"

definition tria_create ::
  "point list \<Rightarrow> CellData list \<Rightarrow> SubCellData \<Rightarrow> tria \<Rightarrow> error option \<times> tria" where
  "tria_create v c sub t =
     (None, \<lparr>tr_vertices = v, tr_cells = c, tr_subcelldata = sub, tr_vertex_boundary_ids = []\<rparr>)"

definition tria_vertex_index :: "tria \<Rightarrow> nat \<Rightarrow> nat \<Rightarrow> uint" where
  "tria_vertex_index t cell f = cd_vertices (tr_cells t ! cell) ! f"

definition tria_at_boundary :: "tria \<Rightarrow> nat \<Rightarrow> nat \<Rightarrow> bool" where
  "tria_at_boundary t cell f =
     (length (filter (\<lambda>c. tria_vertex_index t cell f \<in> set (cd_vertices c)) (tr_cells t)) = 1)"

definition tria_set_boundary_id :: "nat \<Rightarrow> nat \<Rightarrow> uint \<Rightarrow> tria \<Rightarrow> tria" where
  "tria_set_boundary_id cell f b t =
     t\<lparr>tr_vertex_boundary_ids := map_set (tria_vertex_index t cell f) b (tr_vertex_boundary_ids t)\<rparr>"

definition plain_collaborators :: "tria collaborators" where
  "plain_collaborators =
     \<lparr>invert_all_cells_of_negative_grid = (\<lambda>v c. Inr c),
      reorder_cells = Inr,
      create_triangulation_compatibility = tria_create,
      create_triangulation = tria_create,
      n_active_cells = (\<lambda>t. length (tr_cells t)),
      vertex_index = tria_vertex_index,
      at_boundary = tria_at_boundary,
      set_boundary_id = tria_set_boundary_id\<rparr>"

subsection \<open>Counting in the Gmsh element section\<close>

definition msh_count :: "msh_elements \<Rightarrow> nat" where
  "msh_count st = length (me_cells st) + length (boundary_lines (me_subcelldata st))
     + length (boundary_quads (me_subcelldata st)) + me_points st"

definition msh_inv :: "nat \<Rightarrow> msh_elements \<Rightarrow> bool" where
  "msh_inv dim st = (msh_count st = me_global_cell st \<and> check_consistency dim (me_subcelldata st))"

subsection \<open>Concrete files\<close>

text \<open>
  Element sections of Gmsh files in format 2.2 for a mesh with the nodes 1 to 4: a
  quadrilateral and a point element; a line and a point element.
\<close>

definition msh_vertex_indices_4 :: "(int \<times> int) list" where
  "msh_vertex_indices_4 = [(1, 0), (2, 1), (3, 2), (4, 3)]"

definition msh_elements_quad_and_point :: string where
  "msh_elements_quad_and_point = ''2 1 3 2 0 0 1 2 3 4 2 15 2 0 0 1 $EndElements''"

definition msh_elements_line_and_point :: string where
  "msh_elements_line_and_point = ''2 1 1 2 0 0 1 2 2 15 2 0 0 1 $EndElements''"

definition ucd_vertex_indices_4 :: "(int \<times> int) list" where
  "ucd_vertex_indices_4 = [(4, 3), (3, 2), (2, 1), (1, 0)]"

text \<open>
  A \<^verbatim>\<open>CELLS\<close> section of a 2D VTK file, a UCD file from its header line on, and the
  containers they give.
\<close>

definition nl :: string where
  "nl = [newline]"

definition vtk_cells_quad_and_line :: string where
  "vtk_cells_quad_and_line = ''2 8'' @ nl @ ''4 0 1 2 3'' @ nl @ ''2 0 1'' @ nl"

definition ucd_square_with_line :: string where
  "ucd_square_with_line =
     ''4 2 0 0 0'' @ nl @ ''1 0 0 0'' @ nl @ ''2 1 0 0'' @ nl @ ''3 1 1 0'' @ nl
     @ ''4 0 1 0'' @ nl @ ''1 7 quad 1 2 3 4'' @ nl @ ''2 5 line 1 2'' @ nl"

definition cell_0123 :: CellData where
  "cell_0123 = \<lparr>cd_vertices = [0, 1, 2, 3], material_id = 0, boundary_id = 0,
                 manifold_id = flat_manifold_id\<rparr>"

definition line_01 :: CellData where
  "line_01 = \<lparr>cd_vertices = [0, 1], material_id = 0, boundary_id = 0,
               manifold_id = flat_manifold_id\<rparr>"

definition msh_quad_and_point_state :: msh_elements where
  "msh_quad_and_point_state =
     \<lparr>me_cells = [cell_0123], me_subcelldata = new_SubCellData, me_boundary_ids_1d = [],
      me_vertex_indices = msh_vertex_indices_4, me_material_id = 0, me_cell_type = 15,
      me_global_cell = 2, me_points = 1,
      me_in = \<lparr>buf = '' $EndElements'', eofbit = False, failbit = False\<rparr>\<rparr>"



definition section_material7 :: string where
  "section_material7 = ''*SOLID SECTION, ELSET=SET-1, MATERIAL=MATERIAL-7''"

definition section_steel :: string where
  "section_steel = ''*SOLID SECTION, ELSET=SET-1, MATERIAL=STEEL-GRADE-12''"

definition abaqus_cell :: "int \<Rightarrow> double list" where
  "abaqus_cell m = [DblInt m, DblInt 1, DblInt 2, DblInt 3, DblInt 4]"

definition abaqus_one_set :: abaqus where
  "abaqus_one_set =
     new_abaqus\<lparr>cell_list := replicate 6 (abaqus_cell 0), elsets_list := [(''SET-1'', [1, 3, 5])]\<rparr>"


definition abaqus_steel_grade :: "string list" where
  "abaqus_steel_grade =
     [''*Heading'', '' six cells'',
      ''*Node'', ''1, 0., 0.'', ''2, 1., 0.'',
      ''*Element, type=S4, elset=EB3'',
      ''1, 1, 2, 3, 4'', ''2, 1, 2, 3, 4'', ''3, 1, 2, 3, 4'',
      ''4, 1, 2, 3, 4'', ''5, 1, 2, 3, 4'', ''6, 1, 2, 3, 4'',
      ''*Elset, elset=Set-1, generate'', '' 1, 5, 2'',
      ''*Solid Section, elset=Set-1, material=Steel-Grade-12'', '','']"



text \<open>
  Three quadrilaterals that meet in the point \<open>(1, 1)\<close>, each with vertices of its own,
  so that the point \<open>(1, 1)\<close> is there three times; and the same mesh with every point
  once.
\<close>

definition pt :: "int \<Rightarrow> int \<Rightarrow> point" where
  "pt x y = [DblInt x, DblInt y]"

definition quad :: "uint list \<Rightarrow> CellData" where
  "quad vs = cell_0123\<lparr>cd_vertices := vs\<rparr>"

definition three_quads_vertices :: "point list" where
  "three_quads_vertices =
     [pt 0 0, pt 1 0, pt 1 1, pt 0 1, pt 1 0, pt 2 0, pt 2 1, pt 1 1, pt 1 1, pt 2 1, pt 2 2, pt 1 2]"

definition three_quads_cells :: "CellData list" where
  "three_quads_cells = [quad [0, 1, 2, 3], quad [4, 5, 6, 7], quad [8, 9, 10, 11]]"

definition three_quads_merged_vertices :: "point list" where
  "three_quads_merged_vertices =
     [pt 0 0, pt 1 0, pt 1 1, pt 0 1, pt 2 0, pt 2 1, pt 2 2, pt 1 2]"

definition three_quads_merged_cells :: "CellData list" where
  "three_quads_merged_cells = [quad [0, 1, 2, 3], quad [1, 4, 5, 2], quad [2, 5, 6, 7]]"



section \<open>Properties\<close>

lemma get_uints_length: "get_uints olds s = (vs, s1) \<Longrightarrow> length vs = length olds"
  by (induction olds arbitrary: s vs) (auto split: prod.splits)


subsection \<open>The VTK \<^verbatim>\<open>CELLS\<close> section\<close>

lemma vtk_object_count:
  assumes "vtk_object dim cells sub s = Inr (cells1, sub1, s1)"
  shows "length cells1 + length (boundary_quads sub1) + length (boundary_lines sub1)
         = Suc (length cells + length (boundary_quads sub) + length (boundary_lines sub))"
  using assms
  by (auto simp: vtk_object_def vtk_object_3d_def vtk_object_2d_def vtk_object_1d_def
           split: if_splits prod.splits)

lemma vtk_cells_loop_count:
  "vtk_cells_loop dim k cells sub s = Inr (cells1, sub1, s1) \<Longrightarrow>
   length cells1 + length (boundary_quads sub1) + length (boundary_lines sub1)
     = k + (length cells + length (boundary_quads sub) + length (boundary_lines sub))"
proof (induction k arbitrary: cells sub s)
  case 0
  then show ?case by simp
next
  case (Suc k)
  from Suc.prems obtain c2 sub2 s2 where
    step: "vtk_object dim cells sub s = Inr (c2, sub2, s2)" and
    rest: "vtk_cells_loop dim k c2 sub2 s2 = Inr (cells1, sub1, s1)"
    by (auto split: sum.splits)
  from Suc.IH [OF rest] vtk_object_count [OF step] show ?case by simp
qed

lemma vtk_cells_loop_append:
  "vtk_cells_loop dim j cells sub s = Inr (cells1, sub1, s1) \<Longrightarrow>
   vtk_cells_loop dim (j + k) cells sub s = vtk_cells_loop dim k cells1 sub1 s1"
  by (induction j arbitrary: cells sub s) (auto split: sum.splits)

lemma vtk_object_3d_hex_late:
  "get_uint 0 s1 = (8, s2) \<Longrightarrow> boundary_quads sub1 \<noteq> [] \<or> boundary_lines sub1 \<noteq> [] \<Longrightarrow>
   vtk_object_3d cells1 sub1 s1 = Inl ExcNotImplemented"
  by (simp add: vtk_object_3d_def)

lemma vtk_object_3d_quad_late:
  "get_uint 0 s1 = (4, s2) \<Longrightarrow> boundary_lines sub1 \<noteq> [] \<Longrightarrow>
   vtk_object_3d cells1 sub1 s1 = Inl ExcNotImplemented"
  by (simp add: vtk_object_3d_def)

lemma vtk_object_2d_quad_late:
  "get_uint 0 s1 = (4, s2) \<Longrightarrow> boundary_lines sub1 \<noteq> [] \<Longrightarrow>
   vtk_object_2d cells1 sub1 s1 = Inl ExcNotImplemented"
  by (simp add: vtk_object_2d_def)

text \<open>
  C6. In the VTK reader, when \<open>j\<close> objects of the \<^verbatim>\<open>CELLS\<close> section have been read and
  the next object is a top-dimension cell while a lower-dimension sub-entity is already
  stored (in 3D a hexahedron after a quad or a line, or a quad after a line; in 2D a
  quad after a line), the section fails with \<^verbatim>\<open>ExcNotImplemented\<close>; the object is not
  accepted.
\<close>

theorem vtk_out_of_order_fails:
  assumes "vtk_cells_loop dim j cells sub s = Inr (cells1, sub1, s1)"
    and "j < n"
    and "get_uint 0 s1 = (type, s2)"
    and "(dim = 3 \<and> type = 8 \<and> (boundary_quads sub1 \<noteq> [] \<or> boundary_lines sub1 \<noteq> []))
         \<or> (dim = 3 \<and> type = 4 \<and> boundary_lines sub1 \<noteq> [])
         \<or> (dim = 2 \<and> type = 4 \<and> boundary_lines sub1 \<noteq> [])"
  shows "vtk_cells_loop dim n cells sub s = Inl ExcNotImplemented"
proof -
  define k where "k = n - Suc j"
  have n: "n = j + Suc k"
    using \<open>j < n\<close> by (simp add: k_def)
  have obj: "vtk_object dim cells1 sub1 s1 = Inl ExcNotImplemented"
  proof -
    consider (hex) "dim = 3" "type = 8" "boundary_quads sub1 \<noteq> [] \<or> boundary_lines sub1 \<noteq> []"
      | (quad3) "dim = 3" "type = 4" "boundary_lines sub1 \<noteq> []"
      | (quad2) "dim = 2" "type = 4" "boundary_lines sub1 \<noteq> []"
      using assms(4) by blast
    then show ?thesis
    proof cases
      case hex
      with assms(3) show ?thesis
        by (simp add: vtk_object_def vtk_object_3d_hex_late)
    next
      case quad3
      with assms(3) show ?thesis
        by (simp add: vtk_object_def vtk_object_3d_quad_late)
    next
      case quad2
      with assms(3) show ?thesis
        by (simp add: vtk_object_def vtk_object_2d_quad_late)
    qed
  qed
  have "vtk_cells_loop dim n cells sub s = vtk_cells_loop dim (Suc k) cells1 sub1 s1"
    unfolding n by (rule vtk_cells_loop_append [OF assms(1)])
  also have "\<dots> = Inl ExcNotImplemented"
    by (simp add: obj)
  finally show ?thesis .
qed

theorem vtk_out_of_order_fails_witness:
  "vtk_cells_loop 3 3 [] new_SubCellData
     (istream_of ''4 0 1 2 3 8 0 1 2 3 4 5 6 7 2 0 1'') = Inl ExcNotImplemented"
proof -
  let ?quad = "\<lparr>cd_vertices = [0, 1, 2, 3], material_id = 0, boundary_id = 0,
                manifold_id = flat_manifold_id\<rparr>"
  let ?sub = "\<lparr>boundary_lines = [], boundary_quads = [?quad]\<rparr>"
  let ?s1 = "\<lparr>buf = '' 8 0 1 2 3 4 5 6 7 2 0 1'', eofbit = False, failbit = False\<rparr>"
  let ?s2 = "\<lparr>buf = '' 0 1 2 3 4 5 6 7 2 0 1'', eofbit = False, failbit = False\<rparr>"
  have a: "vtk_cells_loop 3 1 [] new_SubCellData
             (istream_of ''4 0 1 2 3 8 0 1 2 3 4 5 6 7 2 0 1'') = Inr ([], ?sub, ?s1)"
    by code_simp
  have b: "(1::nat) < 3" by simp
  have c: "get_uint 0 ?s1 = (8, ?s2)" by code_simp
  have d: "((3::nat) = 3 \<and> (8::int) = 8 \<and> (boundary_quads ?sub \<noteq> [] \<or> boundary_lines ?sub \<noteq> []))
         \<or> ((3::nat) = 3 \<and> (8::int) = 4 \<and> boundary_lines ?sub \<noteq> [])
         \<or> ((3::nat) = 2 \<and> (8::int) = 4 \<and> boundary_lines ?sub \<noteq> [])"
    by simp
  show ?thesis by (rule vtk_out_of_order_fails [OF a b c d])
qed

subsection \<open>The Gmsh element section\<close>

lemma msh_element_inv:
  assumes "msh_element debug dim fmt cpe st = Inr st1" and "msh_inv dim st"
  shows "msh_inv dim st1 \<and> me_global_cell st1 = Suc (me_global_cell st)"
proof -
  obtain elm_number cell_type mat_id nod_num s2 where
    h: "msh_element_head dim fmt st = (elm_number, cell_type, mat_id, nod_num, s2)"
    by (metis prod_cases5)
  from assms show ?thesis
    unfolding msh_element_def h
    by (auto simp: msh_inv_def msh_count_def check_consistency_def
             split: if_splits prod.splits sum.splits)
qed

lemma msh_elements_loop_inv:
  "msh_elements_loop debug dim fmt k cpe st = Inr st1 \<Longrightarrow> msh_inv dim st \<Longrightarrow>
   msh_inv dim st1 \<and> me_global_cell st1 = k + me_global_cell st"
proof (induction k arbitrary: cpe st)
  case 0
  then show ?case by simp
next
  case (Suc k)
  from Suc.prems obtain st2 where
    step: "msh_element debug dim fmt cpe st = Inr st2" and
    rest: "msh_elements_loop debug dim fmt k (Suc cpe) st2 = Inr st1"
    by (auto split: sum.splits)
  from msh_element_inv [OF step Suc.prems(2)] Suc.IH [OF rest] show ?case by simp
qed

lemma msh_entity_block_inv:
  assumes "msh_entity_block debug dim fmt tag_maps n_cells st = Inr st1" and "msh_inv dim st"
  shows "msh_inv dim st1
         \<and> (fmt < 40 \<longrightarrow> me_global_cell st1 = nat n_cells + me_global_cell st)"
proof (cases "fmt < 40")
  case True
  with assms have l: "msh_elements_loop debug dim fmt (nat n_cells) 0
          (st\<lparr>me_material_id := 0, me_cell_type := 0\<rparr>) = Inr st1"
    by (simp add: msh_entity_block_def)
  have "msh_inv dim (st\<lparr>me_material_id := 0, me_cell_type := 0\<rparr>)"
    using assms(2) by (simp add: msh_inv_def msh_count_def)
  from msh_elements_loop_inv [OF l this] True show ?thesis by simp
next
  case False
  with assms(1) obtain k st0 where
    l: "msh_elements_loop debug dim fmt k 0 st0 = Inr st1" and
    c: "me_cells st0 = me_cells st" "me_subcelldata st0 = me_subcelldata st"
       "me_points st0 = me_points st" "me_global_cell st0 = me_global_cell st"
    by (auto simp: msh_entity_block_def split: prod.splits)
  have "msh_inv dim st0"
    using assms(2) c by (simp add: msh_inv_def msh_count_def)
  from msh_elements_loop_inv [OF l this] False show ?thesis by simp
qed

lemma msh_blocks_loop_inv:
  "msh_blocks_loop debug dim fmt tag_maps n_cells k st = Inr st1 \<Longrightarrow> msh_inv dim st \<Longrightarrow>
   msh_inv dim st1"
proof (induction k arbitrary: st)
  case 0
  then show ?case by simp
next
  case (Suc k)
  from Suc.prems obtain st2 where
    step: "msh_entity_block debug dim fmt tag_maps n_cells st = Inr st2" and
    rest: "msh_blocks_loop debug dim fmt tag_maps n_cells k st2 = Inr st1"
    by (auto split: sum.splits)
  from msh_entity_block_inv [OF step Suc.prems(2)] Suc.IH [OF rest] show ?case by simp
qed

lemma msh_elements_section_inv:
  assumes "msh_elements_section debug dim fmt tag_maps vi neb s = Inr (n_cells, st)"
  shows "msh_inv dim st"
proof -
  from assms obtain k s1 where
    "msh_blocks_loop debug dim fmt tag_maps n_cells k
       \<lparr>me_cells = [], me_subcelldata = new_SubCellData, me_boundary_ids_1d = [],
        me_vertex_indices = vi, me_material_id = 0, me_cell_type = 0,
        me_global_cell = 0, me_points = 0, me_in = s1\<rparr> = Inr st"
    by (auto simp: msh_elements_section_def split: prod.splits sum.splits if_splits)
  moreover have "msh_inv dim \<lparr>me_cells = [], me_subcelldata = new_SubCellData,
        me_boundary_ids_1d = [], me_vertex_indices = vi, me_material_id = 0, me_cell_type = 0,
        me_global_cell = 0, me_points = 0, me_in = s1\<rparr>"
    by (simp add: msh_inv_def msh_count_def check_consistency_def new_SubCellData_def)
  ultimately show ?thesis by (rule msh_blocks_loop_inv)
qed

lemma sentry_True: "sentry s = (True, s1) \<Longrightarrow> \<not> failbit s1"
  by (auto simp: sentry_def good_def Let_def split: if_splits)

lemma get_string_changed: "get_string old s = (w, s1) \<Longrightarrow> w \<noteq> old \<Longrightarrow> ok s1"
  by (auto simp: get_string_def ok_def Let_def split: prod.splits bool.splits dest: sentry_True)


lemma digits_val_nonneg_aux:
  "\<forall>c \<in> set ds. isdigit c \<Longrightarrow> 0 \<le> a \<Longrightarrow> 0 \<le> foldl (\<lambda>a c. 10 * a + digit_val c) a ds"
proof (induction ds arbitrary: a)
  case Nil
  then show ?case by simp
next
  case (Cons c ds)
  have "0 \<le> digit_val c"
    using Cons.prems(1) by (simp add: isdigit_def digit_val_def)
  with Cons.prems have "0 \<le> 10 * a + digit_val c" by simp
  with Cons show ?case by simp
qed

lemma split_integer_digits:
  "split_integer b = (neg, ds, r) \<Longrightarrow> \<forall>c \<in> set ds. isdigit c"
  by (auto simp: split_integer_def Let_def dest: set_takeWhileD)

lemma get_unsigned_nonneg:
  assumes "0 \<le> old" and "0 \<le> m"
  shows "0 \<le> fst (get_unsigned m old s)"
proof (cases "sentry s")
  case (Pair b s1)
  show ?thesis
  proof (cases b)
    case False
    with Pair assms show ?thesis by (simp add: get_unsigned_def)
  next
    case True
    obtain neg ds r where sp: "split_integer (buf s1) = (neg, ds, r)"
      by (metis prod_cases3)
    have "0 \<le> digits_val ds"
      unfolding digits_val_def
      by (rule digits_val_nonneg_aux [OF split_integer_digits [OF sp]]) simp
    with Pair True sp assms show ?thesis
      by (simp add: get_unsigned_def Let_def)
  qed
qed

lemma get_uint_nonneg: "0 \<le> old \<Longrightarrow> 0 \<le> fst (get_uint old s)"
  by (simp add: get_uint_def get_unsigned_nonneg uint_max_def)

lemma msh_elements_section_count:
  assumes "msh_elements_section debug dim fmt tag_maps vi neb s = Inr (n_cells, st)"
    and "fmt < 40"
  shows "int (msh_count st) = n_cells"
proof -
  obtain n sa where g: "get_uint 0 s = (n, sa)"
    by force
  let ?st0 = "\<lparr>me_cells = [], me_subcelldata = new_SubCellData, me_boundary_ids_1d = [],
        me_vertex_indices = vi, me_material_id = 0, me_cell_type = 0,
        me_global_cell = 0, me_points = 0, me_in = sa\<rparr>"
  from assms g have l: "msh_blocks_loop debug dim fmt tag_maps n (Suc 0) ?st0 = Inr st"
    and n: "n = n_cells"
    by (auto simp: msh_elements_section_def split: sum.splits if_splits)
  have i0: "msh_inv dim ?st0"
    by (simp add: msh_inv_def msh_count_def check_consistency_def new_SubCellData_def)
  from l have b: "msh_entity_block debug dim fmt tag_maps n ?st0 = Inr st"
    by (auto split: sum.splits)
  from msh_entity_block_inv [OF b i0] assms(2)
  have "msh_count st = nat n"
    by (simp add: msh_inv_def)
  moreover have "0 \<le> n"
    using get_uint_nonneg [of 0 s] g by simp
  ultimately show ?thesis using n by simp
qed

lemma vtk_cells_section_count:
  assumes "vtk_cells_section dim s = Inr (n, cells, sub, s1)"
  shows "int (length cells + length (boundary_quads sub) + length (boundary_lines sub)) = n"
proof -
  from assms obtain s2 where
    n: "n = fst (get_uint 0 s)" and
    l: "vtk_cells_loop dim (nat n) [] new_SubCellData s2 = Inr (cells, sub, s1)"
    by (auto simp: vtk_cells_section_def split: prod.splits sum.splits if_splits)
  have "0 \<le> n"
    unfolding n by (rule get_uint_nonneg) simp
  with vtk_cells_loop_count [OF l] show ?thesis
    by (simp add: new_SubCellData_def)
qed


text \<open>
  C9. In the Gmsh reader, when the element section has been read and holds no
  top-dimension cell, \<^verbatim>\<open>read_msh\<close> fails and the triangulation is not touched: no
  empty cell list reaches it. Once the closing marker of the section has been read,
  the failure is \<^verbatim>\<open>ExcGmshNoCellInformation\<close>.
\<close>

theorem msh_no_cells_fails:
  assumes "msh_elements_section debug dim fmt tag_maps vi neb s = Inr (n_cells, st)"
    and "me_cells st = []"
  shows "snd (read_msh_elements col debug dim spacedim fmt tag_maps vertices vi neb line0 s tria)
           = tria
         \<and> fst (read_msh_elements col debug dim spacedim fmt tag_maps vertices vi neb line0 s tria)
           \<noteq> None
         \<and> (line0 \<noteq> msh_end_elements_marker fmt
              \<and> fst (get_string line0 (me_in st)) = msh_end_elements_marker fmt
            \<longrightarrow> fst (read_msh_elements col debug dim spacedim fmt tag_maps vertices vi neb line0 s
                       tria) = Some ExcGmshNoCellInformation)"
proof -
  obtain line s1 where g: "get_string line0 (me_in st) = (line, s1)"
    by force
  have c: "check_consistency dim (me_subcelldata st)"
    using msh_elements_section_inv [OF assms(1)] by (simp add: msh_inv_def)
  have k: "line0 \<noteq> msh_end_elements_marker fmt \<Longrightarrow> line = msh_end_elements_marker fmt \<Longrightarrow> ok s1"
    using get_string_changed [OF g] by simp
  show ?thesis
    using assms g c k by (auto simp: read_msh_elements_def)
qed

theorem msh_no_cells_fails_witness:
  "read_msh_elements plain_collaborators False 2 2 22 [[], [], [], []] [] msh_vertex_indices_4 1
     ''$Elements'' (istream_of msh_elements_line_and_point) empty_tria
   = (Some ExcGmshNoCellInformation, empty_tria)"
proof -
  let ?st = "\<lparr>me_cells = [],
      me_subcelldata = \<lparr>boundary_lines = [\<lparr>cd_vertices = [0, 1], material_id = 0,
         boundary_id = 0, manifold_id = flat_manifold_id\<rparr>], boundary_quads = []\<rparr>,
      me_boundary_ids_1d = [], me_vertex_indices = msh_vertex_indices_4, me_material_id = 0,
      me_cell_type = 15, me_global_cell = 2, me_points = 1,
      me_in = \<lparr>buf = '' $EndElements'', eofbit = False, failbit = False\<rparr>\<rparr>"
  have a: "msh_elements_section False 2 22 [[], [], [], []] msh_vertex_indices_4 1
             (istream_of msh_elements_line_and_point) = Inr (2, ?st)"
    by code_simp
  have b: "me_cells ?st = []"
    by simp
  have c: "''$Elements'' \<noteq> msh_end_elements_marker 22"
    by code_simp
  have d: "fst (get_string ''$Elements'' (me_in ?st)) = msh_end_elements_marker 22"
    by code_simp
  from msh_no_cells_fails [OF a b, of plain_collaborators 2 "[]" "''$Elements''" empty_tria] c d
  show ?thesis
    by (simp add: prod_eq_iff)
qed


subsection \<open>The UCD cell list\<close>

lemma ucd_cell_count:
  assumes "ucd_cell debug dim apply vi cell cells sub s = Inr (cells1, sub1, s1)"
  shows "length cells1 + length (boundary_quads sub1) + length (boundary_lines sub1)
         = Suc (length cells + length (boundary_quads sub) + length (boundary_lines sub))"
  using assms unfolding ucd_cell_def
  by (auto split: if_splits prod.splits sum.splits)

lemma ucd_cells_loop_count:
  "ucd_cells_loop debug dim apply vi k cell cells sub s = Inr (cells1, sub1, s1) \<Longrightarrow>
   length cells1 + length (boundary_quads sub1) + length (boundary_lines sub1)
     = k + (length cells + length (boundary_quads sub) + length (boundary_lines sub))"
proof (induction k arbitrary: cell cells sub s)
  case 0
  then show ?case by simp
next
  case (Suc k)
  from Suc.prems obtain c2 sub2 s2 where
    step: "ucd_cell debug dim apply vi cell cells sub s = Inr (c2, sub2, s2)" and
    rest: "ucd_cells_loop debug dim apply vi k (Suc cell) c2 sub2 s2 = Inr (cells1, sub1, s1)"
    by (auto split: sum.splits)
  from Suc.IH [OF rest] ucd_cell_count [OF step] show ?case by simp
qed

lemma ucd_body_count:
  assumes "ucd_body debug dim spacedim apply s = Inr (n, vertices, cells, sub)"
  shows "int (length cells + length (boundary_quads sub) + length (boundary_lines sub)) = n"
proof -
  obtain nv s1 where g1: "get_uint 0 s = (nv, s1)" by force
  obtain nc s2 where g2: "get_uint 0 s1 = (nc, s2)" by force
  from assms g1 g2 obtain vi s6 s7 where
    n: "n = nc" and
    l: "ucd_cells_loop debug dim apply vi (nat nc) 0 [] new_SubCellData s6 = Inr (cells, sub, s7)"
    by (auto simp: ucd_body_def split: prod.splits sum.splits if_splits)
  have "0 \<le> nc"
    using get_uint_nonneg [of 0 s1] g2 by simp
  with ucd_cells_loop_count [OF l] n show ?thesis
    by (simp add: new_SubCellData_def)
qed

text \<open>An extraction leaves an end piece of the text it started with.\<close>

lemma sentry_suffix: "sentry s = (b, s1) \<Longrightarrow> suffix (buf s1) (buf s)"
  by (auto simp: sentry_def Let_def suffix_dropWhile split: if_splits)

lemma split_integer_suffix: "split_integer b = (neg, ds, r) \<Longrightarrow> suffix r b"
proof -
  assume a: "split_integer b = (neg, ds, r)"
  have "suffix (tl b) b"
    by (rule suffix_tl)
  moreover from a have "suffix r b \<or> suffix r (tl b)"
    by (auto simp: split_integer_def Let_def suffix_dropWhile split: if_splits)
  ultimately show ?thesis
    using suffix_order.trans by blast
qed

lemma get_unsigned_suffix: "get_unsigned m old s = (v, s1) \<Longrightarrow> suffix (buf s1) (buf s)"
proof -
  assume a: "get_unsigned m old s = (v, s1)"
  obtain b s0 where s: "sentry s = (b, s0)" by force
  obtain neg ds r where i: "split_integer (buf s0) = (neg, ds, r)"
    by (cases "split_integer (buf s0)") auto
  from a s i have "buf s1 = buf s0 \<or> buf s1 = r"
    by (cases b) (auto simp: get_unsigned_def Let_def split: if_splits)
  with split_integer_suffix [OF i] sentry_suffix [OF s] show ?thesis
    using suffix_order.trans by auto
qed

lemma get_uint_suffix: "get_uint old s = (v, s1) \<Longrightarrow> suffix (buf s1) (buf s)"
  unfolding get_uint_def by (rule get_unsigned_suffix)

lemma get_int_suffix: "get_int old s = (v, s1) \<Longrightarrow> suffix (buf s1) (buf s)"
proof -
  assume a: "get_int old s = (v, s1)"
  obtain b s0 where s: "sentry s = (b, s0)" by force
  obtain neg ds r where i: "split_integer (buf s0) = (neg, ds, r)"
    by (cases "split_integer (buf s0)") auto
  from a s i have "buf s1 = buf s0 \<or> buf s1 = r"
    by (cases b) (auto simp: get_int_def Let_def split: if_splits)
  with split_integer_suffix [OF i] sentry_suffix [OF s] show ?thesis
    using suffix_order.trans by auto
qed

lemma get_string_suffix: "get_string old s = (v, s1) \<Longrightarrow> suffix (buf s1) (buf s)"
proof -
  assume a: "get_string old s = (v, s1)"
  obtain b s0 where s: "sentry s = (b, s0)" by force
  from a s have "buf s1 = buf s0 \<or> buf s1 = dropWhile (\<lambda>c. \<not> isspace c) (buf s0)"
    by (cases b) (auto simp: get_string_def Let_def)
  with sentry_suffix [OF s] suffix_dropWhile [of "\<lambda>c. \<not> isspace c" "buf s0"] show ?thesis
    using suffix_order.trans by auto
qed

lemma get_uints_suffix: "get_uints olds s = (vs, s1) \<Longrightarrow> suffix (buf s1) (buf s)"
proof (induction olds arbitrary: s vs s1)
  case Nil
  then show ?case by simp
next
  case (Cons old olds)
  obtain v sa where g: "get_uint old s = (v, sa)" by force
  obtain ws sb where h: "get_uints olds sa = (ws, sb)" by force
  from Cons.prems g h have "s1 = sb" by simp
  with Cons.IH [OF h] get_uint_suffix [OF g] show ?case
    using suffix_order.trans by blast
qed

lemma split_double_suffix: "split_double b = (lexeme, r) \<Longrightarrow> suffix r b"
proof -
  assume a: "split_double b = (lexeme, r)"
  obtain neg ds r0 where i: "split_integer b = (neg, ds, r0)"
    by (cases "split_integer b") auto
  define r1 where "r1 = (if r0 \<noteq> [] \<and> hd r0 = CHR ''.'' then dropWhile isdigit (tl r0) else r0)"
  have r1: "suffix r1 r0"
    using suffix_dropWhile [of isdigit "tl r0"] suffix_tl [of r0]
    by (auto simp: r1_def intro: suffix_order.trans)
  obtain ex r2 valid where e: "split_exponent r1 = (ex, r2, valid)"
    by (cases "split_exponent r1") auto
  have r2: "suffix r2 r1"
  proof (cases "r1 \<noteq> [] \<and> (hd r1 = CHR ''e'' \<or> hd r1 = CHR ''E'')")
    case True
    obtain n2 d2 r3 where j: "split_integer (tl r1) = (n2, d2, r3)"
      by (cases "split_integer (tl r1)") auto
    with True e have "r2 = r3" by (simp add: split_exponent_def)
    with split_integer_suffix [OF j] suffix_tl [of r1] show ?thesis
      using suffix_order.trans by blast
  next
    case False
    with e show ?thesis by (auto simp: split_exponent_def)
  qed
  from a i e have "r = r1 \<or> r = r2"
    by (auto simp: split_double_def r1_def Let_def split: if_splits)
  with r1 r2 split_integer_suffix [OF i] show ?thesis
    using suffix_order.trans by blast
qed

lemma get_double_suffix: "get_double old s = (v, s1) \<Longrightarrow> suffix (buf s1) (buf s)"
proof -
  assume a: "get_double old s = (v, s1)"
  obtain b s0 where s: "sentry s = (b, s0)" by force
  obtain lexeme r where i: "split_double (buf s0) = (lexeme, r)" by force
  from a s i have "buf s1 = buf s0 \<or> buf s1 = r"
    by (cases b) (auto simp: get_double_def Let_def split: if_splits)
  with split_double_suffix [OF i] sentry_suffix [OF s] show ?thesis
    using suffix_order.trans by auto
qed

lemma get_doubles_suffix: "get_doubles olds s = (vs, s1) \<Longrightarrow> suffix (buf s1) (buf s)"
proof (induction olds arbitrary: s vs s1)
  case Nil
  then show ?case by simp
next
  case (Cons old olds)
  obtain v sa where g: "get_double old s = (v, sa)" by force
  obtain ws sb where h: "get_doubles olds sa = (ws, sb)" by force
  from Cons.prems g h have "s1 = sb" by simp
  with Cons.IH [OF h] get_double_suffix [OF g] show ?case
    using suffix_order.trans by blast
qed

lemma ucd_vertices_loop_suffix:
  "ucd_vertices_loop spacedim k vertex vertices vi s = Inr (vertices1, vi1, s1) \<Longrightarrow>
   suffix (buf s1) (buf s)"
proof (induction k arbitrary: vertex vertices vi s)
  case 0
  then show ?case by simp
next
  case (Suc k)
  obtain n sa where g: "get_int 0 s = (n, sa)" by force
  obtain x sb where h: "get_doubles [DblInt 0, DblInt 0, DblInt 0] sa = (x, sb)" by force
  from Suc.prems g h have "ucd_vertices_loop spacedim k (Suc vertex)
      (vertices[vertex := take spacedim x]) (map_set n (int vertex) vi) sb = Inr (vertices1, vi1, s1)"
    by (simp split: if_splits)
  from Suc.IH [OF this] get_doubles_suffix [OF h] get_int_suffix [OF g] show ?case
    using suffix_order.trans by blast
qed

lemma ucd_cell_suffix:
  assumes "ucd_cell debug dim app vi cell cells sub s = Inr (cells1, sub1, s1)"
  shows "suffix (buf s1) (buf s)"
proof -
  obtain dummy sa where g1: "get_int 0 s = (dummy, sa)" by force
  obtain mat_id sb where g2: "get_uint 0 sa = (mat_id, sb)" by force
  obtain cell_type sc where g3: "get_string [] sb = (cell_type, sc)" by force
  from assms obtain olds vs where g4: "get_uints olds sc = (vs, s1)"
    by (auto simp: ucd_cell_def g1 g2 g3 split: if_splits prod.splits sum.splits)
  from get_int_suffix [OF g1] get_uint_suffix [OF g2] get_string_suffix [OF g3]
    get_uints_suffix [OF g4] show ?thesis
    using suffix_order.trans by blast
qed


lemma ucd_cell_line:
  assumes c: "ucd_cell debug dim app vi cell cells sub s = Inr (cells1, sub1, s1)"
    and k: "ucd_keyword s = ''line''" and d: "dim = 2 \<or> dim = 3"
  shows "\<exists>e. cells1 = cells \<and> boundary_lines sub1 = boundary_lines sub @ [e]
             \<and> boundary_quads sub1 = boundary_quads sub \<and> ucd_indicators app (ucd_tag s) e"
proof -
  obtain dummy sa where g1: "get_int 0 s = (dummy, sa)" by force
  obtain mat_id sb where g2: "get_uint 0 sa = (mat_id, sb)" by force
  obtain cell_type sc where g3: "get_string [] sb = (cell_type, sc)" by force
  have t: "ucd_tag s = mat_id"
    by (simp add: ucd_tag_def g1 g2)
  have "cell_type = ''line''"
    using k by (simp add: ucd_keyword_def g1 g2 g3)
  with c d show ?thesis
    unfolding t
    by (auto simp: ucd_cell_def g1 g2 g3 ucd_indicators_def split: if_splits prod.splits sum.splits)
qed

lemma ucd_cell_quad:
  assumes c: "ucd_cell debug dim app vi cell cells sub s = Inr (cells1, sub1, s1)"
    and k: "ucd_keyword s = ''quad''" and d: "dim = 3"
  shows "\<exists>e. cells1 = cells \<and> boundary_lines sub1 = boundary_lines sub
             \<and> boundary_quads sub1 = boundary_quads sub @ [e] \<and> ucd_indicators app (ucd_tag s) e"
proof -
  obtain dummy sa where g1: "get_int 0 s = (dummy, sa)" by force
  obtain mat_id sb where g2: "get_uint 0 sa = (mat_id, sb)" by force
  obtain cell_type sc where g3: "get_string [] sb = (cell_type, sc)" by force
  have t: "ucd_tag s = mat_id"
    by (simp add: ucd_tag_def g1 g2)
  have "cell_type = ''quad''"
    using k by (simp add: ucd_keyword_def g1 g2 g3)
  with c d show ?thesis
    unfolding t
    by (auto simp: ucd_cell_def g1 g2 g3 ucd_indicators_def split: if_splits prod.splits sum.splits)
qed

lemma ucd_cell_entry:
  assumes c: "ucd_cell debug dim app vi cell cells sub s = Inr (cells1, sub1, s1)"
  shows "(\<forall>e \<in> set (boundary_lines sub1). e \<in> set (boundary_lines sub)
            \<or> (ucd_keyword s = ''line'' \<and> ucd_indicators app (ucd_tag s) e))
       \<and> (\<forall>e \<in> set (boundary_quads sub1). e \<in> set (boundary_quads sub)
            \<or> (ucd_keyword s = ''quad'' \<and> ucd_indicators app (ucd_tag s) e))"
proof -
  obtain dummy sa where g1: "get_int 0 s = (dummy, sa)" by force
  obtain mat_id sb where g2: "get_uint 0 sa = (mat_id, sb)" by force
  obtain cell_type sc where g3: "get_string [] sb = (cell_type, sc)" by force
  have t: "ucd_tag s = mat_id"
    by (simp add: ucd_tag_def g1 g2)
  have k: "ucd_keyword s = cell_type"
    by (simp add: ucd_keyword_def g1 g2 g3)
  from c show ?thesis
    unfolding t k
    by (auto simp: ucd_cell_def g1 g2 g3 ucd_indicators_def split: if_splits prod.splits sum.splits)
qed

lemma ucd_cells_loop_entries:
  "ucd_cells_loop debug dim app vi k cell cells sub s = Inr (cells1, sub1, s1) \<Longrightarrow>
   (\<forall>e \<in> set (boundary_lines sub1). e \<in> set (boundary_lines sub)
      \<or> (\<exists>s'. suffix (buf s') (buf s) \<and> ucd_keyword s' = ''line''
               \<and> ucd_indicators app (ucd_tag s') e))
   \<and> (\<forall>e \<in> set (boundary_quads sub1). e \<in> set (boundary_quads sub)
      \<or> (\<exists>s'. suffix (buf s') (buf s) \<and> ucd_keyword s' = ''quad''
               \<and> ucd_indicators app (ucd_tag s') e))"
proof (induction k arbitrary: cell cells sub s)
  case 0
  then show ?case by simp
next
  case (Suc k)
  from Suc.prems obtain c2 sub2 s2 where
    step: "ucd_cell debug dim app vi cell cells sub s = Inr (c2, sub2, s2)" and
    rest: "ucd_cells_loop debug dim app vi k (Suc cell) c2 sub2 s2 = Inr (cells1, sub1, s1)"
    by (auto split: sum.splits)
  note e = ucd_cell_entry [OF step]
  note sf = ucd_cell_suffix [OF step]
  note ih = Suc.IH [OF rest]
  have here: "suffix (buf s) (buf s)" by simp
  show ?case
  proof (intro conjI ballI)
    fix x assume "x \<in> set (boundary_lines sub1)"
    with ih have "x \<in> set (boundary_lines sub2)
      \<or> (\<exists>s'. suffix (buf s') (buf s2) \<and> ucd_keyword s' = ''line''
               \<and> ucd_indicators app (ucd_tag s') x)"
      by blast
    then show "x \<in> set (boundary_lines sub)
      \<or> (\<exists>s'. suffix (buf s') (buf s) \<and> ucd_keyword s' = ''line''
               \<and> ucd_indicators app (ucd_tag s') x)"
    proof
      assume "x \<in> set (boundary_lines sub2)"
      with e here show ?thesis by blast
    next
      assume "\<exists>s'. suffix (buf s') (buf s2) \<and> ucd_keyword s' = ''line''
               \<and> ucd_indicators app (ucd_tag s') x"
      with sf show ?thesis
        using suffix_order.trans by blast
    qed
  next
    fix x assume "x \<in> set (boundary_quads sub1)"
    with ih have "x \<in> set (boundary_quads sub2)
      \<or> (\<exists>s'. suffix (buf s') (buf s2) \<and> ucd_keyword s' = ''quad''
               \<and> ucd_indicators app (ucd_tag s') x)"
      by blast
    then show "x \<in> set (boundary_quads sub)
      \<or> (\<exists>s'. suffix (buf s') (buf s) \<and> ucd_keyword s' = ''quad''
               \<and> ucd_indicators app (ucd_tag s') x)"
    proof
      assume "x \<in> set (boundary_quads sub2)"
      with e here show ?thesis by blast
    next
      assume "\<exists>s'. suffix (buf s') (buf s2) \<and> ucd_keyword s' = ''quad''
               \<and> ucd_indicators app (ucd_tag s') x"
      with sf show ?thesis
        using suffix_order.trans by blast
    qed
  qed
qed

lemma ucd_body_entries:
  assumes "ucd_body debug dim spacedim app s = Inr (n, vertices, cells, sub)"
  shows "(\<forall>e \<in> set (boundary_lines sub).
            \<exists>s'. suffix (buf s') (buf s) \<and> ucd_keyword s' = ''line''
                  \<and> ucd_indicators app (ucd_tag s') e)
       \<and> (\<forall>e \<in> set (boundary_quads sub).
            \<exists>s'. suffix (buf s') (buf s) \<and> ucd_keyword s' = ''quad''
                  \<and> ucd_indicators app (ucd_tag s') e)"
proof -
  obtain nv s1 where g1: "get_uint 0 s = (nv, s1)" by force
  obtain nc s2 where g2: "get_uint 0 s1 = (nc, s2)" by force
  obtain d3 s3 where g3: "get_int 0 s2 = (d3, s3)" by force
  obtain d4 s4 where g4: "get_int d3 s3 = (d4, s4)" by force
  obtain d5 s5 where g5: "get_int d4 s4 = (d5, s5)" by force
  from assms g1 g2 g3 g4 g5 obtain vs vi s6 s7 where
    v: "ucd_vertices_loop spacedim (nat nv) 0
          (replicate (nat nv) (replicate spacedim (DblInt 0))) [] s5 = Inr (vs, vi, s6)" and
    l: "ucd_cells_loop debug dim app vi (nat nc) 0 [] new_SubCellData s6 = Inr (cells, sub, s7)"
    by (auto simp: ucd_body_def split: prod.splits sum.splits if_splits)
  have "suffix (buf s6) (buf s)"
    using get_uint_suffix [OF g1] get_uint_suffix [OF g2] get_int_suffix [OF g3]
      get_int_suffix [OF g4] get_int_suffix [OF g5] ucd_vertices_loop_suffix [OF v]
      suffix_order.trans by blast
  with ucd_cells_loop_entries [OF l] show ?thesis
    unfolding new_SubCellData_def
    using suffix_order.trans by (simp, blast)
qed

text \<open>
  C3. In the UCD reader an entry of the cell list with the keyword \<open>line\<close> (in 2D and 3D)
  appends exactly one boundary line, and one with the keyword \<open>quad\<close> (in 3D) appends
  exactly one boundary quad; the cells and the other sub-entities stay as they are. When
  \<^verbatim>\<open>apply_all_indicators_to_manifolds\<close> is false, the new sub-entity has the tag of the
  entry as boundary id and the flat-manifold marker as manifold id; when the flag is
  true, it has the internal-face marker as boundary id and the tag as manifold id. For
  a whole file: every boundary line and every boundary quad of the parsed mesh carries
  in this way the tag of a \<open>line\<close> or \<open>quad\<close> entry that stands in the text of the file.
\<close>

theorem ucd_boundary_indicators:
  "(ucd_cell debug dim app vi cell cells sub s = Inr (cells1, sub1, s1)
      \<and> ucd_keyword s = ''line'' \<and> (dim = 2 \<or> dim = 3) \<longrightarrow>
      (\<exists>e. cells1 = cells \<and> boundary_lines sub1 = boundary_lines sub @ [e]
            \<and> boundary_quads sub1 = boundary_quads sub \<and> ucd_indicators app (ucd_tag s) e))
   \<and> (ucd_cell debug dim app vi cell cells sub s = Inr (cells1, sub1, s1)
      \<and> ucd_keyword s = ''quad'' \<and> dim = 3 \<longrightarrow>
      (\<exists>e. cells1 = cells \<and> boundary_lines sub1 = boundary_lines sub
            \<and> boundary_quads sub1 = boundary_quads sub @ [e] \<and> ucd_indicators app (ucd_tag s) e))
   \<and> (ucd_body debug dim spacedim app input = Inr (n, vertices, mesh_cells, mesh_sub) \<longrightarrow>
      (\<forall>e \<in> set (boundary_lines mesh_sub).
          \<exists>s'. suffix (buf s') (buf input) \<and> ucd_keyword s' = ''line''
               \<and> ucd_indicators app (ucd_tag s') e)
      \<and> (\<forall>e \<in> set (boundary_quads mesh_sub).
          \<exists>s'. suffix (buf s') (buf input) \<and> ucd_keyword s' = ''quad''
               \<and> ucd_indicators app (ucd_tag s') e))"
proof (intro conjI impI)
  assume "ucd_cell debug dim app vi cell cells sub s = Inr (cells1, sub1, s1)
      \<and> ucd_keyword s = ''line'' \<and> (dim = 2 \<or> dim = 3)"
  then have "ucd_cell debug dim app vi cell cells sub s = Inr (cells1, sub1, s1)"
    and "ucd_keyword s = ''line''" and "dim = 2 \<or> dim = 3"
    by (rule conjunct1, rule conjunct2 [THEN conjunct1], rule conjunct2 [THEN conjunct2])
  then show "\<exists>e. cells1 = cells \<and> boundary_lines sub1 = boundary_lines sub @ [e]
            \<and> boundary_quads sub1 = boundary_quads sub \<and> ucd_indicators app (ucd_tag s) e"
    by (rule ucd_cell_line)
next
  assume "ucd_cell debug dim app vi cell cells sub s = Inr (cells1, sub1, s1)
      \<and> ucd_keyword s = ''quad'' \<and> dim = 3"
  then have "ucd_cell debug dim app vi cell cells sub s = Inr (cells1, sub1, s1)"
    and "ucd_keyword s = ''quad''" and "dim = 3"
    by (rule conjunct1, rule conjunct2 [THEN conjunct1], rule conjunct2 [THEN conjunct2])
  then show "\<exists>e. cells1 = cells \<and> boundary_lines sub1 = boundary_lines sub
            \<and> boundary_quads sub1 = boundary_quads sub @ [e] \<and> ucd_indicators app (ucd_tag s) e"
    by (rule ucd_cell_quad)
next
  assume "ucd_body debug dim spacedim app input = Inr (n, vertices, mesh_cells, mesh_sub)"
  from ucd_body_entries [OF this]
  show "\<forall>e \<in> set (boundary_lines mesh_sub).
          \<exists>s'. suffix (buf s') (buf input) \<and> ucd_keyword s' = ''line''
               \<and> ucd_indicators app (ucd_tag s') e"
    by (rule conjunct1)
next
  assume "ucd_body debug dim spacedim app input = Inr (n, vertices, mesh_cells, mesh_sub)"
  from ucd_body_entries [OF this]
  show "\<forall>e \<in> set (boundary_quads mesh_sub).
          \<exists>s'. suffix (buf s') (buf input) \<and> ucd_keyword s' = ''quad''
               \<and> ucd_indicators app (ucd_tag s') e"
    by (rule conjunct2)
qed

theorem ucd_boundary_indicators_witness:
  "(\<exists>e. ucd_cell False 2 False ucd_vertex_indices_4 1 [] new_SubCellData
            (istream_of ''2 5 line 1 2'')
          = Inr ([], \<lparr>boundary_lines = [e], boundary_quads = []\<rparr>,
                 \<lparr>buf = [], eofbit = True, failbit = False\<rparr>)
        \<and> boundary_id e = 5 \<and> manifold_id e = flat_manifold_id)
   \<and> (\<exists>e. ucd_cell False 3 True ucd_vertex_indices_4 1 [] new_SubCellData
            (istream_of ''2 5 quad 1 2 3 4'')
          = Inr ([], \<lparr>boundary_lines = [], boundary_quads = [e]\<rparr>,
                 \<lparr>buf = [], eofbit = True, failbit = False\<rparr>)
        \<and> boundary_id e = internal_face_boundary_id \<and> manifold_id e = 5)
   \<and> (\<exists>vertices cells e s'.
         ucd_body False 2 2 False (istream_of ucd_square_with_line)
           = Inr (2, vertices, cells, \<lparr>boundary_lines = [e], boundary_quads = []\<rparr>)
         \<and> suffix (buf s') ucd_square_with_line \<and> ucd_keyword s' = ''line''
         \<and> boundary_id e = ucd_tag s' \<and> manifold_id e = flat_manifold_id)"
proof -
  let ?l = "istream_of ''2 5 line 1 2''"
  let ?q = "istream_of ''2 5 quad 1 2 3 4''"
  let ?s1 = "\<lparr>buf = [], eofbit = True, failbit = False\<rparr>"
  let ?e = "\<lparr>cd_vertices = [0, 1], material_id = 0, boundary_id = 5,
             manifold_id = flat_manifold_id\<rparr>"
  let ?f = "\<lparr>cd_vertices = [0, 1, 2, 3], material_id = 0,
             boundary_id = internal_face_boundary_id, manifold_id = 5\<rparr>"
  let ?vs = "[[Dbl ''0'', Dbl ''0''], [Dbl ''1'', Dbl ''0''],
              [Dbl ''1'', Dbl ''1''], [Dbl ''0'', Dbl ''1'']]"
  have a: "ucd_cell False 2 False ucd_vertex_indices_4 1 [] new_SubCellData ?l
           = Inr ([], \<lparr>boundary_lines = [?e], boundary_quads = []\<rparr>, ?s1)"
    by code_simp
  have ak: "ucd_keyword ?l = ''line''"
    by code_simp
  have at: "ucd_tag ?l = 5"
    by code_simp
  have b: "ucd_cell False 3 True ucd_vertex_indices_4 1 [] new_SubCellData ?q
           = Inr ([], \<lparr>boundary_lines = [], boundary_quads = [?f]\<rparr>, ?s1)"
    by code_simp
  have bk: "ucd_keyword ?q = ''quad''"
    by code_simp
  have bt: "ucd_tag ?q = 5"
    by code_simp
  have c: "ucd_body False 2 2 False (istream_of ucd_square_with_line)
           = Inr (2, ?vs, [cell_0123\<lparr>material_id := 7\<rparr>],
                  \<lparr>boundary_lines = [line_01\<lparr>boundary_id := 5\<rparr>], boundary_quads = []\<rparr>)"
    by code_simp
  from ucd_boundary_indicators [where debug = False and dim = 2 and app = False
      and vi = ucd_vertex_indices_4 and cell = 1 and cells = "[]" and sub = new_SubCellData
      and s = ?l and ?cells1.0 = "[]"
      and ?sub1.0 = "\<lparr>boundary_lines = [?e], boundary_quads = []\<rparr>" and ?s1.0 = ?s1] a ak
  have "\<exists>e. [?e] = boundary_lines new_SubCellData @ [e] \<and> ucd_indicators False (ucd_tag ?l) e"
    by simp
  then have 1: "boundary_id ?e = 5 \<and> manifold_id ?e = flat_manifold_id"
    unfolding at by (simp add: new_SubCellData_def ucd_indicators_def)
  from ucd_boundary_indicators [where debug = False and dim = 3 and app = True
      and vi = ucd_vertex_indices_4 and cell = 1 and cells = "[]" and sub = new_SubCellData
      and s = ?q and ?cells1.0 = "[]"
      and ?sub1.0 = "\<lparr>boundary_lines = [], boundary_quads = [?f]\<rparr>" and ?s1.0 = ?s1] b bk
  have "\<exists>e. [?f] = boundary_quads new_SubCellData @ [e] \<and> ucd_indicators True (ucd_tag ?q) e"
    by simp
  then have 2: "boundary_id ?f = internal_face_boundary_id \<and> manifold_id ?f = 5"
    unfolding bt by (simp add: new_SubCellData_def ucd_indicators_def)
  from ucd_boundary_indicators [where debug = False and dim = 2 and spacedim = 2
      and app = False and input = "istream_of ucd_square_with_line" and n = 2 and vertices = ?vs
      and mesh_cells = "[cell_0123\<lparr>material_id := 7\<rparr>]"
      and mesh_sub = "\<lparr>boundary_lines = [line_01\<lparr>boundary_id := 5\<rparr>], boundary_quads = []\<rparr>",
      THEN conjunct2, THEN conjunct2, THEN mp, OF c, THEN conjunct1]
  obtain s' where 3: "suffix (buf s') ucd_square_with_line" "ucd_keyword s' = ''line''"
    "ucd_indicators False (ucd_tag s') (line_01\<lparr>boundary_id := 5\<rparr>)"
    by (auto simp: istream_of_def)
  from 3(3) have 4: "boundary_id (line_01\<lparr>boundary_id := 5\<rparr>) = ucd_tag s'
      \<and> manifold_id (line_01\<lparr>boundary_id := 5\<rparr>) = flat_manifold_id"
    by (simp add: ucd_indicators_def)
  have w1: "\<exists>e. ucd_cell False 2 False ucd_vertex_indices_4 1 [] new_SubCellData ?l
          = Inr ([], \<lparr>boundary_lines = [e], boundary_quads = []\<rparr>, ?s1)
        \<and> boundary_id e = 5 \<and> manifold_id e = flat_manifold_id"
    using a 1 by (intro exI [of _ ?e]) simp
  have w2: "\<exists>e. ucd_cell False 3 True ucd_vertex_indices_4 1 [] new_SubCellData ?q
          = Inr ([], \<lparr>boundary_lines = [], boundary_quads = [e]\<rparr>, ?s1)
        \<and> boundary_id e = internal_face_boundary_id \<and> manifold_id e = 5"
    using b 2 by (intro exI [of _ ?f]) simp
  have w3: "\<exists>vertices cells e s'.
         ucd_body False 2 2 False (istream_of ucd_square_with_line)
           = Inr (2, vertices, cells, \<lparr>boundary_lines = [e], boundary_quads = []\<rparr>)
         \<and> suffix (buf s') ucd_square_with_line \<and> ucd_keyword s' = ''line''
         \<and> boundary_id e = ucd_tag s' \<and> manifold_id e = flat_manifold_id"
    using c 3(1,2) 4
    by (intro exI [of _ ?vs] exI [of _ "[cell_0123\<lparr>material_id := 7\<rparr>]"]
        exI [of _ "line_01\<lparr>boundary_id := 5\<rparr>"] exI [of _ s']) simp
  from w1 w2 w3 show ?thesis by (intro conjI)
qed

subsection \<open>Declared and parsed numbers of objects\<close>

text \<open>
  C2 (as amended). After a successful parse the number of cells plus boundary lines and
  quads equals the declared number for the VTK \<^verbatim>\<open>CELLS\<close> section and for the UCD cell
  list. For the Gmsh element section (formats 1 and 2) the declared number equals the
  cells, lines and quads plus the point elements (type 15), which are stored neither
  as cells nor as sub-entities.
\<close>

theorem declared_counts:
  "(vtk_cells_section dim s = Inr (n, cells, sub, s1) \<longrightarrow>
      int (length cells + length (boundary_quads sub) + length (boundary_lines sub)) = n)
   \<and> (ucd_body debug dim spacedim app s = Inr (n, vertices, cells, sub) \<longrightarrow>
      int (length cells + length (boundary_quads sub) + length (boundary_lines sub)) = n)
   \<and> (fmt < 40 \<and> msh_elements_section debug dim fmt tag_maps vi neb s = Inr (n, st) \<longrightarrow>
      int (length (me_cells st) + length (boundary_quads (me_subcelldata st))
           + length (boundary_lines (me_subcelldata st))) + int (me_points st) = n)"
  using vtk_cells_section_count [of dim s n cells sub s1]
    ucd_body_count [of debug dim spacedim app s n vertices cells sub]
    msh_elements_section_count [of debug dim fmt tag_maps vi neb s n st]
  by (auto simp: msh_count_def)

theorem declared_counts_witness:
  "int (length [cell_0123] + length ([] :: CellData list) + length [line_01]) = 2
   \<and> int (length [cell_0123\<lparr>material_id := 7\<rparr>] + length ([] :: CellData list)
          + length [line_01\<lparr>boundary_id := 5\<rparr>]) = 2
   \<and> int (length (me_cells msh_quad_and_point_state)
          + length (boundary_quads (me_subcelldata msh_quad_and_point_state))
          + length (boundary_lines (me_subcelldata msh_quad_and_point_state)))
       + int (me_points msh_quad_and_point_state) = 2"
proof -
  have a: "vtk_cells_section 2 (istream_of vtk_cells_quad_and_line)
           = Inr (2, [cell_0123], \<lparr>boundary_lines = [line_01], boundary_quads = []\<rparr>,
                  \<lparr>buf = nl, eofbit = False, failbit = False\<rparr>)"
    by code_simp
  have b: "ucd_body False 2 2 False (istream_of ucd_square_with_line)
           = Inr (2, [[Dbl ''0'', Dbl ''0''], [Dbl ''1'', Dbl ''0''], [Dbl ''1'', Dbl ''1''], [Dbl ''0'', Dbl ''1'']],
                  [cell_0123\<lparr>material_id := 7\<rparr>],
                  \<lparr>boundary_lines = [line_01\<lparr>boundary_id := 5\<rparr>], boundary_quads = []\<rparr>)"
    by code_simp
  have c: "(22::nat) < 40 \<and>
           msh_elements_section False 2 22 [[], [], [], []] msh_vertex_indices_4 1
             (istream_of msh_elements_quad_and_point) = Inr (2, msh_quad_and_point_state)"
    by code_simp
  from declared_counts [where dim = 2 and s = "istream_of vtk_cells_quad_and_line" and n = 2
      and cells = "[cell_0123]"
      and sub = "\<lparr>boundary_lines = [line_01], boundary_quads = []\<rparr>"
      and ?s1.0 = "\<lparr>buf = nl, eofbit = False, failbit = False\<rparr>"] a
  have 1: "int (length [cell_0123] + length ([] :: CellData list) + length [line_01]) = 2"
    by simp
  from declared_counts [where debug = False and dim = 2 and spacedim = 2 and app = False
      and s = "istream_of ucd_square_with_line" and n = 2
      and vertices = "[[Dbl ''0'', Dbl ''0''], [Dbl ''1'', Dbl ''0''], [Dbl ''1'', Dbl ''1''], [Dbl ''0'', Dbl ''1'']]"
      and cells = "[cell_0123\<lparr>material_id := 7\<rparr>]"
      and sub = "\<lparr>boundary_lines = [line_01\<lparr>boundary_id := 5\<rparr>], boundary_quads = []\<rparr>"] b
  have 2: "int (length [cell_0123\<lparr>material_id := 7\<rparr>] + length ([] :: CellData list)
          + length [line_01\<lparr>boundary_id := 5\<rparr>]) = 2"
    by simp
  from declared_counts [where fmt = 22 and debug = False and dim = 2
      and tag_maps = "[[], [], [], []]" and vi = msh_vertex_indices_4 and neb = 1
      and s = "istream_of msh_elements_quad_and_point" and n = 2
      and st = msh_quad_and_point_state] c
  have 3: "int (length (me_cells msh_quad_and_point_state)
          + length (boundary_quads (me_subcelldata msh_quad_and_point_state))
          + length (boundary_lines (me_subcelldata msh_quad_and_point_state)))
       + int (me_points msh_quad_and_point_state) = 2"
    by simp
  from 1 2 3 show ?thesis by simp
qed

text \<open>
  A Gmsh element section that declares two elements, a quadrilateral and a point: the
  parse gives one cell and no sub-entity.
\<close>

theorem msh_point_element_counterexample:
  "msh_elements_section False 2 22 [[], [], [], []] msh_vertex_indices_4 1
     (istream_of msh_elements_quad_and_point) = Inr (2, msh_quad_and_point_state)
   \<and> int (length (me_cells msh_quad_and_point_state)
          + length (boundary_lines (me_subcelldata msh_quad_and_point_state))
          + length (boundary_quads (me_subcelldata msh_quad_and_point_state))) \<noteq> 2"
  by code_simp


text \<open>
  C7. In the 3D XDA reader the cell stored for a file line with the node numbers
  \<open>x0 .. x7\<close> has the vertex array \<open>(x0, x1, x5, x4, x3, x2, x6, x7)\<close>: entry \<open>i\<close> is
  \<open>x[m[i]]\<close> for the table \<open>m = {0, 1, 5, 4, 3, 2, 6, 7}\<close>.
\<close>

theorem xda_hex_remap:
  assumes "get_uints (replicate 8 0) s = (x, s1)"
  shows "cd_vertices (fst (xda_read_cell s)) = [x ! 0, x ! 1, x ! 5, x ! 4, x ! 3, x ! 2, x ! 6, x ! 7]
         \<and> xda_to_dealII_map = [0, 1, 5, 4, 3, 2, 6, 7]
         \<and> (\<forall>i < 8. cd_vertices (fst (xda_read_cell s)) ! i = x ! (xda_to_dealII_map ! i))"
proof -
  have v: "cd_vertices (fst (xda_read_cell s)) = map (\<lambda>i. x ! i) xda_to_dealII_map"
    using assms by (simp add: xda_read_cell_def)
  have m: "xda_to_dealII_map = [0, 1, 5, 4, 3, 2, 6, 7]"
    by (simp add: xda_to_dealII_map_def)
  have len: "length xda_to_dealII_map = 8"
    by (simp add: xda_to_dealII_map_def)
  have "\<forall>i < 8. map (\<lambda>i. x ! i) xda_to_dealII_map ! i = x ! (xda_to_dealII_map ! i)"
    by (simp add: len)
  moreover have "map (\<lambda>i. x ! i) xda_to_dealII_map
      = [x ! 0, x ! 1, x ! 5, x ! 4, x ! 3, x ! 2, x ! 6, x ! 7]"
    by (simp add: m)
  ultimately show ?thesis using v m by simp
qed

theorem xda_hex_remap_witness:
  "cd_vertices (fst (xda_read_cell (istream_of ''10 11 12 13 14 15 16 17'')))
     = [10, 11, 15, 14, 13, 12, 16, 17]"
proof -
  have e: "get_uints (replicate 8 0) (istream_of ''10 11 12 13 14 15 16 17'')
      = ([10, 11, 12, 13, 14, 15, 16, 17], \<lparr>buf = [], eofbit = True, failbit = False\<rparr>)"
    by code_simp
  from xda_hex_remap [OF e] show ?thesis by simp
qed

subsection \<open>The ABAQUS bridge\<close>


lemma assign_material_result:
  "assign_material m cells cl = Inr cl1 \<Longrightarrow>
   length cl1 = length cl
   \<and> (\<forall>i < length cl. cl1 ! i = (if i \<in> (\<lambda>c. nat (c - 1)) ` set cells
                                   then (cl ! i)[0 := DblInt m] else cl ! i))"
proof (induction cells arbitrary: cl)
  case Nil
  then show ?case by simp
next
  case (Cons c cells)
  let ?cl = "cl[nat (c - 1) := (cl ! nat (c - 1))[0 := DblInt m]]"
  from Cons.prems have ok: "nat (c - 1) < length cl"
    and rest: "assign_material m cells ?cl = Inr cl1"
    by (auto split: if_splits)
  from Cons.IH [OF rest] have len: "length cl1 = length cl"
    and el: "\<forall>i < length cl. cl1 ! i = (if i \<in> (\<lambda>c. nat (c - 1)) ` set cells
                                   then (?cl ! i)[0 := DblInt m] else ?cl ! i)"
    by simp_all
  show ?case
  proof (intro conjI allI impI)
    show "length cl1 = length cl" by (rule len)
  next
    fix i assume i: "i < length cl"
    show "cl1 ! i = (if i \<in> (\<lambda>c. nat (c - 1)) ` set (c # cells)
                     then (cl ! i)[0 := DblInt m] else cl ! i)"
    proof (cases "i = nat (c - 1)")
      case True
      with el i ok show ?thesis by simp
    next
      case False
      with el i show ?thesis by simp
    qed
  qed
qed

lemma assign_material_defined:
  "\<forall>c \<in> set cells. 1 \<le> c \<and> c \<le> int (length cl) \<Longrightarrow> [] \<notin> set cl \<Longrightarrow>
   \<exists>cl1. assign_material m cells cl = Inr cl1"
proof (induction cells arbitrary: cl)
  case Nil
  then show ?case by simp
next
  case (Cons c cells)
  let ?cl = "cl[nat (c - 1) := (cl ! nat (c - 1))[0 := DblInt m]]"
  from Cons.prems have c: "0 \<le> c - 1" "nat (c - 1) < length cl"
    by auto
  with Cons.prems(2) have ne: "cl ! nat (c - 1) \<noteq> []"
    by (metis nth_mem)
  have "[] \<notin> set ?cl"
  proof
    assume "[] \<in> set ?cl"
    then have "[] \<in> insert ((cl ! nat (c - 1))[0 := DblInt m]) (set cl)"
      using set_update_subset_insert by fastforce
    with Cons.prems(2) ne show False
      by (metis insert_iff length_list_update length_0_conv)
  qed
  moreover have "\<forall>c \<in> set cells. 1 \<le> c \<and> c \<le> int (length ?cl)"
    using Cons.prems(1) by simp
  ultimately obtain cl1 where "assign_material m cells ?cl = Inr cl1"
    using Cons.IH by blast
  with c ne show ?case by simp
qed

lemma abaqus_solid_section_result:
  assumes elset: "solid_section_elset line = Inr elset_name"
    and material: "solid_section_material line = Inr m"
    and cells: "map_find (elsets_list st) elset_name = Some elset_cells"
    and range: "\<forall>c \<in> set elset_cells. 1 \<le> c \<and> c \<le> int (length (cell_list st))"
    and nonempty: "[] \<notin> set (cell_list st)"
  shows "\<exists>st1. abaqus_solid_section st line = Inr st1
           \<and> length (cell_list st1) = length (cell_list st)
           \<and> (\<forall>i < length (cell_list st).
                 cell_list st1 ! i =
                   (if i \<in> (\<lambda>c. nat (c - 1)) ` set elset_cells
                    then (cell_list st ! i)[0 := DblInt m]
                    else cell_list st ! i))"
proof -
  obtain cl1 where a: "assign_material m elset_cells (cell_list st) = Inr cl1"
    using assign_material_defined [OF range nonempty] by blast
  have "abaqus_solid_section st line = Inr (st\<lparr>cell_list := cl1\<rparr>)"
    by (simp add: abaqus_solid_section_def elset material cells a)
  with assign_material_result [OF a] show ?thesis by simp
qed

lemma str_find_aux_first:
  "c \<notin> set name \<Longrightarrow> str_find_aux [c] (name @ c # rest) i = i + int (length name)"
  by (induction name arbitrary: i) auto

lemma solid_section_material_first_hyphen:
  assumes line: "line = pre @ ''MATERIAL='' @ name @ ''-'' @ rest"
    and first: "str_find line ''MATERIAL='' 0 = int (length pre)"
    and name: "CHR ''-'' \<notin> set name"
    and len: "int (length line) < 18446744073709551616"
  shows "solid_section_material line = Inr (from_string 0 rest)"
proof -
  have le: "size_t (str_find line ''MATERIAL='' 0 + 9) = int (length pre) + 9"
    using first len line by (simp add: size_t_def)
  have d: "drop (length pre + 9) line = name @ CHR ''-'' # rest"
    using line by simp
  have f: "str_find line ''-'' (int (length pre) + 9) = int (length pre) + 9 + int (length name)"
    using str_find_aux_first [OF name, of rest "int (length pre) + 9"] d line
    by (simp add: str_find_def nat_add_distrib)
  have st: "size_t (int (length pre) + 9 + int (length name) + 1)
              = int (length pre) + 9 + int (length name) + 1"
    using len line by (simp add: size_t_def)
  have "line = (pre @ ''MATERIAL='' @ name @ ''-'') @ rest"
    using line by simp
  moreover have "length (pre @ ''MATERIAL='' @ name @ ''-'') = length pre + 9 + length name + 1"
    by simp
  ultimately have d2: "drop (length pre + 9 + length name + 1) line = rest"
    by (metis append_eq_conv_conj)
  have n: "nat (int (length pre) + 9 + int (length name) + 1) = length pre + 9 + length name + 1"
    by simp
  have sub: "str_substr line (int (length pre) + 9 + int (length name) + 1) npos = Inr rest"
    unfolding str_substr_def n d2 using line len by (simp add: npos_def)
  show ?thesis
    unfolding solid_section_material_def le Let_def f st sub by simp
qed

lemma six_cells:
  assumes l: "length xs = 6"
    and c: "\<forall>i < 6. xs ! i = (if i \<in> {0, 2, 4} then (abaqus_cell 0)[0 := DblInt m] else abaqus_cell 0)"
  shows "map hd xs = [DblInt m, DblInt 0, DblInt m, DblInt 0, DblInt m, DblInt 0]"
proof (rule nth_equalityI)
  show "length (map hd xs) = length [DblInt m, DblInt 0, DblInt m, DblInt 0, DblInt m, DblInt 0]"
    using l by simp
next
  fix i assume "i < length (map hd xs)"
  then have "i < 6" using l by simp
  then consider "i = 0" | "i = 1" | "i = 2" | "i = 3" | "i = 4" | "i = 5"
    by linarith
  then show "map hd xs ! i = [DblInt m, DblInt 0, DblInt m, DblInt 0, DblInt m, DblInt 0] ! i"
    using c l by cases (simp_all add: abaqus_cell_def)
qed

text \<open>
  C4 (as amended). For a \<^verbatim>\<open>*SOLID SECTION\<close> line the material id is the number read from
  the text that follows the first hyphen after \<^verbatim>\<open>MATERIAL=\<close> (the bridge calls
  \<^verbatim>\<open>line.find('-', last_equal)\<close>): when the line is \<open>pre @ MATERIAL= @ name @ - @ rest\<close>
  with no hyphen in \<open>name\<close>, every cell of the referenced element set gets
  \<open>from_string 0 rest\<close> as its material id, and no other cell is changed. The cells of
  the set must exist: the source indexes \<^verbatim>\<open>cell_list\<close> without a check.
\<close>

theorem solid_section_first_hyphen:
  assumes line: "line = pre @ ''MATERIAL='' @ name @ ''-'' @ rest"
    and first: "str_find line ''MATERIAL='' 0 = int (length pre)"
    and name: "CHR ''-'' \<notin> set name"
    and len: "int (length line) < 18446744073709551616"
    and elset: "solid_section_elset line = Inr elset_name"
    and cells: "map_find (elsets_list st) elset_name = Some elset_cells"
    and range: "\<forall>c \<in> set elset_cells. 1 \<le> c \<and> c \<le> int (length (cell_list st))"
    and nonempty: "[] \<notin> set (cell_list st)"
  shows "\<exists>st1. abaqus_solid_section st line = Inr st1
           \<and> length (cell_list st1) = length (cell_list st)
           \<and> (\<forall>i < length (cell_list st).
                 cell_list st1 ! i =
                   (if i \<in> (\<lambda>c. nat (c - 1)) ` set elset_cells
                    then (cell_list st ! i)[0 := DblInt (from_string 0 rest)]
                    else cell_list st ! i))"
  using abaqus_solid_section_result [OF elset
      solid_section_material_first_hyphen [OF line first name len] cells range nonempty]
  by simp

theorem solid_section_first_hyphen_witness:
  "\<exists>st1. abaqus_solid_section abaqus_one_set section_material7 = Inr st1
      \<and> map hd (cell_list st1) = [DblInt 7, DblInt 0, DblInt 7, DblInt 0, DblInt 7, DblInt 0]"
proof -
  have 1: "section_material7
             = ''*SOLID SECTION, ELSET=SET-1, '' @ ''MATERIAL='' @ ''MATERIAL'' @ ''-'' @ ''7''"
    by (simp add: section_material7_def)
  have 2: "str_find section_material7 ''MATERIAL='' 0
             = int (length ''*SOLID SECTION, ELSET=SET-1, '')"
    by code_simp
  have 3: "CHR ''-'' \<notin> set ''MATERIAL''"
    by simp
  have 4: "int (length section_material7) < 18446744073709551616"
    by (simp add: section_material7_def)
  have 5: "solid_section_elset section_material7 = Inr ''SET-1''"
    by code_simp
  have 6: "map_find (elsets_list abaqus_one_set) ''SET-1'' = Some [1, 3, 5]"
    by code_simp
  have 7: "\<forall>c \<in> set [1, 3, 5]. 1 \<le> c \<and> c \<le> int (length (cell_list abaqus_one_set))"
    by (simp add: abaqus_one_set_def)
  have 8: "[] \<notin> set (cell_list abaqus_one_set)"
    by (simp add: abaqus_one_set_def abaqus_cell_def)
  have 9: "from_string 0 ''7'' = 7"
    by code_simp
  have 10: "length (cell_list abaqus_one_set) = 6"
    by (simp add: abaqus_one_set_def)
  from solid_section_first_hyphen [OF 1 2 3 4 5 6 7 8] obtain st1
    where a: "abaqus_solid_section abaqus_one_set section_material7 = Inr st1"
      and l: "length (cell_list st1) = 6"
      and c: "\<forall>i < 6. cell_list st1 ! i =
                   (if i \<in> (\<lambda>c. nat (c - 1)) ` set [1, 3, 5]
                    then (cell_list abaqus_one_set ! i)[0 := DblInt 7]
                    else cell_list abaqus_one_set ! i)"
    unfolding 9 10 by blast
  from c have "\<forall>i < 6. cell_list st1 ! i =
      (if i \<in> {0, 2, 4} then (abaqus_cell 0)[0 := DblInt 7] else abaqus_cell 0)"
    by (simp add: abaqus_one_set_def)
  with l have "map hd (cell_list st1) = [DblInt 7, DblInt 0, DblInt 7, DblInt 0, DblInt 7, DblInt 0]"
    by (rule six_cells)
  with a show ?thesis by simp
qed

text \<open>
  The material name \<open>Steel-Grade-12\<close> has two hyphens. The text after the first one is
  \<open>GRADE-12\<close>, from which no number can be read, and the three cells of the set get the
  material id 0, not 12: first on the line alone, then on a whole file whose cells have
  the material id 3 before.
\<close>

theorem steel_grade_counterexample:
  "solid_section_material section_steel = Inr 0
   \<and> map_sum id (\<lambda>st. map hd (cell_list st)) (abaqus_solid_section abaqus_one_set section_steel)
       = Inr [DblInt 0, DblInt 0, DblInt 0, DblInt 0, DblInt 0, DblInt 0]
   \<and> map_option (map_sum id (\<lambda>st. map hd (cell_list st)))
        (read_in_abaqus 2 2 (lstream_of abaqus_steel_grade))
       = Some (Inr [DblInt 0, DblInt 3, DblInt 0, DblInt 3, DblInt 0, DblInt 3])"
  by code_simp














subsection \<open>Merging duplicate vertices\<close>

lemma find_in_set: "find P xs = Some x \<Longrightarrow> x \<in> set xs"
  by (auto simp: find_Some_iff)

lemma merge_step_inv:
  assumes len: "length nvn = n"
    and inv: "\<forall>j<n. nvn ! j \<le> j \<and> nvn ! (nvn ! j) = nvn ! j \<and> (nvn ! j \<noteq> j \<longrightarrow> nvn ! j < t)"
    and self: "nvn ! t = t" and cj: "t < cj" "cj < n"
  shows "\<forall>j<n. nvn[cj := t] ! j \<le> j \<and> nvn[cj := t] ! (nvn[cj := t] ! j) = nvn[cj := t] ! j
           \<and> (nvn[cj := t] ! j \<noteq> j \<longrightarrow> nvn[cj := t] ! j < Suc t)"
proof (intro allI impI)
  fix j assume j: "j < n"
  show "nvn[cj := t] ! j \<le> j \<and> nvn[cj := t] ! (nvn[cj := t] ! j) = nvn[cj := t] ! j
           \<and> (nvn[cj := t] ! j \<noteq> j \<longrightarrow> nvn[cj := t] ! j < Suc t)"
  proof (cases "j = cj")
    case True
    then have "nvn[cj := t] ! j = t"
      using cj len by simp
    moreover have "nvn[cj := t] ! t = t"
      using cj self by simp
    ultimately show ?thesis using cj True by simp
  next
    case False
    then have a: "nvn[cj := t] ! j = nvn ! j"
      by simp
    from inv j have b: "nvn ! j \<le> j" "nvn ! (nvn ! j) = nvn ! j" "nvn ! j \<noteq> j \<longrightarrow> nvn ! j < t"
      by simp_all
    have "nvn ! j \<noteq> cj"
      using b False cj by (cases "nvn ! j = j") auto
    then have "nvn[cj := t] ! (nvn ! j) = nvn ! j"
      using b by simp
    with a b show ?thesis by auto
  qed
qed

lemma merge_numbers_upt:
  assumes "length nvn = n"
    and "\<forall>j<n. nvn ! j \<le> j \<and> nvn ! (nvn ! j) = nvn ! j \<and> (nvn ! j \<noteq> j \<longrightarrow> nvn ! j < t)"
    and "k = n - t" and "t \<le> n"
  shows "length (merge_numbers close V [t ..< n] nvn) = n
         \<and> (\<forall>j<n. merge_numbers close V [t ..< n] nvn ! j \<le> j
                   \<and> merge_numbers close V [t ..< n] nvn ! (merge_numbers close V [t ..< n] nvn ! j)
                       = merge_numbers close V [t ..< n] nvn ! j)"
  using assms
proof (induction k arbitrary: t nvn)
  case 0
  then show ?case by simp
next
  case (Suc k)
  then have t: "t < n" by simp
  then have upt: "[t ..< n] = t # [Suc t ..< n]"
    by (rule upt_conv_Cons)
  let ?nvn = "(if nvn ! t \<noteq> t then nvn
        else (case find (\<lambda>cj. close (V ! cj) (V ! t)) [Suc t ..< n] of
                None \<Rightarrow> nvn
              | Some cj \<Rightarrow> nvn[cj := t]))"
  have m: "merge_numbers close V [t ..< n] nvn = merge_numbers close V [Suc t ..< n] ?nvn"
    unfolding upt by simp
  have weak: "\<forall>j<n. nvn ! j \<le> j \<and> nvn ! (nvn ! j) = nvn ! j \<and> (nvn ! j \<noteq> j \<longrightarrow> nvn ! j < Suc t)"
    using Suc.prems(2) by (simp add: less_Suc_eq)
  have len: "length ?nvn = n"
    using Suc.prems(1) by (simp split: option.splits)
  have inv: "\<forall>j<n. ?nvn ! j \<le> j \<and> ?nvn ! (?nvn ! j) = ?nvn ! j \<and> (?nvn ! j \<noteq> j \<longrightarrow> ?nvn ! j < Suc t)"
  proof (cases "nvn ! t \<noteq> t")
    case True
    then show ?thesis using weak by simp
  next
    case False
    show ?thesis
    proof (cases "find (\<lambda>cj. close (V ! cj) (V ! t)) [Suc t ..< n]")
      case None
      then show ?thesis using weak False by simp
    next
      case (Some cj)
      then have "cj \<in> set [Suc t ..< n]"
        by (rule find_in_set)
      then have cj: "t < cj" "cj < n" by simp_all
      from False have self: "nvn ! t = t" by simp
      from merge_step_inv [OF Suc.prems(1) Suc.prems(2) self cj]
      show ?thesis using False Some by simp
    qed
  qed
  have "k = n - Suc t" "Suc t \<le> n"
    using Suc.prems(3) t by simp_all
  from Suc.IH [OF len inv this] show ?case
    unfolding m .
qed

lemma merge_numbers_all:
  "length (merge_numbers close V [0 ..< length V] [0 ..< length V]) = length V
   \<and> (\<forall>j < length V. merge_numbers close V [0 ..< length V] [0 ..< length V] ! j \<le> j
         \<and> merge_numbers close V [0 ..< length V] [0 ..< length V]
             ! (merge_numbers close V [0 ..< length V] [0 ..< length V] ! j)
           = merge_numbers close V [0 ..< length V] [0 ..< length V] ! j)"
  by (rule merge_numbers_upt [where t = 0 and k = "length V"]) simp_all

lemma used_indices_renumber:
  "used_indices (map (renumber_cell f) C)
      \<lparr>boundary_lines = map (renumber_cell f) (boundary_lines S),
       boundary_quads = map (renumber_cell f) (boundary_quads S)\<rparr>
   = map f (used_indices C S)"
  by (simp add: used_indices_def renumber_cell_def map_concat comp_def)

lemma used_indices_delete_unused:
  "delete_unused_vertices V C S = (V1, C1, S1) \<Longrightarrow>
   used_indices C1 S1 = map (new_vertex_number C S) (used_indices C S)"
  using used_indices_renumber [of "new_vertex_number C S" C S]
  by (auto simp: delete_unused_vertices_def)

lemma renumber_cells_id:
  assumes "\<forall>v \<in> set (used_indices C S). f v = v"
  shows "map (renumber_cell f) C = C"
    and "map (renumber_cell f) (boundary_lines S) = boundary_lines S"
    and "map (renumber_cell f) (boundary_quads S) = boundary_quads S"
proof -
  have "renumber_cell f c = c" if "c \<in> set (C @ boundary_lines S @ boundary_quads S)" for c
  proof -
    from that have "set (cd_vertices c) \<subseteq> set (used_indices C S)"
      by (auto simp: used_indices_def)
    with assms have "map f (cd_vertices c) = cd_vertices c"
      by (simp add: map_idI subset_iff)
    then show ?thesis by (simp add: renumber_cell_def)
  qed
  then show "map (renumber_cell f) C = C"
    and "map (renumber_cell f) (boundary_lines S) = boundary_lines S"
    and "map (renumber_cell f) (boundary_quads S) = boundary_quads S"
    by (simp_all add: map_idI)
qed

lemma delete_unused_identity:
  assumes valid: "mesh_valid (length V) C S"
    and all: "\<forall>i < length V. vertex_used C S i"
  shows "delete_unused_vertices V C S = (V, C, S)"
proof -
  have f: "filter (vertex_used C S) [0 ..< length V] = [0 ..< length V]"
    using all by (simp add: filter_id_conv)
  have v: "map (\<lambda>i. V ! i) [0 ..< length V] = V"
    by (rule map_nth)
  have "\<forall>v \<in> set (used_indices C S). new_vertex_number C S v = v"
  proof
    fix v assume "v \<in> set (used_indices C S)"
    with valid have r: "0 \<le> v" "nat v < length V"
      by (auto simp: mesh_valid_def list_all_iff)
    then have "filter (vertex_used C S) [0 ..< nat v] = [0 ..< nat v]"
      using all by (simp add: filter_id_conv)
    with r show "new_vertex_number C S v = v"
      by (simp add: new_vertex_number_def)
  qed
  from renumber_cells_id [OF this] f v show ?thesis
    by (simp add: delete_unused_vertices_def)
qed

lemma delete_unused_full:
  assumes "length (fst (delete_unused_vertices V C S)) = length V"
  shows "\<forall>i < length V. vertex_used C S i"
proof (intro allI impI, rule ccontr)
  fix i assume "i < length V" "\<not> vertex_used C S i"
  then have "length (filter (vertex_used C S) [0 ..< length V]) < length [0 ..< length V]"
    by (intro length_filter_less) simp_all
  with assms show False
    by (simp add: delete_unused_vertices_def)
qed

lemma delete_unused_valid:
  assumes valid: "mesh_valid (length V) C S"
    and d: "delete_unused_vertices V C S = (V1, C1, S1)"
  shows "mesh_valid (length V1) C1 S1"
proof -
  have len: "length V1 = length (filter (vertex_used C S) [0 ..< length V])"
    using d by (auto simp: delete_unused_vertices_def)
  have "0 \<le> new_vertex_number C S v \<and> new_vertex_number C S v < int (length V1)"
    if "v \<in> set (used_indices C S)" for v
  proof -
    from that valid have r: "0 \<le> v" "nat v < length V"
      by (auto simp: mesh_valid_def list_all_iff)
    from that r have u: "vertex_used C S (nat v)"
      by (simp add: vertex_used_def)
    have "[0 ..< length V] = [0 ..< nat v] @ nat v # [Suc (nat v) ..< length V]"
      using r by (metis le0 upt_add_eq_append upt_conv_Cons nat_le_iff_add less_imp_le_nat)
    then have "filter (vertex_used C S) [0 ..< length V]
        = filter (vertex_used C S) [0 ..< nat v] @ nat v # filter (vertex_used C S) [Suc (nat v) ..< length V]"
      using u by simp
    then have "length (filter (vertex_used C S) [0 ..< nat v]) < length V1"
      using len by simp
    then show ?thesis by (simp add: new_vertex_number_def)
  qed
  then show ?thesis
    unfolding mesh_valid_def used_indices_delete_unused [OF d]
    by (simp add: list_all_iff)
qed


lemma pass_unfold:
  "delete_duplicated_vertices close V C S [] =
     delete_unused_vertices V
       (map (renumber_cell (renumber_with (merge_numbers close V [0 ..< length V] [0 ..< length V]))) C)
       \<lparr>boundary_lines = map (renumber_cell
            (renumber_with (merge_numbers close V [0 ..< length V] [0 ..< length V]))) (boundary_lines S),
        boundary_quads = map (renumber_cell
            (renumber_with (merge_numbers close V [0 ..< length V] [0 ..< length V]))) (boundary_quads S)\<rparr>"
  by (simp add: delete_duplicated_vertices_def Let_def)

lemma pass_valid:
  assumes valid: "mesh_valid (length V) C S"
    and d: "delete_duplicated_vertices close V C S [] = (V1, C1, S1)"
  shows "mesh_valid (length V1) C1 S1"
proof -
  let ?nvn = "merge_numbers close V [0 ..< length V] [0 ..< length V]"
  let ?f = "renumber_with ?nvn"
  let ?C = "map (renumber_cell ?f) C"
  let ?S = "\<lparr>boundary_lines = map (renumber_cell ?f) (boundary_lines S),
             boundary_quads = map (renumber_cell ?f) (boundary_quads S)\<rparr>"
  from merge_numbers_all [of close V] have len: "length ?nvn = length V"
    and le: "\<forall>j < length V. ?nvn ! j \<le> j"
    by simp_all
  have "0 \<le> ?f v \<and> ?f v < int (length V)" if "v \<in> set (used_indices C S)" for v
  proof -
    from that valid have r: "0 \<le> v" "nat v < length V"
      by (auto simp: mesh_valid_def list_all_iff)
    with le have "?nvn ! nat v \<le> nat v" by simp
    with r len show ?thesis by (simp add: renumber_with_def)
  qed
  then have "mesh_valid (length V) ?C ?S"
    unfolding mesh_valid_def used_indices_renumber by (simp add: list_all_iff)
  moreover from d have "delete_unused_vertices V ?C ?S = (V1, C1, S1)"
    by (simp add: pass_unfold)
  ultimately show ?thesis by (rule delete_unused_valid)
qed

lemma pass_fixed:
  assumes valid: "mesh_valid (length V) C S"
    and count: "length (fst (delete_duplicated_vertices close V C S [])) = length V"
  shows "delete_duplicated_vertices close V C S [] = (V, C, S)"
proof -
  let ?nvn = "merge_numbers close V [0 ..< length V] [0 ..< length V]"
  let ?f = "renumber_with ?nvn"
  let ?C = "map (renumber_cell ?f) C"
  let ?S = "\<lparr>boundary_lines = map (renumber_cell ?f) (boundary_lines S),
             boundary_quads = map (renumber_cell ?f) (boundary_quads S)\<rparr>"
  from merge_numbers_all [of close V] have len: "length ?nvn = length V"
    and idem: "\<forall>j < length V. ?nvn ! j \<le> j \<and> ?nvn ! (?nvn ! j) = ?nvn ! j"
    by simp_all
  from count have "length (fst (delete_unused_vertices V ?C ?S)) = length V"
    by (simp add: pass_unfold)
  then have full: "\<forall>i < length V. vertex_used ?C ?S i"
    by (rule delete_unused_full)
  have fixed: "?nvn ! i = i" if i: "i < length V" for i
  proof -
    from full i have "int i \<in> set (map ?f (used_indices C S))"
      unfolding vertex_used_def used_indices_renumber by simp
    then obtain u where u: "u \<in> set (used_indices C S)" "int i = ?f u"
      by auto
    from u(1) valid have r: "0 \<le> u" "nat u < length V"
      by (auto simp: mesh_valid_def list_all_iff)
    with u(2) len have "i = ?nvn ! nat u"
      by (simp add: renumber_with_def)
    with idem r show ?thesis by simp
  qed
  have "\<forall>v \<in> set (used_indices C S). ?f v = v"
  proof
    fix v assume "v \<in> set (used_indices C S)"
    with valid have r: "0 \<le> v" "nat v < length V"
      by (auto simp: mesh_valid_def list_all_iff)
    with fixed len show "?f v = v" by (simp add: renumber_with_def)
  qed
  from renumber_cells_id [OF this] have same: "?C = C" "?S = S"
    by simp_all
  from full have "\<forall>i < length V. vertex_used C S i"
    unfolding same .
  with valid have "delete_unused_vertices V C S = (V, C, S)"
    by (rule delete_unused_identity)
  then show ?thesis
    unfolding pass_unfold same .
qed

lemma pass_length: "length (fst (delete_duplicated_vertices close V C S [])) \<le> length V"
proof -
  have "length (filter P [0 ..< length V]) \<le> length V" for P
    using length_filter_le [of P "[0 ..< length V]"] by simp
  then show ?thesis
    by (simp add: delete_duplicated_vertices_def delete_unused_vertices_def Let_def)
qed

lemma merge_loop_fixed:
  "mesh_valid (length V) C S \<Longrightarrow>
   (n = length V \<longrightarrow> delete_duplicated_vertices close V C S [] = (V, C, S)) \<Longrightarrow>
   merge_loop close n V C S = (v, c, s) \<Longrightarrow>
   mesh_valid (length v) c s \<and> delete_duplicated_vertices close v c s [] = (v, c, s)"
proof (induction close n V C S rule: merge_loop.induct)
  case (1 close n V C S)
  show ?case
  proof (cases "n = length V")
    case True
    with "1.prems" show ?thesis by simp
  next
    case False
    obtain V1 C1 S1 where p: "delete_duplicated_vertices close V C S [] = (V1, C1, S1)"
      by (cases "delete_duplicated_vertices close V C S []") auto
    from "1.prems"(3) False p have m: "merge_loop close (length V) V1 C1 S1 = (v, c, s)"
      by simp
    from "1.prems"(1) p have valid: "mesh_valid (length V1) C1 S1"
      by (rule pass_valid)
    have stable: "length V = length V1 \<longrightarrow> delete_duplicated_vertices close V1 C1 S1 [] = (V1, C1, S1)"
    proof
      assume "length V = length V1"
      with p have "length (fst (delete_duplicated_vertices close V C S [])) = length V"
        by simp
      with "1.prems"(1) have "delete_duplicated_vertices close V C S [] = (V, C, S)"
        by (rule pass_fixed)
      with p show "delete_duplicated_vertices close V1 C1 S1 [] = (V1, C1, S1)"
        by simp
    qed
    from "1.IH" [OF False p [symmetric] refl valid stable m] show ?thesis .
  qed
qed

lemma merge_step_all:
  assumes len: "length nvn = n"
    and inv: "\<forall>j<n. nvn ! j \<le> j \<and> nvn ! (nvn ! j) = nvn ! j \<and> (nvn ! j \<noteq> j \<longrightarrow> nvn ! j < t)"
    and t: "t < n"
    and step: "nvn1 = (if nvn ! t \<noteq> t then nvn
        else (case find (\<lambda>cj. close (V ! cj) (V ! t)) [Suc t ..< n] of
                None \<Rightarrow> nvn
              | Some cj \<Rightarrow> nvn[cj := t]))"
  shows "length nvn1 = n
    \<and> (\<forall>j<n. nvn1 ! j \<le> j \<and> nvn1 ! (nvn1 ! j) = nvn1 ! j \<and> (nvn1 ! j \<noteq> j \<longrightarrow> nvn1 ! j < Suc t))"
proof -
  have weak: "\<forall>j<n. nvn ! j \<le> j \<and> nvn ! (nvn ! j) = nvn ! j \<and> (nvn ! j \<noteq> j \<longrightarrow> nvn ! j < Suc t)"
    using inv by (simp add: less_Suc_eq)
  have l: "length nvn1 = n"
    using len step by (simp split: option.splits)
  have "\<forall>j<n. nvn1 ! j \<le> j \<and> nvn1 ! (nvn1 ! j) = nvn1 ! j \<and> (nvn1 ! j \<noteq> j \<longrightarrow> nvn1 ! j < Suc t)"
  proof (cases "nvn ! t \<noteq> t")
    case True
    then show ?thesis using weak step by simp
  next
    case False
    show ?thesis
    proof (cases "find (\<lambda>cj. close (V ! cj) (V ! t)) [Suc t ..< n]")
      case None
      then show ?thesis using weak False step by simp
    next
      case (Some cj)
      then have "cj \<in> set [Suc t ..< n]"
        by (rule find_in_set)
      then have cj: "t < cj" "cj < n" by simp_all
      from False have self: "nvn ! t = t" by simp
      from merge_step_inv [OF len inv self cj]
      show ?thesis using False Some step by simp
    qed
  qed
  with l show ?thesis by simp
qed

lemma merge_numbers_identity:
  assumes "length nvn = n"
    and "\<forall>j<n. nvn ! j \<le> j \<and> nvn ! (nvn ! j) = nvn ! j \<and> (nvn ! j \<noteq> j \<longrightarrow> nvn ! j < t)"
    and "k = n - t" and "t \<le> n"
    and "\<forall>j<n. merge_numbers close V [t ..< n] nvn ! j = j"
  shows "(\<forall>j<n. nvn ! j = j) \<and> (\<forall>i j. t \<le> i \<and> i < j \<and> j < n \<longrightarrow> \<not> close (V ! j) (V ! i))"
  using assms
proof (induction k arbitrary: t nvn)
  case 0
  from "0.prems"(3) "0.prems"(4) have e: "n = t" by simp
  show ?case
  proof (intro conjI allI impI)
    fix j assume "j < n"
    with "0.prems"(5) e show "nvn ! j = j" by simp
  next
    fix i j assume "t \<le> i \<and> i < j \<and> j < n"
    with e have False by arith
    then show "\<not> close (V ! j) (V ! i)" ..
  qed
next
  case (Suc k)
  from Suc.prems(3) have t: "t < n" by simp
  then have upt: "[t ..< n] = t # [Suc t ..< n]"
    by (rule upt_conv_Cons)
  define nvn1 where "nvn1 = (if nvn ! t \<noteq> t then nvn
        else (case find (\<lambda>cj. close (V ! cj) (V ! t)) [Suc t ..< n] of
                None \<Rightarrow> nvn
              | Some cj \<Rightarrow> nvn[cj := t]))"
  have m: "merge_numbers close V [t ..< n] nvn = merge_numbers close V [Suc t ..< n] nvn1"
    unfolding upt nvn1_def by simp
  from merge_step_all [where nvn = nvn and n = n and t = t and ?nvn1.0 = nvn1
      and close = close and V = V, OF Suc.prems(1) Suc.prems(2) t nvn1_def]
  have len: "length nvn1 = n"
    and inv: "\<forall>j<n. nvn1 ! j \<le> j \<and> nvn1 ! (nvn1 ! j) = nvn1 ! j \<and> (nvn1 ! j \<noteq> j \<longrightarrow> nvn1 ! j < Suc t)"
    by simp_all
  have "k = n - Suc t" "Suc t \<le> n"
    using Suc.prems(3) t by simp_all
  moreover have "\<forall>j<n. merge_numbers close V [Suc t ..< n] nvn1 ! j = j"
    using Suc.prems(5) unfolding m .
  ultimately have ih: "(\<forall>j<n. nvn1 ! j = j)
      \<and> (\<forall>i j. Suc t \<le> i \<and> i < j \<and> j < n \<longrightarrow> \<not> close (V ! j) (V ! i))"
    using Suc.IH [OF len inv] by blast
  have self: "nvn ! t = t"
  proof (rule ccontr)
    assume "nvn ! t \<noteq> t"
    then have "nvn1 = nvn" by (simp add: nvn1_def)
    with ih t \<open>nvn ! t \<noteq> t\<close> show False by simp
  qed
  have none: "find (\<lambda>cj. close (V ! cj) (V ! t)) [Suc t ..< n] = None"
  proof (cases "find (\<lambda>cj. close (V ! cj) (V ! t)) [Suc t ..< n]")
    case None
    then show ?thesis .
  next
    case (Some cj)
    then have "cj \<in> set [Suc t ..< n]"
      by (rule find_in_set)
    then have cj: "t < cj" "cj < n" by simp_all
    from self Some have "nvn1 = nvn[cj := t]"
      by (simp add: nvn1_def)
    with cj Suc.prems(1) have "nvn1 ! cj = t" by simp
    with ih cj show ?thesis by simp
  qed
  from self none have same: "nvn1 = nvn"
    by (simp add: nvn1_def)
  from none have here: "\<forall>j. t < j \<and> j < n \<longrightarrow> \<not> close (V ! j) (V ! t)"
    by (auto simp: find_None_iff)
  show ?case
  proof (intro conjI allI impI)
    fix j assume "j < n"
    with ih same show "nvn ! j = j" by simp
  next
    fix i j assume a: "t \<le> i \<and> i < j \<and> j < n"
    show "\<not> close (V ! j) (V ! i)"
    proof (cases "i = t")
      case True
      with a here show ?thesis by simp
    next
      case False
      with a have "Suc t \<le> i \<and> i < j \<and> j < n" by simp
      with ih show ?thesis by blast
    qed
  qed
qed

lemma pass_no_pairs:
  assumes valid: "mesh_valid (length V) C S"
    and count: "length (fst (delete_duplicated_vertices close V C S [])) = length V"
  shows "\<forall>i j. i < j \<and> j < length V \<longrightarrow> \<not> close (V ! j) (V ! i)"
proof -
  let ?nvn = "merge_numbers close V [0 ..< length V] [0 ..< length V]"
  let ?f = "renumber_with ?nvn"
  let ?C = "map (renumber_cell ?f) C"
  let ?S = "\<lparr>boundary_lines = map (renumber_cell ?f) (boundary_lines S),
             boundary_quads = map (renumber_cell ?f) (boundary_quads S)\<rparr>"
  from merge_numbers_all [of close V] have len: "length ?nvn = length V"
    and idem: "\<forall>j < length V. ?nvn ! j \<le> j \<and> ?nvn ! (?nvn ! j) = ?nvn ! j"
    by simp_all
  from count have "length (fst (delete_unused_vertices V ?C ?S)) = length V"
    by (simp add: pass_unfold)
  then have full: "\<forall>i < length V. vertex_used ?C ?S i"
    by (rule delete_unused_full)
  have fixed: "\<forall>i < length V. ?nvn ! i = i"
  proof (intro allI impI)
    fix i assume i: "i < length V"
    with full have "int i \<in> set (map ?f (used_indices C S))"
      unfolding vertex_used_def used_indices_renumber by simp
    then obtain u where u: "u \<in> set (used_indices C S)" "int i = ?f u"
      by auto
    from u(1) valid have r: "0 \<le> u" "nat u < length V"
      by (auto simp: mesh_valid_def list_all_iff)
    with u(2) len have "i = ?nvn ! nat u"
      by (simp add: renumber_with_def)
    with idem r show "?nvn ! i = i" by simp
  qed
  have "(\<forall>j<length V. [0 ..< length V] ! j = j)
      \<and> (\<forall>i j. 0 \<le> i \<and> i < j \<and> j < length V \<longrightarrow> \<not> close (V ! j) (V ! i))"
    by (rule merge_numbers_identity [where k = "length V" and nvn = "[0 ..< length V]"])
      (simp_all add: fixed)
  then show ?thesis by simp
qed

lemma merge_loop_iterates:
  "merge_loop close n V C S = r \<Longrightarrow>
   (n = length V \<longrightarrow> r = (V, C, S))
   \<and> (n \<noteq> length V \<longrightarrow>
       (\<exists>k. 0 < k \<and> r = (merge_pass close ^^ k) (V, C, S)
           \<and> n_vertices_after close k (V, C, S) = n_vertices_after close (k - 1) (V, C, S)
           \<and> (\<forall>j. 0 < j \<and> j < k \<longrightarrow>
                 n_vertices_after close j (V, C, S) \<noteq> n_vertices_after close (j - 1) (V, C, S))))"
proof (induction close n V C S arbitrary: r rule: merge_loop.induct)
  case (1 close n V C S)
  let ?Q = "\<lambda>k. 0 < k \<and> r = (merge_pass close ^^ k) (V, C, S)
           \<and> n_vertices_after close k (V, C, S) = n_vertices_after close (k - 1) (V, C, S)
           \<and> (\<forall>j. 0 < j \<and> j < k \<longrightarrow>
                 n_vertices_after close j (V, C, S) \<noteq> n_vertices_after close (j - 1) (V, C, S))"
  show ?case
  proof (intro conjI impI)
    assume "n = length V"
    with "1.prems" show "r = (V, C, S)" by simp
  next
    assume False: "n \<noteq> length V"
    obtain V1 C1 S1 where p: "delete_duplicated_vertices close V C S [] = (V1, C1, S1)"
      by (cases "delete_duplicated_vertices close V C S []") auto
    then have p1: "merge_pass close (V, C, S) = (V1, C1, S1)"
      by (simp add: merge_pass_def)
    have shift: "(merge_pass close ^^ Suc j) (V, C, S) = (merge_pass close ^^ j) (V1, C1, S1)" for j
      by (simp add: funpow_swap1 p1)
    have nshift: "n_vertices_after close (Suc j) (V, C, S) = n_vertices_after close j (V1, C1, S1)" for j
      unfolding n_vertices_after_def shift ..
    have n0: "n_vertices_after close 0 (V, C, S) = length V"
      by (simp add: n_vertices_after_def)
    have n1: "n_vertices_after close 0 (V1, C1, S1) = length V1"
      by (simp add: n_vertices_after_def)
    from "1.prems" False p have m: "merge_loop close (length V) V1 C1 S1 = r"
      by simp
    note ih = "1.IH" [OF False p [symmetric] refl m]
    show "\<exists>k. ?Q k"
    proof (cases "length V = length V1")
      case True
      with ih have r: "r = (V1, C1, S1)" by simp
      have "?Q (Suc 0)"
      proof (intro conjI allI impI)
        show "0 < Suc 0" by simp
        show "r = (merge_pass close ^^ Suc 0) (V, C, S)"
          using r p1 by simp
        show "n_vertices_after close (Suc 0) (V, C, S) = n_vertices_after close (Suc 0 - 1) (V, C, S)"
          using nshift [of 0] n0 n1 True by simp
      next
        fix j assume "0 < j \<and> j < Suc 0"
        then have False by arith
        then show "n_vertices_after close j (V, C, S) \<noteq> n_vertices_after close (j - 1) (V, C, S)" ..
      qed
      then show ?thesis by (rule exI)
    next
      case ne: False
      with ih obtain k where k: "0 < k" "r = (merge_pass close ^^ k) (V1, C1, S1)"
        "n_vertices_after close k (V1, C1, S1) = n_vertices_after close (k - 1) (V1, C1, S1)"
        "\<forall>j. 0 < j \<and> j < k \<longrightarrow>
           n_vertices_after close j (V1, C1, S1) \<noteq> n_vertices_after close (j - 1) (V1, C1, S1)"
        by blast
      have "?Q (Suc k)"
      proof (intro conjI allI impI)
        show "0 < Suc k" by simp
        show "r = (merge_pass close ^^ Suc k) (V, C, S)"
          using k(2) shift [of k] by simp
        obtain i where i: "k = Suc i"
          using k(1) by (cases k) auto
        show "n_vertices_after close (Suc k) (V, C, S) = n_vertices_after close (Suc k - 1) (V, C, S)"
          using k(3) nshift [of k] nshift [of i] i by simp
      next
        fix j assume j: "0 < j \<and> j < Suc k"
        show "n_vertices_after close j (V, C, S) \<noteq> n_vertices_after close (j - 1) (V, C, S)"
        proof (cases "j = Suc 0")
          case True
          then show ?thesis using nshift [of 0] n0 n1 ne by simp
        next
          case False
          with j obtain i where i: "j = Suc (Suc i)" "Suc i < k"
            by (cases j; cases "j - 1") auto
          with k(4) have "n_vertices_after close (Suc i) (V1, C1, S1)
              \<noteq> n_vertices_after close (Suc i - 1) (V1, C1, S1)"
            by blast
          with i nshift [of "Suc i"] nshift [of i] show ?thesis by simp
        qed
      qed
      then show ?thesis by (rule exI)
    qed
  qed
qed


text \<open>
  C8. \<^verbatim>\<open>read_assimp\<close> repeats the pass that merges duplicate vertices until a pass leaves
  the number of vertices as it was: the loop ends for every mesh, and its result is the
  mesh after \<open>k\<close> passes, where \<open>k\<close> is the first number of passes after which the
  number of vertices is the same as one pass before (no pass is made when there is no
  vertex). On a valid mesh (every vertex index names a vertex) the result is merged and
  stable: no two of its vertices are close to each other, and one more pass with the
  same comparison of points gives the same vertices, cells and sub-entities.
\<close>

theorem duplicate_merge_idempotent:
  assumes valid: "mesh_valid (length vertices) cells subcelldata"
    and loop: "merge_loop close 0 vertices cells subcelldata = (v, c, s)"
  shows "(if vertices = [] then (v, c, s) = (vertices, cells, subcelldata)
          else \<exists>k. 0 < k \<and> (v, c, s) = (merge_pass close ^^ k) (vertices, cells, subcelldata)
                 \<and> n_vertices_after close k (vertices, cells, subcelldata)
                     = n_vertices_after close (k - 1) (vertices, cells, subcelldata)
                 \<and> (\<forall>j. 0 < j \<and> j < k \<longrightarrow>
                       n_vertices_after close j (vertices, cells, subcelldata)
                         \<noteq> n_vertices_after close (j - 1) (vertices, cells, subcelldata)))
       \<and> delete_duplicated_vertices close v c s [] = (v, c, s)
       \<and> (\<forall>i j. i < j \<and> j < length v \<longrightarrow> \<not> close (v ! j) (v ! i))
       \<and> mesh_valid (length v) c s"
proof -
  have "0 = length vertices \<longrightarrow>
      delete_duplicated_vertices close vertices cells subcelldata [] = (vertices, cells, subcelldata)"
  proof
    assume "0 = length vertices"
    with pass_length [of close vertices cells subcelldata]
    have "length (fst (delete_duplicated_vertices close vertices cells subcelldata [])) = length vertices"
      by simp
    with valid show "delete_duplicated_vertices close vertices cells subcelldata []
        = (vertices, cells, subcelldata)"
      by (rule pass_fixed)
  qed
  from merge_loop_fixed [OF valid this loop]
  have ok: "mesh_valid (length v) c s" and fixed: "delete_duplicated_vertices close v c s [] = (v, c, s)"
    by simp_all
  from fixed have "length (fst (delete_duplicated_vertices close v c s [])) = length v"
    by simp
  with ok have pairs: "\<forall>i j. i < j \<and> j < length v \<longrightarrow> \<not> close (v ! j) (v ! i)"
    by (rule pass_no_pairs)
  note it = merge_loop_iterates [OF loop]
  have first: "if vertices = [] then (v, c, s) = (vertices, cells, subcelldata)
          else \<exists>k. 0 < k \<and> (v, c, s) = (merge_pass close ^^ k) (vertices, cells, subcelldata)
                 \<and> n_vertices_after close k (vertices, cells, subcelldata)
                     = n_vertices_after close (k - 1) (vertices, cells, subcelldata)
                 \<and> (\<forall>j. 0 < j \<and> j < k \<longrightarrow>
                       n_vertices_after close j (vertices, cells, subcelldata)
                         \<noteq> n_vertices_after close (j - 1) (vertices, cells, subcelldata))"
  proof (cases "vertices = []")
    case True
    with it show ?thesis by simp
  next
    case False
    then have "0 \<noteq> length vertices" by simp
    with it False show ?thesis by simp
  qed
  from first fixed pairs ok show ?thesis
    by (intro conjI)
qed

theorem duplicate_merge_idempotent_witness:
  "merge_loop (close_int 1) 0 three_quads_vertices three_quads_cells new_SubCellData
     = (three_quads_merged_vertices, three_quads_merged_cells, new_SubCellData)
   \<and> (\<exists>k. (three_quads_merged_vertices, three_quads_merged_cells, new_SubCellData)
             = (merge_pass (close_int 1) ^^ Suc k)
                 (three_quads_vertices, three_quads_cells, new_SubCellData)
         \<and> n_vertices_after (close_int 1) (Suc k)
               (three_quads_vertices, three_quads_cells, new_SubCellData)
             = n_vertices_after (close_int 1) k
                 (three_quads_vertices, three_quads_cells, new_SubCellData))
   \<and> delete_duplicated_vertices (close_int 1) three_quads_merged_vertices three_quads_merged_cells
        new_SubCellData []
       = (three_quads_merged_vertices, three_quads_merged_cells, new_SubCellData)
   \<and> \<not> close_int 1 (three_quads_merged_vertices ! 7) (three_quads_merged_vertices ! 2)
   \<and> mesh_valid (length three_quads_merged_vertices) three_quads_merged_cells new_SubCellData"
proof -
  have a: "mesh_valid (length three_quads_vertices) three_quads_cells new_SubCellData"
    by code_simp
  have b: "merge_loop (close_int 1) 0 three_quads_vertices three_quads_cells new_SubCellData
           = (three_quads_merged_vertices, three_quads_merged_cells, new_SubCellData)"
    by code_simp
  have ne: "three_quads_vertices \<noteq> []"
    by (simp add: three_quads_vertices_def)
  note t = duplicate_merge_idempotent [OF a b]
  from t ne have 1: "\<exists>k. 0 < k
         \<and> (three_quads_merged_vertices, three_quads_merged_cells, new_SubCellData)
             = (merge_pass (close_int 1) ^^ k) (three_quads_vertices, three_quads_cells, new_SubCellData)
         \<and> n_vertices_after (close_int 1) k (three_quads_vertices, three_quads_cells, new_SubCellData)
             = n_vertices_after (close_int 1) (k - 1)
                 (three_quads_vertices, three_quads_cells, new_SubCellData)
         \<and> (\<forall>j. 0 < j \<and> j < k \<longrightarrow>
               n_vertices_after (close_int 1) j (three_quads_vertices, three_quads_cells, new_SubCellData)
                 \<noteq> n_vertices_after (close_int 1) (j - 1)
                     (three_quads_vertices, three_quads_cells, new_SubCellData))"
    by (simp only: if_False conj_assoc)
  then obtain k where k: "0 < k"
    "(three_quads_merged_vertices, three_quads_merged_cells, new_SubCellData)
             = (merge_pass (close_int 1) ^^ k) (three_quads_vertices, three_quads_cells, new_SubCellData)"
    "n_vertices_after (close_int 1) k (three_quads_vertices, three_quads_cells, new_SubCellData)
             = n_vertices_after (close_int 1) (k - 1)
                 (three_quads_vertices, three_quads_cells, new_SubCellData)"
    by (elim exE conjE)
  from k(1) obtain i where i: "k = Suc i"
    by (cases k) auto
  have w: "\<exists>k. (three_quads_merged_vertices, three_quads_merged_cells, new_SubCellData)
             = (merge_pass (close_int 1) ^^ Suc k)
                 (three_quads_vertices, three_quads_cells, new_SubCellData)
         \<and> n_vertices_after (close_int 1) (Suc k)
               (three_quads_vertices, three_quads_cells, new_SubCellData)
             = n_vertices_after (close_int 1) k
                 (three_quads_vertices, three_quads_cells, new_SubCellData)"
    using k(2) k(3) unfolding i by (intro exI [of _ i] conjI) simp_all
  from t have 2: "delete_duplicated_vertices (close_int 1) three_quads_merged_vertices
        three_quads_merged_cells new_SubCellData []
       = (three_quads_merged_vertices, three_quads_merged_cells, new_SubCellData)"
    by (rule conjunct2 [THEN conjunct1])
  from t have "\<forall>i j. i < j \<and> j < length three_quads_merged_vertices \<longrightarrow>
         \<not> close_int 1 (three_quads_merged_vertices ! j) (three_quads_merged_vertices ! i)"
    by (rule conjunct2 [THEN conjunct2, THEN conjunct1])
  moreover have "(2::nat) < 7 \<and> 7 < length three_quads_merged_vertices"
    by (simp add: three_quads_merged_vertices_def)
  ultimately have 3: "\<not> close_int 1 (three_quads_merged_vertices ! 7) (three_quads_merged_vertices ! 2)"
    by blast
  from t have 4: "mesh_valid (length three_quads_merged_vertices) three_quads_merged_cells
      new_SubCellData"
    by (rule conjunct2 [THEN conjunct2, THEN conjunct2])
  from b w 2 3 4 show ?thesis
    by (intro conjI)
qed

subsection \<open>The vertex 0 of the tecplot reader\<close>















end
